theory Spec2Isabelle
  imports Main "HOL-Library.Word"
begin

unbundle bit_operations_syntax

section \<open>Common data of the stack walkers\<close>

type_synonym u64 = "64 word"

text \<open>
  The trust levels of a frame (spec, section 3: StackFrame). The enumeration is
  declared in stack_frame.h, which is not among the sources; the walkers only assign
  and compare its values. \<open>FRAME_TRUST_NONE\<close> is the trust of a frame that no
  strategy has filled in yet.
\<close>

datatype FrameTrust =
    FRAME_TRUST_NONE
  | FRAME_TRUST_SCAN
  | FRAME_TRUST_FP
  | FRAME_TRUST_CFI
  | FRAME_TRUST_PREWALKED
  | FRAME_TRUST_CONTEXT
  | FRAME_TRUST_INLINE

text \<open>
  The fields of the base class \<open>StackFrame\<close> that the walkers touch; the
  architecture frames extend it, as the classes of the source do.
\<close>

record StackFrame =
  instruction :: u64
  trust :: FrameTrust

text \<open>
  A memory region answers \<open>GetMemoryAtAddress(address, &value)\<close> for 64-bit values:
  \<open>None\<close> is the \<open>false\<close> return, \<open>Some v\<close> the value stored through the pointer.
\<close>

type_synonym MemoryRegion = "u64 \<Rightarrow> u64 option"

text \<open>A code module, as far as the walkers look at it: its base address and size.\<close>

record CodeModule =
  base_address :: u64
  size_of :: u64

text \<open>
  Modelled from the spec: \<open>CodeModules::GetModuleForAddress\<close> is an interface whose
  implementations are not among the sources. The spec speaks of a value that "lands
  inside some known module": a module contains an address when the address is at or
  above its base and less than \<open>size\<close> bytes past it.
\<close>

definition module_contains :: "CodeModule \<Rightarrow> u64 \<Rightarrow> bool" where
  "module_contains m a \<longleftrightarrow> base_address m \<le> a \<and> a - base_address m < size_of m"

definition GetModuleForAddress :: "CodeModule list \<Rightarrow> u64 \<Rightarrow> CodeModule option" where
  "GetModuleForAddress ms a = find (\<lambda>m. module_contains m a) ms"

text \<open>
  \<open>GetModuleAtSequence(module_count() - 1)\<close>: the modules are kept in sequence, the
  highest-loaded one last.
\<close>

definition GetModuleAtSequence :: "CodeModule list \<Rightarrow> nat \<Rightarrow> CodeModule" where
  "GetModuleAtSequence ms n = ms ! n"

text \<open>
  The base class \<open>Stackwalker\<close>. \<open>memory\<close> and \<open>modules\<close> may be null pointers.
  \<open>Stackwalker::TerminateWalk\<close> (arguments: caller pc, caller sp, callee sp,
  first-unwind flag) is not among the sources and is a parameter of the walker.
\<close>

record Stackwalker =
  memory :: "MemoryRegion option"
  modules :: "CodeModule list option"
  TerminateWalk :: "u64 \<Rightarrow> u64 \<Rightarrow> u64 \<Rightarrow> bool \<Rightarrow> bool"

section \<open>The ARM64 walker\<close>

text \<open>
  Register indices and validity flags. The source indexes \<open>context.iregs\<close> with
  \<open>MD_CONTEXT_ARM64_REG_FP/LR/SP/PC\<close> and tests \<open>context_validity\<close> against
  \<open>RegisterValidFlag(i)\<close> and \<open>CONTEXT_VALID_*\<close>; their declarations
  (minidump_cpu_arm64.h, stack_frame_cpu.h) are not among the sources. The values
  below are the ones the table \<open>register_names\<close> of the source fixes: x29 (the frame
  pointer) at index 29, x30 (the link register) at 30, sp at 31, pc at 32, one
  validity bit per index.
\<close>

definition MD_CONTEXT_ARM64_REG_FP :: nat where "MD_CONTEXT_ARM64_REG_FP = 29"
definition MD_CONTEXT_ARM64_REG_LR :: nat where "MD_CONTEXT_ARM64_REG_LR = 30"
definition MD_CONTEXT_ARM64_REG_SP :: nat where "MD_CONTEXT_ARM64_REG_SP = 31"
definition MD_CONTEXT_ARM64_REG_PC :: nat where "MD_CONTEXT_ARM64_REG_PC = 32"

definition RegisterValidFlag :: "nat \<Rightarrow> u64" where
  "RegisterValidFlag n = push_bit n 1"

definition CONTEXT_VALID_NONE :: u64 where "CONTEXT_VALID_NONE = 0"
definition CONTEXT_VALID_ALL :: u64 where "CONTEXT_VALID_ALL = NOT CONTEXT_VALID_NONE"
definition CONTEXT_VALID_FP :: u64 where
  "CONTEXT_VALID_FP = RegisterValidFlag MD_CONTEXT_ARM64_REG_FP"
definition CONTEXT_VALID_LR :: u64 where
  "CONTEXT_VALID_LR = RegisterValidFlag MD_CONTEXT_ARM64_REG_LR"
definition CONTEXT_VALID_SP :: u64 where
  "CONTEXT_VALID_SP = RegisterValidFlag MD_CONTEXT_ARM64_REG_SP"
definition CONTEXT_VALID_PC :: u64 where
  "CONTEXT_VALID_PC = RegisterValidFlag MD_CONTEXT_ARM64_REG_PC"

text \<open>
  \<open>StackFrameARM64\<close>: the validity bit set and the register array of the context,
  indexed 0 to 32. \<open>new StackFrameARM64()\<close> gives a frame with nothing valid.
\<close>

record StackFrameARM64 = StackFrame +
  context_validity :: u64
  iregs :: "nat \<Rightarrow> u64"

definition StackFrameARM64_new :: StackFrameARM64 where
  "StackFrameARM64_new =
     \<lparr> instruction = 0, trust = FRAME_TRUST_NONE,
       context_validity = CONTEXT_VALID_NONE, iregs = (\<lambda>_. 0) \<rparr>"

type_synonym RegisterValueMap = "string \<rightharpoonup> u64"

text \<open>
  \<open>CFIFrameInfo::FindCallerRegs(callee_registers, memory, &caller_registers)\<close> is not
  among the sources: a CFI frame info is taken as the function it computes, \<open>None\<close>
  for the \<open>false\<close> return.
\<close>

type_synonym CFIFrameInfo = "RegisterValueMap \<Rightarrow> MemoryRegion \<Rightarrow> RegisterValueMap option"

text \<open>
  The ARM64 walker. \<open>context_arm64\<close> is the member \<open>context_\<close> (a null pointer is
  \<open>None\<close>; of the raw context only the registers are kept). Two more members of the
  base class whose code is not among the sources are parameters:
  \<open>FindCFIFrameInfo\<close> (of the frame symbolizer; \<open>None\<close> when no CFI covers the
  frame's instruction) and \<open>ScanForReturnAddress\<close> (arguments: the last stack
  pointer and the context-frame flag; result: the location found and the return
  address there).
\<close>

record StackwalkerARM64 = Stackwalker +
  context_arm64 :: "(nat \<Rightarrow> u64) option"
  context_frame_validity :: u64
  address_range_mask :: u64
  FindCFIFrameInfo :: "StackFrameARM64 \<Rightarrow> CFIFrameInfo option"
  ScanForReturnAddress :: "u64 \<Rightarrow> bool \<Rightarrow> (u64 \<times> u64) option"

text \<open>The six shift-and-or steps of the constructor.\<close>

definition smear :: "u64 \<Rightarrow> u64" where
  "smear m0 =
     (let m1 = m0 OR drop_bit 1 m0;
          m2 = m1 OR drop_bit 2 m1;
          m3 = m2 OR drop_bit 4 m2;
          m4 = m3 OR drop_bit 8 m3;
          m5 = m4 OR drop_bit 16 m4;
          m6 = m5 OR drop_bit 32 m5
      in m6)"

definition derive_mask :: "CodeModule list option \<Rightarrow> u64" where
  "derive_mask mods =
     (case mods of
        None \<Rightarrow> 0xffffffffffffffff
      | Some ms \<Rightarrow>
          if length ms > 0 then
            (let high_module = GetModuleAtSequence ms (length ms - 1)
             in smear (base_address high_module + size_of high_module))
          else 0xffffffffffffffff)"

definition StackwalkerARM64_ctor ::
  "(nat \<Rightarrow> u64) option \<Rightarrow> MemoryRegion option \<Rightarrow> CodeModule list option \<Rightarrow>
   (StackFrameARM64 \<Rightarrow> CFIFrameInfo option) \<Rightarrow>
   (u64 \<Rightarrow> bool \<Rightarrow> (u64 \<times> u64) option) \<Rightarrow>
   (u64 \<Rightarrow> u64 \<Rightarrow> u64 \<Rightarrow> bool \<Rightarrow> bool) \<Rightarrow> StackwalkerARM64" where
  "StackwalkerARM64_ctor ctx mem mods find_cfi scan term =
     \<lparr> memory = mem, modules = mods, TerminateWalk = term,
       context_arm64 = ctx, context_frame_validity = CONTEXT_VALID_ALL,
       address_range_mask = derive_mask mods,
       FindCFIFrameInfo = find_cfi, ScanForReturnAddress = scan \<rparr>"

definition PtrauthStrip :: "StackwalkerARM64 \<Rightarrow> u64 \<Rightarrow> u64" where
  "PtrauthStrip w ptr =
     (let stripped = ptr AND address_range_mask w
      in case modules w of
           None \<Rightarrow> ptr
         | Some ms \<Rightarrow> (if GetModuleForAddress ms stripped \<noteq> None then stripped else ptr))"

definition GetContextFrame_ARM64 :: "StackwalkerARM64 \<Rightarrow> StackFrameARM64 option" where
  "GetContextFrame_ARM64 w =
     (case context_arm64 w of
        None \<Rightarrow> None
      | Some ctx \<Rightarrow>
          Some \<lparr> instruction = ctx MD_CONTEXT_ARM64_REG_PC,
                 trust = FRAME_TRUST_CONTEXT,
                 context_validity = context_frame_validity w,
                 iregs = ctx(MD_CONTEXT_ARM64_REG_LR :=
                               PtrauthStrip w (ctx MD_CONTEXT_ARM64_REG_LR)) \<rparr>)"

definition register_names :: "string list" where
  "register_names =
     [''x0'',  ''x1'',  ''x2'',  ''x3'',  ''x4'',  ''x5'',  ''x6'',  ''x7'',
      ''x8'',  ''x9'',  ''x10'', ''x11'', ''x12'', ''x13'', ''x14'', ''x15'',
      ''x16'', ''x17'', ''x18'', ''x19'', ''x20'', ''x21'', ''x22'', ''x23'',
      ''x24'', ''x25'', ''x26'', ''x27'', ''x28'', ''x29'', ''x30'', ''sp'',
      ''pc'']"

text \<open>
  The first loop of \<open>GetCallerByCFIFrameInfo\<close>, over the indices of
  \<open>register_names\<close>: the dictionary of the registers valid in the callee.
\<close>

fun populate_callee_registers ::
  "StackFrameARM64 \<Rightarrow> nat list \<Rightarrow> RegisterValueMap \<Rightarrow> RegisterValueMap" where
  "populate_callee_registers last_frame [] callee_registers = callee_registers"
| "populate_callee_registers last_frame (i # rest) callee_registers =
     populate_callee_registers last_frame rest
       (if context_validity last_frame AND RegisterValidFlag i \<noteq> 0
        then callee_registers(register_names ! i \<mapsto> iregs last_frame i)
        else callee_registers)"

text \<open>The second loop: fill the new frame from what the CFI recovered.\<close>

fun recover_caller_registers ::
  "StackFrameARM64 \<Rightarrow> RegisterValueMap \<Rightarrow> nat list \<Rightarrow> StackFrameARM64 \<Rightarrow> StackFrameARM64" where
  "recover_caller_registers last_frame caller_registers [] frame = frame"
| "recover_caller_registers last_frame caller_registers (i # rest) frame =
     recover_caller_registers last_frame caller_registers rest
       (case caller_registers (register_names ! i) of
          Some v \<Rightarrow>
            frame\<lparr> context_validity := context_validity frame OR RegisterValidFlag i,
                   iregs := (iregs frame)(i := v) \<rparr>
        | None \<Rightarrow>
            if 19 \<le> i \<and> i \<le> 29 \<and> context_validity last_frame AND RegisterValidFlag i \<noteq> 0
            then frame\<lparr> context_validity := context_validity frame OR RegisterValidFlag i,
                        iregs := (iregs frame)(i := iregs last_frame i) \<rparr>
            else frame)"

definition use_ra :: "RegisterValueMap \<Rightarrow> StackFrameARM64 \<Rightarrow> StackFrameARM64" where
  "use_ra caller_registers frame =
     (if context_validity frame AND CONTEXT_VALID_PC = 0 then
        (case caller_registers ''.ra'' of
           Some v \<Rightarrow>
             frame\<lparr> context_validity := context_validity frame OR CONTEXT_VALID_PC,
                    iregs := (iregs frame)(MD_CONTEXT_ARM64_REG_PC := v) \<rparr>
         | None \<Rightarrow> frame)
      else frame)"

definition use_cfa :: "RegisterValueMap \<Rightarrow> StackFrameARM64 \<Rightarrow> StackFrameARM64" where
  "use_cfa caller_registers frame =
     (if context_validity frame AND CONTEXT_VALID_SP = 0 then
        (case caller_registers ''.cfa'' of
           Some v \<Rightarrow>
             frame\<lparr> context_validity := context_validity frame OR CONTEXT_VALID_SP,
                    iregs := (iregs frame)(MD_CONTEXT_ARM64_REG_SP := v) \<rparr>
         | None \<Rightarrow> frame)
      else frame)"

definition essentials :: u64 where
  "essentials = CONTEXT_VALID_SP OR CONTEXT_VALID_PC"

text \<open>
  The new frame of \<open>GetCallerByCFIFrameInfo\<close> after the loop over the register
  names and the two steps for \<open>.ra\<close> and \<open>.cfa\<close>, before the essentials are tested.
\<close>

definition cfi_candidate :: "StackFrameARM64 \<Rightarrow> RegisterValueMap \<Rightarrow> StackFrameARM64" where
  "cfi_candidate last_frame caller_registers =
     use_cfa caller_registers (use_ra caller_registers
       (recover_caller_registers last_frame caller_registers [0..<length register_names]
          StackFrameARM64_new))"

text \<open>
  \<open>GetCallerByCFIFrameInfo\<close>. \<open>mem\<close> is the region \<open>*memory_\<close>, which
  \<open>GetCallerFrame\<close> has checked to be there; \<open>frames\<close> is not empty
  (\<open>frames.back()\<close>).
\<close>

definition GetCallerByCFIFrameInfo ::
  "StackwalkerARM64 \<Rightarrow> MemoryRegion \<Rightarrow> StackFrameARM64 list \<Rightarrow> CFIFrameInfo \<Rightarrow>
   StackFrameARM64 option" where
  "GetCallerByCFIFrameInfo w mem frames cfi_frame_info =
     (let last_frame = last frames;
          callee_registers =
            populate_callee_registers last_frame [0..<length register_names] Map.empty
      in case cfi_frame_info callee_registers mem of
           None \<Rightarrow> None
         | Some caller_registers \<Rightarrow>
             (let frame = cfi_candidate last_frame caller_registers
              in if context_validity frame AND essentials \<noteq> essentials then None
                 else Some (frame\<lparr> iregs := (iregs frame)(MD_CONTEXT_ARM64_REG_PC :=
                                      PtrauthStrip w (iregs frame MD_CONTEXT_ARM64_REG_PC)),
                                   trust := FRAME_TRUST_CFI \<rparr>)))"

definition GetCallerByStackScan ::
  "StackwalkerARM64 \<Rightarrow> StackFrameARM64 list \<Rightarrow> StackFrameARM64 option" where
  "GetCallerByStackScan w frames =
     (let last_frame = last frames;
          last_sp = iregs last_frame MD_CONTEXT_ARM64_REG_SP
      in case ScanForReturnAddress w last_sp (trust last_frame = FRAME_TRUST_CONTEXT) of
           None \<Rightarrow> None
         | Some (found_sp, caller_pc) \<Rightarrow>
             (let caller_sp = found_sp + 8
              in Some (StackFrameARM64_new
                        \<lparr> trust := FRAME_TRUST_SCAN,
                          iregs := (iregs last_frame)
                                     (MD_CONTEXT_ARM64_REG_PC := caller_pc,
                                      MD_CONTEXT_ARM64_REG_SP := caller_sp),
                          context_validity := CONTEXT_VALID_PC OR CONTEXT_VALID_SP \<rparr>)))"

text \<open>
  The loop of \<open>CorrectRegLRByFramePointer\<close>: from index \<open>id\<close> downwards, the first
  frame that is not an inline frame; \<open>None\<close> when the index would become negative.
\<close>

fun last_frame_callee :: "StackFrameARM64 list \<Rightarrow> nat \<Rightarrow> StackFrameARM64 option" where
  "last_frame_callee frames 0 =
     (if trust (frames ! 0) = FRAME_TRUST_INLINE then None else Some (frames ! 0))"
| "last_frame_callee frames (Suc n) =
     (if trust (frames ! Suc n) = FRAME_TRUST_INLINE then last_frame_callee frames n
      else Some (frames ! Suc n))"

text \<open>
  \<open>CorrectRegLRByFramePointer\<close> writes the link register of the last frame of the
  stack in place: the model returns the last frame as it is afterwards.
\<close>

definition CorrectRegLRByFramePointer ::
  "StackwalkerARM64 \<Rightarrow> MemoryRegion \<Rightarrow> StackFrameARM64 list \<Rightarrow> StackFrameARM64 \<Rightarrow>
   StackFrameARM64" where
  "CorrectRegLRByFramePointer w mem frames last_frame =
     (if length frames < 2 \<or>
         iregs last_frame MD_CONTEXT_ARM64_REG_FP \<le> iregs last_frame MD_CONTEXT_ARM64_REG_SP
      then last_frame
      else case last_frame_callee frames (length frames - 2) of
        None \<Rightarrow> last_frame
      | Some callee \<Rightarrow>
          (let last_frame_callee_fp = iregs callee MD_CONTEXT_ARM64_REG_FP in
           case (if last_frame_callee_fp \<noteq> 0 then mem last_frame_callee_fp else Some 0) of
             None \<Rightarrow> last_frame
           | Some last_fp \<Rightarrow>
               if iregs last_frame MD_CONTEXT_ARM64_REG_FP \<noteq> last_fp then last_frame
               else case (if last_frame_callee_fp \<noteq> 0 then mem (last_frame_callee_fp + 8)
                          else Some 0) of
                 None \<Rightarrow> last_frame
               | Some last_lr \<Rightarrow>
                   last_frame\<lparr> iregs := (iregs last_frame)
                                 (MD_CONTEXT_ARM64_REG_LR := PtrauthStrip w last_lr) \<rparr>))"

text \<open>
  \<open>GetCallerByFramePointer\<close>: the result is the stack, its last frame possibly
  corrected, and the caller frame if there is one.
\<close>

definition GetCallerByFramePointer ::
  "StackwalkerARM64 \<Rightarrow> MemoryRegion \<Rightarrow> StackFrameARM64 list \<Rightarrow>
   StackFrameARM64 list \<times> StackFrameARM64 option" where
  "GetCallerByFramePointer w mem frames =
     (let last_frame =
            (if context_validity (last frames) AND CONTEXT_VALID_LR = 0
             then CorrectRegLRByFramePointer w mem frames (last frames)
             else last frames);
          frames' = butlast frames @ [last_frame];
          last_fp = iregs last_frame MD_CONTEXT_ARM64_REG_FP
      in case (if last_fp \<noteq> 0 then mem last_fp else Some 0) of
           None \<Rightarrow> (frames', None)
         | Some caller_fp \<Rightarrow>
             (case (if last_fp \<noteq> 0 then mem (last_fp + 8) else Some 0) of
                None \<Rightarrow> (frames', None)
              | Some lr \<Rightarrow>
                  (let caller_lr = PtrauthStrip w lr;
                       caller_sp = (if last_fp \<noteq> 0 then last_fp + 16
                                    else iregs last_frame MD_CONTEXT_ARM64_REG_SP)
                   in (frames',
                       Some (StackFrameARM64_new
                              \<lparr> trust := FRAME_TRUST_FP,
                                iregs := (iregs last_frame)
                                  (MD_CONTEXT_ARM64_REG_FP := caller_fp,
                                   MD_CONTEXT_ARM64_REG_SP := caller_sp,
                                   MD_CONTEXT_ARM64_REG_PC :=
                                     iregs last_frame MD_CONTEXT_ARM64_REG_LR,
                                   MD_CONTEXT_ARM64_REG_LR := caller_lr),
                                context_validity :=
                                  CONTEXT_VALID_PC OR CONTEXT_VALID_LR OR
                                  CONTEXT_VALID_FP OR CONTEXT_VALID_SP \<rparr>)))))"

text \<open>
  \<open>StackwalkerARM64::GetCallerFrame\<close>. The stack is the vector of its frames
  (\<open>None\<close>: a null pointer), not empty. The result is the stack as the call leaves
  it and the caller frame, \<open>None\<close> for \<open>nullptr\<close>.
\<close>

definition GetCallerFrame_ARM64 ::
  "StackwalkerARM64 \<Rightarrow> StackFrameARM64 list option \<Rightarrow> bool \<Rightarrow>
   StackFrameARM64 list option \<times> StackFrameARM64 option" where
  "GetCallerFrame_ARM64 w stack stack_scan_allowed =
     (case (memory w, stack) of
        (Some mem, Some frames) \<Rightarrow>
          (let frame1 =
                 (case FindCFIFrameInfo w (last frames) of
                    Some cfi_frame_info \<Rightarrow> GetCallerByCFIFrameInfo w mem frames cfi_frame_info
                  | None \<Rightarrow> None);
               (frames1, frame2) =
                 (if frame1 = None then GetCallerByFramePointer w mem frames
                  else (frames, frame1));
               frame3 =
                 (if stack_scan_allowed \<and> frame2 = None then GetCallerByStackScan w frames1
                  else frame2);
               last_frame = last frames1
           in case frame3 of
                None \<Rightarrow> (Some frames1, None)
              | Some frame \<Rightarrow>
                  if TerminateWalk w (iregs frame MD_CONTEXT_ARM64_REG_PC)
                                     (iregs frame MD_CONTEXT_ARM64_REG_SP)
                                     (iregs last_frame MD_CONTEXT_ARM64_REG_SP)
                                     (trust last_frame = FRAME_TRUST_CONTEXT)
                  then (Some frames1, None)
                  else (Some frames1,
                        Some (frame\<lparr> instruction :=
                                       iregs frame MD_CONTEXT_ARM64_REG_PC - 4 \<rparr>)))
      | _ \<Rightarrow> (stack, None))"

section \<open>The PPC64 walker\<close>

text \<open>
  \<open>StackFramePPC64\<close>: of the context, the instruction pointer \<open>srr0\<close> and the
  general registers (\<open>gpr[1]\<close> is the stack pointer). The validity flags are
  declared in stack_frame_cpu.h, not among the sources; the walker only stores them,
  and the validity of a frame is the set of the flags it has
  (\<open>CONTEXT_VALID_ALL\<close>: both).
\<close>

datatype ContextValidityPPC64 = CONTEXT_VALID_SRR0 | CONTEXT_VALID_GPR1

record StackFramePPC64 = StackFrame +
  context_validity_ppc64 :: "ContextValidityPPC64 set"
  srr0 :: u64
  gpr :: "nat \<Rightarrow> u64"

text \<open>The member \<open>context_\<close> of the PPC64 walker: srr0 and the general registers.\<close>

record StackwalkerPPC64 = Stackwalker +
  context_ppc64 :: "(u64 \<times> (nat \<Rightarrow> u64)) option"

definition GetContextFrame_PPC64 :: "StackwalkerPPC64 \<Rightarrow> StackFramePPC64 option" where
  "GetContextFrame_PPC64 w =
     (case context_ppc64 w of
        None \<Rightarrow> None
      | Some (pc, regs) \<Rightarrow>
          Some \<lparr> instruction = pc, trust = FRAME_TRUST_CONTEXT,
                 context_validity_ppc64 = {CONTEXT_VALID_SRR0, CONTEXT_VALID_GPR1},
                 srr0 = pc, gpr = regs \<rparr>)"

definition GetCallerFrame_PPC64 ::
  "StackwalkerPPC64 \<Rightarrow> StackFramePPC64 list option \<Rightarrow> bool \<Rightarrow> StackFramePPC64 option" where
  "GetCallerFrame_PPC64 w stack stack_scan_allowed =
     (case (memory w, stack) of
        (Some mem, Some frames) \<Rightarrow>
          (let last_frame = last frames in
           case mem (gpr last_frame 1) of
             None \<Rightarrow> None
           | Some stack_pointer \<Rightarrow>
               if stack_pointer \<le> gpr last_frame 1 then None
               else case mem (stack_pointer + 16) of
                 None \<Rightarrow> None
               | Some instr \<Rightarrow>
                   if instr \<le> 1 then None
                   else
                     (let frame = \<lparr> instruction = 0, trust = FRAME_TRUST_FP,
                                     context_validity_ppc64 =
                                       {CONTEXT_VALID_SRR0, CONTEXT_VALID_GPR1},
                                     srr0 = instr,
                                     gpr = (gpr last_frame)(1 := stack_pointer) \<rparr>
                      in if TerminateWalk w instr stack_pointer (gpr last_frame 1)
                                            (trust last_frame = FRAME_TRUST_CONTEXT)
                         then None
                         else Some (frame\<lparr> instruction := srr0 frame - 8 \<rparr>)))
      | _ \<Rightarrow> None)"

section \<open>The end of a walk\<close>

text \<open>
  Modelled from the spec: \<open>Stackwalker::TerminateWalk\<close> is called by both walkers and
  is not among the sources (stackwalker.cc). The spec, section 4.G, "Termination
  invariants": the walk stops if the new SP is less than or equal to the old SP, or
  if the PC is 0; the first unwind from a CONTEXT frame relaxes the requirement that
  the SP strictly increases, so that there only a new SP below the old one stops the
  walk. The other conditions of that list (the bounds of the stack memory, a scanned
  PC outside the modules, the frame count) are not functions of the four arguments of
  the call and are left to the places that know them.
\<close>

definition Stackwalker_TerminateWalk :: "u64 \<Rightarrow> u64 \<Rightarrow> u64 \<Rightarrow> bool \<Rightarrow> bool" where
  "Stackwalker_TerminateWalk caller_ip caller_sp callee_sp first_unwind \<longleftrightarrow>
     caller_ip = 0 \<or>
     (if first_unwind then caller_sp < callee_sp else caller_sp \<le> callee_sp)"

section \<open>Example stacks\<close>

text \<open>
  An ARM64 frame recovered earlier in a walk (so not the context frame), with the
  frame pointer 0x1100 above the stack pointer 0x1000, and a memory that holds a
  frame record there: the caller's frame pointer at 0x1100, the caller's return
  address at 0x1108.
\<close>

definition ex_memory :: MemoryRegion where
  "ex_memory = [0x1100 \<mapsto> 0x1200, 0x1108 \<mapsto> 0x6008]"

definition ex_frame :: StackFrameARM64 where
  "ex_frame =
     \<lparr> instruction = 0x3000, trust = FRAME_TRUST_CFI,
       context_validity = CONTEXT_VALID_ALL,
       iregs = (\<lambda>_. 0)(19 := 0x1319, 29 := 0x1100, 30 := 0x5008, 31 := 0x1000,
                       32 := 0x3004) \<rparr>"

text \<open>A CFI result that gives only the two synthetic registers.\<close>

definition ex_cfi_rules :: RegisterValueMap where
  "ex_cfi_rules = [''.cfa'' \<mapsto> 0x2000, ''.ra'' \<mapsto> 0x4008]"

definition ex_cfi :: CFIFrameInfo where
  "ex_cfi = (\<lambda>callee_registers mem. Some ex_cfi_rules)"

text \<open>
  A walker over that memory, without modules and without stack scanning results; its
  argument says which frames have CFI.
\<close>

definition ex_walker :: "(StackFrameARM64 \<Rightarrow> CFIFrameInfo option) \<Rightarrow> StackwalkerARM64" where
  "ex_walker find_cfi =
     StackwalkerARM64_ctor None (Some ex_memory) None find_cfi (\<lambda>last_sp is_context. None)
       Stackwalker_TerminateWalk"

text \<open>
  A PPC64 context frame with the stack pointer 0x100; the back chain there leads to
  0x200, and the return address is read at 0x210.
\<close>

definition ex_frame_ppc64 :: StackFramePPC64 where
  "ex_frame_ppc64 =
     \<lparr> instruction = 0x3000, trust = FRAME_TRUST_CONTEXT,
       context_validity_ppc64 = {CONTEXT_VALID_SRR0, CONTEXT_VALID_GPR1},
       srr0 = 0x3000, gpr = (\<lambda>_. 0)(1 := 0x100) \<rparr>"

definition ex_walker_ppc64 :: "u64 \<Rightarrow> StackwalkerPPC64" where
  "ex_walker_ppc64 return_address =
     \<lparr> memory = Some [0x100 \<mapsto> 0x200, 0x210 \<mapsto> return_address], modules = None,
       TerminateWalk = Stackwalker_TerminateWalk, context_ppc64 = None \<rparr>"

section \<open>Function/line pairing of the DWARF CU assembler\<close>

text \<open>
  Modelled from the spec: the pairing of functions and lines in the DWARF CU
  assembler (dwarf_cu_to_module.cc) is not among the sources; only its tests are
  (the fixture \<open>FuncLinePairing\<close> of dwarf_cu_to_module_unittest.cc). The model
  follows the spec, section 4.F, "Function/line pairing algorithm", and the comments
  of the tests. Addresses and sizes are natural numbers, so that a line may end at
  the very end of the address space (test \<open>LineAtEndOfAddressSpace\<close>).

  A line as the tests push it (\<open>PushLine\<close>: address, size, file, number) and a
  function as they define it (\<open>DefineFunction\<close>: name, address, size), with the
  lines the pairing attaches to it.
\<close>

record Line =
  ln_address :: nat
  ln_size :: nat
  ln_file :: string
  ln_number :: nat

record Function =
  fn_name :: string
  fn_address :: nat
  fn_size :: nat
  fn_lines :: "Line list"

definition fn_end :: "Function \<Rightarrow> nat" where
  "fn_end f = fn_address f + fn_size f"

definition ln_end :: "Line \<Rightarrow> nat" where
  "ln_end l = ln_address l + ln_size l"

text \<open>
  What the pairing tells the reporter: \<open>UncoveredFunction\<close> and \<open>UncoveredLine\<close>,
  each for the function or line at that position of the sequence sorted by address.
  The sweep produces these, and the sub-lines it attaches to functions, as events.
\<close>

datatype Warning = UncoveredFunction nat | UncoveredLine nat

datatype Event = Attach nat Line | Warn Warning

text \<open>
  Modelled from the spec: step 1, "Sweep both sequences jointly". The state of the
  sweep: the functions and lines not yet passed, numbered in sorted order, the
  address reached, the last line of which a piece was attached to a function, and
  the last function and the last line reported.
\<close>

record Sweep =
  funcs :: "(nat \<times> Function) list"
  lines :: "(nat \<times> Line) list"
  current :: nat
  last_line_used :: "nat option"
  last_function_cited :: "nat option"
  last_line_cited :: "nat option"

text \<open>
  Modelled from the spec, steps 3 and 4: an uncovered function, or line, is reported
  "once per function (once per line), even with multiple gaps": not again while it
  is the last one reported.
\<close>

definition cite_function :: "nat \<Rightarrow> Sweep \<Rightarrow> Event list" where
  "cite_function i s = (if last_function_cited s \<noteq> Some i then [Warn (UncoveredFunction i)] else [])"

text \<open>
  Modelled from the spec, step 6 and scenario 6 of section 8, and from the comment
  of the test \<open>GCCAlignmentStretch\<close>: "If we did use at least some of the line we're
  about to skip, then assume this is what happened, and don't warn": the uncovered
  rest of a line is alignment padding when a piece of that line was the last one
  attached and the line ends where the next function starts. (The test
  \<open>LineAtEndOfAddressSpace\<close> expects a report for a line used by the function before
  a gap that does not end where the next function starts.)
\<close>

definition padding :: "nat \<Rightarrow> Line \<Rightarrow> Sweep \<Rightarrow> bool" where
  "padding j l s \<longleftrightarrow>
     (case funcs s of
        [] \<Rightarrow> False
      | (i, f) # _ \<Rightarrow> last_line_used s = Some j \<and> fn_address f = ln_end l)"

definition cite_line :: "nat \<Rightarrow> Line \<Rightarrow> Sweep \<Rightarrow> Event list \<times> nat option" where
  "cite_line j l s =
     (if last_line_cited s \<noteq> Some j \<and> \<not> padding j l s
      then ([Warn (UncoveredLine j)], Some j)
      else ([], last_line_cited s))"

text \<open>
  Moving to the next transition: a function or line that ends there (or before) is
  passed.
\<close>

definition advance :: "nat \<Rightarrow> Sweep \<Rightarrow> Sweep" where
  "advance next_transition s =
     s\<lparr> funcs := (case funcs s of
                    (i, f) # fs \<Rightarrow> if fn_end f \<le> next_transition then fs else (i, f) # fs
                  | [] \<Rightarrow> []),
        lines := (case lines s of
                    (j, l) # ls \<Rightarrow> if ln_end l \<le> next_transition then ls else (j, l) # ls
                  | [] \<Rightarrow> []),
        current := next_transition \<rparr>"

text \<open>
  Modelled from the spec, steps 2 to 4. One step of the sweep, by where the address
  reached lies: before the start of both heads, nothing happens up to the nearer
  start; inside the line only, the stretch up to the function's start or the line's
  end is an uncovered stretch of the line; inside the function only, the stretch is
  an uncovered gap of the function; inside both, the overlap up to the nearer end
  is attached to the function as a sub-line, the intersection of the two.
\<close>

definition step :: "Sweep \<Rightarrow> Event list \<times> Sweep" where
  "step s =
     (case (funcs s, lines s) of
        ([], []) \<Rightarrow> ([], s)
      | ((i, f) # fs, []) \<Rightarrow>
          if current s < fn_address f then ([], advance (fn_address f) s)
          else (cite_function i s, advance (fn_end f) (s\<lparr>last_function_cited := Some i\<rparr>))
      | ([], (j, l) # ls) \<Rightarrow>
          if current s < ln_address l then ([], advance (ln_address l) s)
          else (fst (cite_line j l s),
                advance (ln_end l) (s\<lparr>last_line_cited := snd (cite_line j l s)\<rparr>))
      | ((i, f) # fs, (j, l) # ls) \<Rightarrow>
          if current s < fn_address f then
            if current s < ln_address l then
              ([], advance (min (fn_address f) (ln_address l)) s)
            else
              (fst (cite_line j l s),
               advance (min (fn_address f) (ln_end l))
                 (s\<lparr>last_line_cited := snd (cite_line j l s)\<rparr>))
          else
            if current s < ln_address l then
              (cite_function i s,
               advance (min (fn_end f) (ln_address l)) (s\<lparr>last_function_cited := Some i\<rparr>))
            else
              (let next_transition = min (fn_end f) (ln_end l) in
               ([Attach i (l\<lparr>ln_address := current s, ln_size := next_transition - current s\<rparr>)],
                advance next_transition (s\<lparr>last_line_used := Some j\<rparr>))))"

text \<open>
  The sweep ends: each step passes a function or a line, or reaches the start of one
  it was waiting for.
\<close>

definition waiting :: "Sweep \<Rightarrow> nat" where
  "waiting s =
     (case funcs s of (i, f) # _ \<Rightarrow> if current s < fn_address f then 1 else 0 | [] \<Rightarrow> 0) +
     (case lines s of (j, l) # _ \<Rightarrow> if current s < ln_address l then 1 else 0 | [] \<Rightarrow> 0)"

definition pending :: "Sweep \<Rightarrow> nat" where
  "pending s = 3 * (length (funcs s) + length (lines s)) + waiting s"

lemma advance_simps [simp]:
  "current (advance n s) = n"
  "last_line_used (advance n s) = last_line_used s"
  "last_function_cited (advance n s) = last_function_cited s"
  "last_line_cited (advance n s) = last_line_cited s"
  "funcs s = [] \<Longrightarrow> funcs (advance n s) = []"
  "lines s = [] \<Longrightarrow> lines (advance n s) = []"
  "funcs s = (i, f) # fs \<Longrightarrow> funcs (advance n s) = (if fn_end f \<le> n then fs else (i, f) # fs)"
  "lines s = (j, l) # ls \<Longrightarrow> lines (advance n s) = (if ln_end l \<le> n then ls else (j, l) # ls)"
  by (simp_all add: advance_def)


lemma waiting_le: "waiting s \<le> 2"
  by (auto simp: waiting_def split: list.splits)

lemma pending_drop:
  assumes "length (funcs s') + length (lines s') < length (funcs s) + length (lines s)"
  shows "pending s' < pending s"
  using assms waiting_le[of s'] by (simp add: pending_def)

lemma pending_wait:
  assumes "funcs s' = funcs s" "lines s' = lines s" "waiting s' < waiting s"
  shows "pending s' < pending s"
  using assms by (simp add: pending_def)

lemma length_advance:
  "length (funcs (advance n s)) \<le> length (funcs s)"
  "length (lines (advance n s)) \<le> length (lines s)"
  by (auto simp: advance_def split: list.splits)

lemma advance_cases:
  "pending (advance n s) < pending s \<or>
   (funcs (advance n s) = funcs s \<and> lines (advance n s) = lines s)"
proof (cases "funcs (advance n s) = funcs s \<and> lines (advance n s) = lines s")
  case True then show ?thesis by simp
next
  case False
  then have "length (funcs (advance n s)) < length (funcs s) \<or>
             length (lines (advance n s)) < length (lines s)"
    by (auto simp: advance_def split: list.splits if_splits)
  then have "length (funcs (advance n s)) + length (lines (advance n s)) <
             length (funcs s) + length (lines s)"
    using length_advance[of n s] by linarith
  then show ?thesis using pending_drop by blast
qed

lemma waiting_advance:
  assumes "funcs (advance n s) = funcs s" "lines (advance n s) = lines s"
  shows "waiting (advance n s) =
     (case funcs s of (i, f) # _ \<Rightarrow> if n < fn_address f then 1 else 0 | [] \<Rightarrow> 0) +
     (case lines s of (j, l) # _ \<Rightarrow> if n < ln_address l then 1 else 0 | [] \<Rightarrow> 0)"
  using assms by (simp add: waiting_def split: list.splits)

lemma pending_fields [simp]:
  "pending (s\<lparr>last_function_cited := x\<rparr>) = pending s"
  "pending (s\<lparr>last_line_cited := y\<rparr>) = pending s"
  "pending (s\<lparr>last_line_used := z\<rparr>) = pending s"
  by (simp_all add: pending_def waiting_def split: list.splits)

lemma advance_fields [simp]:
  "advance n (s\<lparr>last_function_cited := x\<rparr>) = (advance n s)\<lparr>last_function_cited := x\<rparr>"
  "advance n (s\<lparr>last_line_cited := y\<rparr>) = (advance n s)\<lparr>last_line_cited := y\<rparr>"
  "advance n (s\<lparr>last_line_used := z\<rparr>) = (advance n s)\<lparr>last_line_used := z\<rparr>"
  by (simp_all add: advance_def)

text \<open>The state after a step is the state advanced to some transition, up to the marks.\<close>

lemma step_pending:
  assumes "funcs s \<noteq> [] \<or> lines s \<noteq> []"
  shows "pending (snd (step s)) < pending s"
proof (cases "funcs s")
  case Nil
  with assms obtain j l ls where ls: "lines s = (j, l) # ls" by (cases "lines s") auto
  have st: "snd (step s) =
      (if current s < ln_address l then advance (ln_address l) s
       else (advance (ln_end l) s)\<lparr>last_line_cited := snd (cite_line j l s)\<rparr>)"
    by (simp add: step_def Nil ls)
  show ?thesis
  proof (cases "current s < ln_address l")
    case True
    from advance_cases[of "ln_address l" s] show ?thesis
    proof
      assume "pending (advance (ln_address l) s) < pending s"
      then show ?thesis by (simp add: st True)
    next
      assume same: "funcs (advance (ln_address l) s) = funcs s \<and>
                    lines (advance (ln_address l) s) = lines s"
      then have "waiting (advance (ln_address l) s) < waiting s"
        using True by (simp add: waiting_advance) (simp add: waiting_def Nil ls)
      then show ?thesis using same pending_wait by (simp add: st True)
    qed
  next
    case False
    have "lines (advance (ln_end l) s) = ls" by (simp add: ls)
    moreover have "funcs (advance (ln_end l) s) = []" by (simp add: Nil)
    ultimately have "pending (advance (ln_end l) s) < pending s"
      by (intro pending_drop) (simp add: ls Nil)
    then show ?thesis by (simp add: st False)
  qed
next
  case (Cons p fs)
  obtain i f where p: "p = (i, f)" by (cases p)
  note fs = Cons[unfolded p]
  show ?thesis
  proof (cases "lines s")
    case Nil
    have st: "snd (step s) =
      (if current s < fn_address f then advance (fn_address f) s
       else (advance (fn_end f) s)\<lparr>last_function_cited := Some i\<rparr>)"
      by (simp add: step_def Nil fs)
    show ?thesis
    proof (cases "current s < fn_address f")
      case True
      from advance_cases[of "fn_address f" s] show ?thesis
      proof
        assume "pending (advance (fn_address f) s) < pending s"
        then show ?thesis by (simp add: st True)
      next
        assume same: "funcs (advance (fn_address f) s) = funcs s \<and>
                      lines (advance (fn_address f) s) = lines s"
        then have "waiting (advance (fn_address f) s) < waiting s"
          using True by (simp add: waiting_advance) (simp add: waiting_def Nil fs)
        then show ?thesis using same pending_wait by (simp add: st True)
      qed
    next
      case False
      have "funcs (advance (fn_end f) s) = fs" by (simp add: fs)
      moreover have "lines (advance (fn_end f) s) = []" by (simp add: Nil)
      ultimately have "pending (advance (fn_end f) s) < pending s"
        by (intro pending_drop) (simp add: fs Nil)
      then show ?thesis by (simp add: st False)
    qed
  next
    case (Cons q ls)
    obtain j l where q: "q = (j, l)" by (cases q)
    note ls = Cons[unfolded q]
    define n where "n =
      (if current s < fn_address f
       then if current s < ln_address l then min (fn_address f) (ln_address l)
            else min (fn_address f) (ln_end l)
       else if current s < ln_address l then min (fn_end f) (ln_address l)
            else min (fn_end f) (ln_end l))"
    have st: "pending (snd (step s)) = pending (advance n s)"
      by (simp add: step_def fs ls n_def Let_def)
    from advance_cases[of n s] show ?thesis
    proof
      assume "pending (advance n s) < pending s"
      then show ?thesis by (simp add: st)
    next
      assume same: "funcs (advance n s) = funcs s \<and> lines (advance n s) = lines s"
      then have nf: "\<not> fn_end f \<le> n" and nl: "\<not> ln_end l \<le> n"
        by (auto simp: fs ls split: if_splits)
      have "waiting (advance n s) < waiting s"
        using nf nl unfolding waiting_advance[OF same[THEN conjunct1] same[THEN conjunct2]]
        by (auto simp: waiting_def fs ls n_def fn_end_def ln_end_def min_def split: if_splits)
      then show ?thesis using same pending_wait by (simp add: st)
    qed
  qed
qed

text \<open>
  The sweep: the events of all steps, until no function and no line is left.
\<close>

function sweep :: "Sweep \<Rightarrow> Event list" where
  "sweep s =
     (if funcs s = [] \<and> lines s = [] then []
      else fst (step s) @ sweep (snd (step s)))"
  by pat_completeness auto
termination
  by (relation "measure pending") (auto simp: step_pending)

declare sweep.simps [simp del]

text \<open>
  The reports among the events, the sub-lines attached to one function, and the
  positions of the functions and of the lines reported.
\<close>

definition reported :: "Event list \<Rightarrow> Warning list" where
  "reported evs = concat (map (\<lambda>e. case e of Warn w \<Rightarrow> [w] | Attach k l \<Rightarrow> []) evs)"

definition attached :: "nat \<Rightarrow> Event list \<Rightarrow> Line list" where
  "attached i evs =
     concat (map (\<lambda>e. case e of Attach k l \<Rightarrow> if k = i then [l] else [] | Warn w \<Rightarrow> []) evs)"

definition cited_functions :: "Event list \<Rightarrow> nat list" where
  "cited_functions evs = concat (map (\<lambda>e. case e of Warn (UncoveredFunction i) \<Rightarrow> [i] | _ \<Rightarrow> []) evs)"

definition cited_lines :: "Event list \<Rightarrow> nat list" where
  "cited_lines evs = concat (map (\<lambda>e. case e of Warn (UncoveredLine j) \<Rightarrow> [j] | _ \<Rightarrow> []) evs)"

text \<open>
  Modelled from the spec: "Given functions[] and lines[] both sorted by address",
  the pairing sorts both (the tests push lines in any order), sweeps from address 0,
  gives each function the sub-lines attached to it, and reports the uncovered
  functions and lines unless the uncovered-warnings flag is off (step 5).
\<close>

definition start :: "Function list \<Rightarrow> Line list \<Rightarrow> Sweep" where
  "start functions line_list =
     \<lparr> funcs = enumerate 0 (sort_key fn_address functions),
       lines = enumerate 0 (sort_key ln_address line_list),
       current = 0, last_line_used = None,
       last_function_cited = None, last_line_cited = None \<rparr>"

definition FuncLinePairing ::
  "bool \<Rightarrow> Function list \<Rightarrow> Line list \<Rightarrow> Function list \<times> Warning list" where
  "FuncLinePairing uncovered_warnings functions line_list =
     (let events = sweep (start functions line_list)
      in (map (\<lambda>(i, f). f\<lparr>fn_lines := fn_lines f @ attached i events\<rparr>)
            (funcs (start functions line_list)),
          if uncovered_warnings then reported events else []))"

text \<open>
  The two helpers of the test fixture.
\<close>

definition DefineFunction :: "string \<Rightarrow> nat \<Rightarrow> nat \<Rightarrow> Function" where
  "DefineFunction name address sz = \<lparr>fn_name = name, fn_address = address, fn_size = sz, fn_lines = []\<rparr>"

definition PushLine :: "nat \<Rightarrow> nat \<Rightarrow> string \<Rightarrow> nat \<Rightarrow> Line" where
  "PushLine address sz file number =
     \<lparr>ln_address = address, ln_size = sz, ln_file = file, ln_number = number\<rparr>"

section \<open>The symbol resolver\<close>

text \<open>
  Modelled from the spec: the parser of symbol files, the basic (tree-based) and the
  fast (flat-buffer) source line resolvers and the module serializer are not among
  the sources; only the test fast_source_line_resolver_unittest.cc is, without the
  symbol files it loads. The model follows the spec: section 3 (data model), 4.A
  (symbol file parser), 4.C and 4.D (module representation, address lookup), 6
  (resolver API, serialized form) and 7 (corrupt symbol file). Addresses, sizes and
  line numbers are natural numbers.
\<close>

subsection \<open>Ordered collections\<close>

text \<open>
  Modelled from the spec, sections 4.C and 6: "per-kind ordered collections indexed
  by start address", in "a mutable tree-based representation used during parse": a
  search tree keyed by the start address (or the numeric id). Storing keeps an
  entry that is already there under the key. "Lookup by address uses the largest
  start \<le> query address" (\<open>tree_nearest\<close>), "then verifies the query is within
  [start, start+size)" (\<open>within\<close>); \<open>tree_between\<close> gives the entries from one
  address up to another, in order.
\<close>

datatype 'v range_tree = Tip | Fork "'v range_tree" nat 'v "'v range_tree"

fun tree_store :: "nat \<Rightarrow> 'v \<Rightarrow> 'v range_tree \<Rightarrow> 'v range_tree" where
  "tree_store k v Tip = Fork Tip k v Tip"
| "tree_store k v (Fork l k' v' r) =
     (if k < k' then Fork (tree_store k v l) k' v' r
      else if k' < k then Fork l k' v' (tree_store k v r)
      else Fork l k' v' r)"

fun tree_find :: "'v range_tree \<Rightarrow> nat \<Rightarrow> 'v option" where
  "tree_find Tip k = None"
| "tree_find (Fork l k' v' r) k =
     (if k < k' then tree_find l k else if k' < k then tree_find r k else Some v')"

fun tree_nearest :: "'v range_tree \<Rightarrow> nat \<Rightarrow> (nat \<times> 'v) option" where
  "tree_nearest Tip a = None"
| "tree_nearest (Fork l k v r) a =
     (if a < k then tree_nearest l a
      else case tree_nearest r a of Some e \<Rightarrow> Some e | None \<Rightarrow> Some (k, v))"

fun tree_between :: "'v range_tree \<Rightarrow> nat \<Rightarrow> nat \<Rightarrow> (nat \<times> 'v) list" where
  "tree_between Tip lo hi = []"
| "tree_between (Fork l k v r) lo hi =
     (if lo < k then tree_between l lo hi else []) @
     (if lo \<le> k \<and> k \<le> hi then [(k, v)] else []) @
     (if k < hi then tree_between r lo hi else [])"

text \<open>
  Modelled from the spec, section 6: "an immutable flat-buffer form produced by
  serialization": the entries of a collection laid out in one sequence, in the
  order of their keys, and the same lookups on that sequence, read as the spec
  words them: the entry with the key; the last of the entries that start at or
  before the address; the entries between two addresses.
\<close>

fun flatten :: "'v range_tree \<Rightarrow> (nat \<times> 'v) list" where
  "flatten Tip = []"
| "flatten (Fork l k v r) = flatten l @ (k, v) # flatten r"

definition flat_find :: "(nat \<times> 'v) list \<Rightarrow> nat \<Rightarrow> 'v option" where
  "flat_find xs k = map_option snd (find (\<lambda>e. fst e = k) xs)"

definition flat_nearest :: "(nat \<times> 'v) list \<Rightarrow> nat \<Rightarrow> (nat \<times> 'v) option" where
  "flat_nearest xs a =
     (let candidates = filter (\<lambda>e. fst e \<le> a) xs
      in if candidates = [] then None else Some (last candidates))"

definition flat_between :: "(nat \<times> 'v) list \<Rightarrow> nat \<Rightarrow> nat \<Rightarrow> (nat \<times> 'v) list" where
  "flat_between xs lo hi = filter (\<lambda>e. lo \<le> fst e \<and> fst e \<le> hi) xs"

definition within :: "('v \<Rightarrow> nat) \<Rightarrow> nat \<Rightarrow> (nat \<times> 'v) option \<Rightarrow> (nat \<times> 'v) option" where
  "within sz a found =
     (case found of
        None \<Rightarrow> None
      | Some (first, v) \<Rightarrow> if a < first + sz v then Some (first, v) else None)"

subsection \<open>Records of a symbol file\<close>

text \<open>
  Modelled from the spec, section 3: Line, Inline, Function (with its lines in a
  collection of either form), PublicSymbol, WindowsFrameInfo and the CFI rule
  entries, with the fields the records of a symbol file give them. A set of CFI
  rules is a list of register names with their postfix expressions, kept as text.
\<close>

record SourceLine =
  sl_address :: nat
  sl_size :: nat
  sl_file_id :: nat
  sl_line_number :: nat

record Inline =
  il_origin_id :: nat
  il_depth :: nat
  il_call_site_file :: nat
  il_call_site_line :: nat
  il_ranges :: "(nat \<times> nat) list"

record 'l FunctionOf =
  fu_name :: string
  fu_address :: nat
  fu_size :: nat
  fu_parameter_size :: nat
  fu_is_multiple :: bool
  fu_lines :: 'l
  fu_inlines :: "Inline list"

type_synonym BasicFunction = "SourceLine range_tree FunctionOf"
type_synonym FastFunction = "(nat \<times> SourceLine) list FunctionOf"

record PublicSymbol =
  pb_address :: nat
  pb_name :: string
  pb_parameter_size :: nat
  pb_is_multiple :: bool

datatype StackInfoTypes = STACK_INFO_FPO | STACK_INFO_FRAME_DATA | STACK_INFO_UNKNOWN

record WindowsFrameInfo =
  type_ :: StackInfoTypes
  wf_address :: nat
  wf_size :: nat
  prolog_size :: nat
  epilog_size :: nat
  parameter_size :: nat
  saved_register_size :: nat
  local_size :: nat
  max_stack_size :: nat
  allocates_base_pointer :: bool
  program_string :: string

type_synonym RuleSet = "(string \<times> string) list"

record CFIRuleEntry =
  cfi_address :: nat
  cfi_size :: nat
  cfi_initial_rules :: RuleSet

text \<open>
  Modelled from the spec, section 4.A: the record kinds of a symbol file.
\<close>

datatype Record =
    ModuleRecord string string string string
  | InfoRecord
  | FileRecord nat string
  | InlineOriginRecord nat string
  | FuncRecord string nat nat nat bool
  | InlineRecord Inline
  | LineRecord SourceLine
  | PublicRecord PublicSymbol
  | StackWinRecord WindowsFrameInfo
  | StackCfiInitRecord CFIRuleEntry
  | StackCfiRecord nat RuleSet

subsection \<open>The parser of symbol files\<close>

text \<open>
  Modelled from the spec, sections 4.A and 6: the input is "line-oriented",
  "LF-terminated"; the fields of a record are separated by single spaces; "names
  run to end of line; embedded spaces preserved"; "addresses and sizes are lowercase
  hex without 0x. Line numbers are decimal."
\<close>

fun split_on :: "char \<Rightarrow> string \<Rightarrow> string list" where
  "split_on c [] = [[]]"
| "split_on c (x # xs) =
     (if x = c then [] # split_on c xs
      else case split_on c xs of [] \<Rightarrow> [[x]] | t # ts \<Rightarrow> (x # t) # ts)"

fun join_with :: "char \<Rightarrow> string list \<Rightarrow> string" where
  "join_with c [] = []"
| "join_with c [t] = t"
| "join_with c (t # u # ts) = t @ c # join_with c (u # ts)"

definition tokens :: "string \<Rightarrow> string list" where
  "tokens l = split_on (CHR '' '') l"

definition rest_of_line :: "string list \<Rightarrow> string" where
  "rest_of_line ts = join_with (CHR '' '') ts"

definition symbol_lines :: "string \<Rightarrow> string list" where
  "symbol_lines text = filter (\<lambda>l. l \<noteq> []) (split_on (CHR 0x0A) text)"

definition decimal_digit :: "char \<Rightarrow> nat option" where
  "decimal_digit =
     map_of [(CHR ''0'', 0), (CHR ''1'', 1), (CHR ''2'', 2), (CHR ''3'', 3), (CHR ''4'', 4),
             (CHR ''5'', 5), (CHR ''6'', 6), (CHR ''7'', 7), (CHR ''8'', 8), (CHR ''9'', 9)]"

definition hex_digit :: "char \<Rightarrow> nat option" where
  "hex_digit c =
     (case decimal_digit c of
        Some d \<Rightarrow> Some d
      | None \<Rightarrow>
          map_of [(CHR ''a'', 10), (CHR ''b'', 11), (CHR ''c'', 12), (CHR ''d'', 13),
                  (CHR ''e'', 14), (CHR ''f'', 15)] c)"

definition number_of :: "nat \<Rightarrow> (char \<Rightarrow> nat option) \<Rightarrow> string \<Rightarrow> nat option" where
  "number_of base digit t =
     (if t = [] then None
      else map_option (foldl (\<lambda>n d. base * n + d) 0) (those (map digit t)))"

definition parse_hex :: "string \<Rightarrow> nat option" where
  "parse_hex t = number_of 16 hex_digit t"

definition parse_decimal :: "string \<Rightarrow> nat option" where
  "parse_decimal t = number_of 10 decimal_digit t"

fun pairs :: "'a list \<Rightarrow> ('a \<times> 'a) list option" where
  "pairs [] = Some []"
| "pairs [x] = None"
| "pairs (x # y # zs) = map_option ((#) (x, y)) (pairs zs)"

definition multiple_flag :: "string list \<Rightarrow> bool \<times> string list" where
  "multiple_flag ts = (if ts \<noteq> [] \<and> hd ts = ''m'' then (True, tl ts) else (False, ts))"

text \<open>
  Modelled from the spec, section 4.A: one parser for each record kind, from the
  fields after the keyword, in the order the spec lists them; \<open>None\<close> for a
  malformed record. The optional \<open>m\<close> of \<open>FUNC\<close> and \<open>PUBLIC\<close> "sets
  \<open>is_multiple\<close>".
\<close>

definition ParseModule :: "string list \<Rightarrow> Record option" where
  "ParseModule ts =
     (case ts of
        os # arch # ident # name \<Rightarrow>
          if name = [] then None else Some (ModuleRecord os arch ident (rest_of_line name))
      | _ \<Rightarrow> None)"

definition ParseFile :: "string list \<Rightarrow> Record option" where
  "ParseFile ts =
     (case ts of
        ident # path \<Rightarrow>
          (case parse_decimal ident of
             Some n \<Rightarrow> if path = [] then None else Some (FileRecord n (rest_of_line path))
           | None \<Rightarrow> None)
      | _ \<Rightarrow> None)"

definition ParseInlineOrigin :: "string list \<Rightarrow> Record option" where
  "ParseInlineOrigin ts =
     (case ts of
        ident # name \<Rightarrow>
          (case parse_decimal ident of
             Some n \<Rightarrow> if name = [] then None else Some (InlineOriginRecord n (rest_of_line name))
           | None \<Rightarrow> None)
      | _ \<Rightarrow> None)"

definition ParseFunction :: "string list \<Rightarrow> Record option" where
  "ParseFunction ts =
     (case multiple_flag ts of
        (multiple, a # s # p # name) \<Rightarrow>
          (case those (map parse_hex [a, s, p]) of
             Some [address, sz, psize] \<Rightarrow>
               if name = [] then None
               else Some (FuncRecord (rest_of_line name) address sz psize multiple)
           | _ \<Rightarrow> None)
      | _ \<Rightarrow> None)"

definition ParseInline :: "string list \<Rightarrow> Record option" where
  "ParseInline ts =
     (case ts of
        d # l # f # origin # ranges \<Rightarrow>
          (case (those (map parse_decimal [d, l, f, origin]),
                 Option.bind (those (map parse_hex ranges)) pairs) of
             (Some [depth, call_line, call_file, origin_id], Some (r # rs)) \<Rightarrow>
               Some (InlineRecord \<lparr>il_origin_id = origin_id, il_depth = depth,
                 il_call_site_file = call_file, il_call_site_line = call_line,
                 il_ranges = r # rs\<rparr>)
           | _ \<Rightarrow> None)
      | _ \<Rightarrow> None)"

definition ParseLine :: "string list \<Rightarrow> Record option" where
  "ParseLine ts =
     (case ts of
        [a, s, l, f] \<Rightarrow>
          (case (those (map parse_hex [a, s]), those (map parse_decimal [l, f])) of
             (Some [address, sz], Some [line, file]) \<Rightarrow>
               Some (LineRecord \<lparr>sl_address = address, sl_size = sz, sl_file_id = file,
                 sl_line_number = line\<rparr>)
           | _ \<Rightarrow> None)
      | _ \<Rightarrow> None)"

definition ParsePublicSymbol :: "string list \<Rightarrow> Record option" where
  "ParsePublicSymbol ts =
     (case multiple_flag ts of
        (multiple, a # p # name) \<Rightarrow>
          (case those (map parse_hex [a, p]) of
             Some [address, psize] \<Rightarrow>
               if name = [] then None
               else Some (PublicRecord \<lparr>pb_address = address, pb_name = rest_of_line name,
                      pb_parameter_size = psize, pb_is_multiple = multiple\<rparr>)
           | _ \<Rightarrow> None)
      | _ \<Rightarrow> None)"

text \<open>
  Modelled from the spec: section 3 names the types of a WindowsFrameInfo (FPO,
  FRAME_DATA, UNKNOWN) and not the numbers that stand for them in a \<open>STACK WIN\<close>
  record; here 0 stands for FPO and 4 for FRAME_DATA, any other number for UNKNOWN.
\<close>

definition stack_info_type :: "nat \<Rightarrow> StackInfoTypes" where
  "stack_info_type n =
     (if n = 0 then STACK_INFO_FPO else if n = 4 then STACK_INFO_FRAME_DATA
      else STACK_INFO_UNKNOWN)"

definition ParseStackWin :: "string list \<Rightarrow> Record option" where
  "ParseStackWin ts =
     (case ts of
        ty # a # s # pro # epi # par # sav # loc # mx # alloc # program \<Rightarrow>
          (case those (map parse_hex [ty, a, s, pro, epi, par, sav, loc, mx, alloc]) of
             Some [ty', a', s', pro', epi', par', sav', loc', mx', alloc'] \<Rightarrow>
               Some (StackWinRecord \<lparr>type_ = stack_info_type ty', wf_address = a',
                 wf_size = s', prolog_size = pro', epilog_size = epi', parameter_size = par',
                 saved_register_size = sav', local_size = loc', max_stack_size = mx',
                 allocates_base_pointer = (alloc' \<noteq> 0),
                 program_string = rest_of_line program\<rparr>)
           | _ \<Rightarrow> None)
      | _ \<Rightarrow> None)"

text \<open>
  Modelled from the spec, section 4.A: "Each rules... is a space-separated list of
  \<open>reg: postfix-expression\<close> tokens, where the expression is
  whitespace-separated": a token that ends with a colon names a register, and the
  tokens up to the next such token are its expression.
\<close>

definition rule_step :: "string \<Rightarrow> string list \<times> (string \<times> string list) list
    \<Rightarrow> string list \<times> (string \<times> string list) list" where
  "rule_step t acc =
     (case acc of (expression, rules) \<Rightarrow>
        if last t = CHR '':'' then ([], (butlast t, expression) # rules)
        else (t # expression, rules))"

definition ParseRules :: "string list \<Rightarrow> RuleSet option" where
  "ParseRules ts =
     (case foldr rule_step (filter (\<lambda>t. t \<noteq> []) ts) ([], []) of
        (leading, rules) \<Rightarrow>
          if leading = [] \<and> rules \<noteq> [] \<and> list_all (\<lambda>r. fst r \<noteq> [] \<and> snd r \<noteq> []) rules
          then Some (map (\<lambda>r. (fst r, rest_of_line (snd r))) rules)
          else None)"

definition ParseStackCfi :: "string list \<Rightarrow> Record option" where
  "ParseStackCfi ts =
     (case ts of
        [] \<Rightarrow> None
      | t # us \<Rightarrow>
          if t = ''INIT'' then
            (case us of
               a # s # rules \<Rightarrow>
                 (case (those (map parse_hex [a, s]), ParseRules rules) of
                    (Some [address, sz], Some rs) \<Rightarrow>
                      Some (StackCfiInitRecord \<lparr>cfi_address = address, cfi_size = sz,
                        cfi_initial_rules = rs\<rparr>)
                  | _ \<Rightarrow> None)
             | _ \<Rightarrow> None)
          else
            (case (parse_hex t, ParseRules us) of
               (Some address, Some rs) \<Rightarrow> Some (StackCfiRecord address rs)
             | _ \<Rightarrow> None))"

definition ParseStackInfo :: "string list \<Rightarrow> Record option" where
  "ParseStackInfo ts =
     (case ts of
        [] \<Rightarrow> None
      | platform # us \<Rightarrow>
          if platform = ''WIN'' then ParseStackWin us
          else if platform = ''CFI'' then ParseStackCfi us
          else None)"

text \<open>
  Modelled from the spec, section 4.A: "Recognized record kinds, each with a fixed
  leading keyword"; a line record has "no keyword; distinguished by hex leading
  token". \<open>None\<close> for a malformed line and for an unknown keyword.
\<close>

definition parse_record :: "string \<Rightarrow> Record option" where
  "parse_record l =
     (case tokens l of
        [] \<Rightarrow> None
      | keyword # ts \<Rightarrow>
          if keyword = ''MODULE'' then ParseModule ts
          else if keyword = ''INFO'' then Some InfoRecord
          else if keyword = ''FILE'' then ParseFile ts
          else if keyword = ''INLINE_ORIGIN'' then ParseInlineOrigin ts
          else if keyword = ''FUNC'' then ParseFunction ts
          else if keyword = ''INLINE'' then ParseInline ts
          else if keyword = ''PUBLIC'' then ParsePublicSymbol ts
          else if keyword = ''STACK'' then ParseStackInfo ts
          else ParseLine (keyword # ts))"


subsection \<open>Modules in tree form\<close>

text \<open>
  Modelled from the spec, sections 3 and 4.C: a module "owns sets of Files,
  Functions, InlineOrigins, PublicSymbols, WindowsFrameInfo ranges, and CFI rule
  sets", here in tree form, with the flag of section 7 ("flagged \<open>is_corrupt\<close>").
  While parsing, the function that the last \<open>FUNC\<close> record began is kept aside,
  to take its \<open>INLINE\<close> and line records.
\<close>

record BasicModule =
  bm_identity :: "(string \<times> string \<times> string \<times> string) option"
  bm_files :: "string range_tree"
  bm_inline_origins :: "string range_tree"
  bm_functions :: "BasicFunction range_tree"
  bm_public_symbols :: "PublicSymbol range_tree"
  bm_windows_frame_info :: "WindowsFrameInfo range_tree"
  bm_cfi_initial_rules :: "CFIRuleEntry range_tree"
  bm_cfi_delta_rules :: "RuleSet range_tree"
  bm_is_corrupt :: bool

record Parse =
  loaded :: BasicModule
  cur_func :: "BasicFunction option"
  at_start :: bool

definition empty_module :: BasicModule where
  "empty_module = \<lparr>bm_identity = None, bm_files = Tip, bm_inline_origins = Tip,
     bm_functions = Tip, bm_public_symbols = Tip, bm_windows_frame_info = Tip,
     bm_cfi_initial_rules = Tip, bm_cfi_delta_rules = Tip, bm_is_corrupt = False\<rparr>"

definition begin_parse :: Parse where
  "begin_parse = \<lparr>loaded = empty_module, cur_func = None, at_start = True\<rparr>"

text \<open>
  Modelled from the spec, section 4.A: "\<open>FUNC\<close> begins a function. Subsequent
  \<open>INLINE\<close>/line records belong to it until the next top-level record": there the
  function is stored in the module. "\<open>MODULE\<close> must be first"; "Duplicate \<open>FILE\<close> or
  \<open>INLINE_ORIGIN\<close> ids are rejected"; an \<open>INLINE\<close> or line record with no function
  to belong to is rejected too. \<open>INFO\<close> records are read and ignored.
\<close>

definition end_function :: "Parse \<Rightarrow> Parse" where
  "end_function p =
     (case cur_func p of
        None \<Rightarrow> p
      | Some f \<Rightarrow>
          p\<lparr>loaded := (loaded p)\<lparr>bm_functions :=
               tree_store (fu_address f) f (bm_functions (loaded p))\<rparr>,
            cur_func := None\<rparr>)"

definition is_top_level :: "Record \<Rightarrow> bool" where
  "is_top_level r = (case r of InlineRecord i \<Rightarrow> False | LineRecord l \<Rightarrow> False | _ \<Rightarrow> True)"

fun store_record :: "Record \<Rightarrow> Parse \<Rightarrow> Parse option" where
  "store_record (ModuleRecord os arch ident name) p =
     (if at_start p then Some (p\<lparr>loaded := (loaded p)\<lparr>bm_identity := Some (os, arch, ident, name)\<rparr>\<rparr>)
      else None)"
| "store_record InfoRecord p = Some p"
| "store_record (FileRecord n path) p =
     (if tree_find (bm_files (loaded p)) n = None
      then Some (p\<lparr>loaded := (loaded p)\<lparr>bm_files := tree_store n path (bm_files (loaded p))\<rparr>\<rparr>)
      else None)"
| "store_record (InlineOriginRecord n name) p =
     (if tree_find (bm_inline_origins (loaded p)) n = None
      then Some (p\<lparr>loaded := (loaded p)\<lparr>bm_inline_origins :=
             tree_store n name (bm_inline_origins (loaded p))\<rparr>\<rparr>)
      else None)"
| "store_record (FuncRecord name address sz psize multiple) p =
     Some (p\<lparr>cur_func := Some \<lparr>fu_name = name, fu_address = address, fu_size = sz,
       fu_parameter_size = psize, fu_is_multiple = multiple, fu_lines = Tip,
       fu_inlines = []\<rparr>\<rparr>)"
| "store_record (InlineRecord i) p =
     (case cur_func p of
        None \<Rightarrow> None
      | Some f \<Rightarrow> Some (p\<lparr>cur_func := Some (f\<lparr>fu_inlines := fu_inlines f @ [i]\<rparr>)\<rparr>))"
| "store_record (LineRecord l) p =
     (case cur_func p of
        None \<Rightarrow> None
      | Some f \<Rightarrow>
          Some (p\<lparr>cur_func := Some (f\<lparr>fu_lines := tree_store (sl_address l) l (fu_lines f)\<rparr>)\<rparr>))"
| "store_record (PublicRecord s) p =
     Some (p\<lparr>loaded := (loaded p)\<lparr>bm_public_symbols :=
       tree_store (pb_address s) s (bm_public_symbols (loaded p))\<rparr>\<rparr>)"
| "store_record (StackWinRecord w) p =
     Some (p\<lparr>loaded := (loaded p)\<lparr>bm_windows_frame_info :=
       tree_store (wf_address w) w (bm_windows_frame_info (loaded p))\<rparr>\<rparr>)"
| "store_record (StackCfiInitRecord e) p =
     Some (p\<lparr>loaded := (loaded p)\<lparr>bm_cfi_initial_rules :=
       tree_store (cfi_address e) e (bm_cfi_initial_rules (loaded p))\<rparr>\<rparr>)"
| "store_record (StackCfiRecord a rules) p =
     Some (p\<lparr>loaded := (loaded p)\<lparr>bm_cfi_delta_rules :=
       tree_store a rules (bm_cfi_delta_rules (loaded p))\<rparr>\<rparr>)"

text \<open>
  Modelled from the spec, section 4.A, "Parser policy: unknown top-level keywords
  and malformed lines flag the module as corrupt but do not abort parsing; a corrupt
  module still exposes whatever it successfully parsed": a line that gives no
  record, or a record that is rejected, sets the flag and parsing goes on with the
  next line. Such a line still ends the function before it when it is a top-level
  line, that is, unless it starts like an \<open>INLINE\<close> or a line record.
\<close>

definition flag_corrupt :: "Parse \<Rightarrow> Parse" where
  "flag_corrupt p = p\<lparr>loaded := (loaded p)\<lparr>bm_is_corrupt := True\<rparr>\<rparr>"

definition is_body_line :: "string \<Rightarrow> bool" where
  "is_body_line l =
     (case tokens l of
        [] \<Rightarrow> False
      | t # ts \<Rightarrow> (case parse_hex t of Some n \<Rightarrow> True | None \<Rightarrow> t = ''INLINE''))"

definition enclosing :: "Parse \<Rightarrow> string \<Rightarrow> Parse" where
  "enclosing p l =
     (if (case parse_record l of None \<Rightarrow> is_body_line l | Some r \<Rightarrow> \<not> is_top_level r)
      then p else end_function p)"

definition parse_line :: "Parse \<Rightarrow> string \<Rightarrow> Parse" where
  "parse_line p l =
     (case Option.bind (parse_record l) (\<lambda>r. store_record r (enclosing p l)) of
        None \<Rightarrow> flag_corrupt (enclosing p l)
      | Some p' \<Rightarrow> p'\<lparr>at_start := False\<rparr>)"

text \<open>
  Modelled from the spec, section 4.A ("whatever it successfully parsed"): the
  lines of a file that the parser accepts, each in the state the parser has reached
  at it. They are the successfully parsed portion of the file.
\<close>

definition accepted :: "Parse \<Rightarrow> string \<Rightarrow> bool" where
  "accepted p l =
     (case Option.bind (parse_record l) (\<lambda>r. store_record r (enclosing p l)) of
        None \<Rightarrow> False
      | Some p' \<Rightarrow> True)"

fun accepted_lines :: "Parse \<Rightarrow> string list \<Rightarrow> string list" where
  "accepted_lines p [] = []"
| "accepted_lines p (l # ls) =
     (if accepted p l then l # accepted_lines (parse_line p l) ls
      else accepted_lines (parse_line p l) ls)"

text \<open>
  Modelled from the spec, section 4.A: parsing a whole file, line by line from the
  empty module; the function begun last is stored at the end.
\<close>

definition parse_symbol_lines :: "string list \<Rightarrow> BasicModule" where
  "parse_symbol_lines ls = loaded (end_function (foldl parse_line begin_parse ls))"

definition LoadMapFromMemory :: "string \<Rightarrow> BasicModule" where
  "LoadMapFromMemory text = parse_symbol_lines (symbol_lines text)"

subsection \<open>Modules in flat form\<close>

text \<open>
  Modelled from the spec, section 6: the flat form of a module, "produced by
  serialization and usable without re-parsing": each collection of the module, and
  the lines of each function, laid out in the order of the keys; the corrupt flag is
  carried over.
\<close>

record FastModule =
  fm_files :: "(nat \<times> string) list"
  fm_inline_origins :: "(nat \<times> string) list"
  fm_functions :: "(nat \<times> FastFunction) list"
  fm_public_symbols :: "(nat \<times> PublicSymbol) list"
  fm_windows_frame_info :: "(nat \<times> WindowsFrameInfo) list"
  fm_cfi_initial_rules :: "(nat \<times> CFIRuleEntry) list"
  fm_cfi_delta_rules :: "(nat \<times> RuleSet) list"
  fm_is_corrupt :: bool

definition serialize_function :: "BasicFunction \<Rightarrow> FastFunction" where
  "serialize_function f =
     \<lparr>fu_name = fu_name f, fu_address = fu_address f, fu_size = fu_size f,
      fu_parameter_size = fu_parameter_size f, fu_is_multiple = fu_is_multiple f,
      fu_lines = flatten (fu_lines f), fu_inlines = fu_inlines f\<rparr>"

definition Serialize :: "BasicModule \<Rightarrow> FastModule" where
  "Serialize m =
     \<lparr>fm_files = flatten (bm_files m),
      fm_inline_origins = flatten (bm_inline_origins m),
      fm_functions = map (\<lambda>e. (fst e, serialize_function (snd e))) (flatten (bm_functions m)),
      fm_public_symbols = flatten (bm_public_symbols m),
      fm_windows_frame_info = flatten (bm_windows_frame_info m),
      fm_cfi_initial_rules = flatten (bm_cfi_initial_rules m),
      fm_cfi_delta_rules = flatten (bm_cfi_delta_rules m),
      fm_is_corrupt = bm_is_corrupt m\<rparr>"

subsection \<open>Queries\<close>

text \<open>
  Modelled from the spec, section 3 (StackFrame) and section 6
  (\<open>fill_source_line_info(&mut frame, &mut inline_frames)\<close>): the fields of a
  stack frame that the resolver reads (\<open>instruction\<close>, \<open>module\<close>: the name under
  which the module was loaded) and fills, and the frames of the inlined calls.
\<close>

record SymbolizedFrame = StackFrame +
  module :: "string option"
  function_name :: string
  function_base :: nat
  source_file_name :: string
  source_line :: nat
  source_line_base :: nat
  is_multiple :: bool

record InlineFrame =
  if_name :: "string option"
  if_base :: nat
  if_call_site_file :: "string option"
  if_call_site_line :: nat

text \<open>
  Modelled from the spec, section 4.D: "Inline trees are descended from depth 0
  downward: the unique child whose ranges contain the query address is selected at
  each depth. The returned inline chain orders innermost (deepest) first."
\<close>

definition covers :: "nat \<Rightarrow> nat \<times> nat \<Rightarrow> bool" where
  "covers a r = (fst r \<le> a \<and> a < fst r + snd r)"

fun descend :: "Inline list \<Rightarrow> nat \<Rightarrow> nat \<Rightarrow> nat \<Rightarrow> Inline list" where
  "descend inlines a depth 0 = []"
| "descend inlines a depth (Suc n) =
     (case find (\<lambda>i. il_depth i = depth \<and> list_ex (covers a) (il_ranges i)) inlines of
        None \<Rightarrow> []
      | Some i \<Rightarrow> descend inlines a (Suc depth) n @ [i])"

definition inline_chain :: "Inline list \<Rightarrow> nat \<Rightarrow> Inline list" where
  "inline_chain inlines a = descend inlines a 0 (length inlines)"

definition inline_frame ::
  "(nat \<Rightarrow> string option) \<Rightarrow> (nat \<Rightarrow> string option) \<Rightarrow> nat \<Rightarrow> Inline \<Rightarrow> InlineFrame" where
  "inline_frame origin_name file_name a i =
     \<lparr>if_name = origin_name (il_origin_id i),
      if_base = (case find (covers a) (il_ranges i) of Some r \<Rightarrow> fst r | None \<Rightarrow> 0),
      if_call_site_file = file_name (il_call_site_file i),
      if_call_site_line = il_call_site_line i\<rparr>"

text \<open>
  Modelled from the spec, sections 3 and 4.D: what a function, a line and a public
  symbol give to the frame. A public symbol is the "fallback when no Function
  covers the address"; "ties (equal start) are resolved by preferring FUNC over
  PUBLIC": the symbol is used when it starts after the nearest function (the test
  \<open>TestLoadAndResolve\<close> expects no name at 0x219f, past the end of the function at
  0x2170, though a public symbol lies before that function).
\<close>

definition name_or_empty :: "string option \<Rightarrow> string" where
  "name_or_empty n = (case n of Some s \<Rightarrow> s | None \<Rightarrow> [])"

definition function_info :: "nat \<Rightarrow> 'l FunctionOf \<Rightarrow> SymbolizedFrame \<Rightarrow> SymbolizedFrame" where
  "function_info first f frame =
     frame\<lparr>function_name := fu_name f, function_base := first,
       is_multiple := fu_is_multiple f\<rparr>"

definition line_info ::
  "(nat \<Rightarrow> string option) \<Rightarrow> (nat \<times> SourceLine) option \<Rightarrow> SymbolizedFrame \<Rightarrow> SymbolizedFrame" where
  "line_info file_name found frame =
     (case found of
        None \<Rightarrow> frame
      | Some (first, l) \<Rightarrow>
          frame\<lparr>source_file_name := name_or_empty (file_name (sl_file_id l)),
            source_line := sl_line_number l, source_line_base := first\<rparr>)"

definition public_info ::
  "(nat \<times> 'l FunctionOf) option \<Rightarrow> (nat \<times> PublicSymbol) option \<Rightarrow> SymbolizedFrame
     \<Rightarrow> SymbolizedFrame" where
  "public_info nearest_function found frame =
     (case found of
        None \<Rightarrow> frame
      | Some (first, s) \<Rightarrow>
          if (case nearest_function of None \<Rightarrow> True | Some (base, f) \<Rightarrow> base < first)
          then frame\<lparr>function_name := pb_name s, function_base := first,
                 is_multiple := pb_is_multiple s\<rparr>
          else frame)"

text \<open>
  Modelled from the spec, section 3: a CFI rule entry has "\<open>initial_rules\<close>: map of
  register-name \<rightarrow> postfix expression, \<open>delta_rules\<close>: sorted by address within
  range, each a patch map": the rules in force at an address are the initial
  rules of the entry that covers it, patched by the delta rules from the start of
  the entry up to the address, in order.
\<close>

definition apply_deltas :: "CFIRuleEntry \<Rightarrow> (nat \<times> RuleSet) list \<Rightarrow> string \<rightharpoonup> string" where
  "apply_deltas e deltas = foldl (\<lambda>rules d. rules ++ map_of (snd d)) (map_of (cfi_initial_rules e)) deltas"

text \<open>
  Modelled from the spec, sections 4.C, 4.D and 6: the three queries on a module in
  tree form, at an address. A function is looked up by the largest start at or
  before the address and must cover it; so are the line inside the function, the
  WindowsFrameInfo range and the CFI rule entry.
\<close>

definition BasicModule_LookupAddress ::
  "BasicModule \<Rightarrow> nat \<Rightarrow> SymbolizedFrame \<Rightarrow> SymbolizedFrame \<times> InlineFrame list" where
  "BasicModule_LookupAddress m a frame =
     (case within fu_size a (tree_nearest (bm_functions m) a) of
        Some (first, f) \<Rightarrow>
          (line_info (tree_find (bm_files m)) (within sl_size a (tree_nearest (fu_lines f) a))
             (function_info first f frame),
           map (inline_frame (tree_find (bm_inline_origins m)) (tree_find (bm_files m)) a)
             (inline_chain (fu_inlines f) a))
      | None \<Rightarrow>
          (public_info (tree_nearest (bm_functions m) a) (tree_nearest (bm_public_symbols m) a)
             frame, []))"

definition BasicModule_FindWindowsFrameInfo :: "BasicModule \<Rightarrow> nat \<Rightarrow> WindowsFrameInfo option" where
  "BasicModule_FindWindowsFrameInfo m a =
     map_option snd (within wf_size a (tree_nearest (bm_windows_frame_info m) a))"

definition BasicModule_FindCFIFrameInfo :: "BasicModule \<Rightarrow> nat \<Rightarrow> (string \<rightharpoonup> string) option" where
  "BasicModule_FindCFIFrameInfo m a =
     (case within cfi_size a (tree_nearest (bm_cfi_initial_rules m) a) of
        None \<Rightarrow> None
      | Some (first, e) \<Rightarrow> Some (apply_deltas e (tree_between (bm_cfi_delta_rules m) first a)))"

text \<open>
  Modelled from the spec, section 6: the same three queries on a module in flat
  form.
\<close>

definition FastModule_LookupAddress ::
  "FastModule \<Rightarrow> nat \<Rightarrow> SymbolizedFrame \<Rightarrow> SymbolizedFrame \<times> InlineFrame list" where
  "FastModule_LookupAddress m a frame =
     (case within fu_size a (flat_nearest (fm_functions m) a) of
        Some (first, f) \<Rightarrow>
          (line_info (flat_find (fm_files m)) (within sl_size a (flat_nearest (fu_lines f) a))
             (function_info first f frame),
           map (inline_frame (flat_find (fm_inline_origins m)) (flat_find (fm_files m)) a)
             (inline_chain (fu_inlines f) a))
      | None \<Rightarrow>
          (public_info (flat_nearest (fm_functions m) a) (flat_nearest (fm_public_symbols m) a)
             frame, []))"

definition FastModule_FindWindowsFrameInfo :: "FastModule \<Rightarrow> nat \<Rightarrow> WindowsFrameInfo option" where
  "FastModule_FindWindowsFrameInfo m a =
     map_option snd (within wf_size a (flat_nearest (fm_windows_frame_info m) a))"

definition FastModule_FindCFIFrameInfo :: "FastModule \<Rightarrow> nat \<Rightarrow> (string \<rightharpoonup> string) option" where
  "FastModule_FindCFIFrameInfo m a =
     (case within cfi_size a (flat_nearest (fm_cfi_initial_rules m) a) of
        None \<Rightarrow> None
      | Some (first, e) \<Rightarrow> Some (apply_deltas e (flat_between (fm_cfi_delta_rules m) first a)))"

subsection \<open>The two resolvers\<close>

text \<open>
  Modelled from the spec, section 6, "Resolver API": \<open>load_module(module,
  symbol_bytes) \<rightarrow> ok|corrupt\<close>, \<open>unload_module\<close>, \<open>has_module\<close>, and the three
  queries, for the two backends; \<open>ConvertOneModule\<close> (named as the test calls it)
  serializes one module of the basic resolver into the fast resolver. A resolver
  holds its modules by name.
\<close>

type_synonym BasicSourceLineResolver = "string \<rightharpoonup> BasicModule"
type_synonym FastSourceLineResolver = "string \<rightharpoonup> FastModule"

datatype LoadResult = LoadOk | LoadCorrupt

definition load_module ::
  "BasicSourceLineResolver \<Rightarrow> string \<Rightarrow> string \<Rightarrow> LoadResult \<times> BasicSourceLineResolver" where
  "load_module resolver name text =
     (let m = LoadMapFromMemory text
      in (if bm_is_corrupt m then LoadCorrupt else LoadOk, resolver(name \<mapsto> m)))"

definition unload_module :: "(string \<rightharpoonup> 'm) \<Rightarrow> string \<Rightarrow> (string \<rightharpoonup> 'm)" where
  "unload_module resolver name = resolver(name := None)"

definition has_module :: "(string \<rightharpoonup> 'm) \<Rightarrow> string \<Rightarrow> bool" where
  "has_module resolver name = (case resolver name of None \<Rightarrow> False | Some m \<Rightarrow> True)"

definition Basic_IsModuleCorrupt :: "BasicSourceLineResolver \<Rightarrow> string \<Rightarrow> bool" where
  "Basic_IsModuleCorrupt resolver name =
     (case resolver name of None \<Rightarrow> False | Some m \<Rightarrow> bm_is_corrupt m)"

definition Fast_IsModuleCorrupt :: "FastSourceLineResolver \<Rightarrow> string \<Rightarrow> bool" where
  "Fast_IsModuleCorrupt resolver name =
     (case resolver name of None \<Rightarrow> False | Some m \<Rightarrow> fm_is_corrupt m)"

definition ConvertOneModule ::
  "string \<Rightarrow> BasicSourceLineResolver \<Rightarrow> FastSourceLineResolver
     \<Rightarrow> bool \<times> FastSourceLineResolver" where
  "ConvertOneModule name basic fast =
     (case basic name of
        None \<Rightarrow> (False, fast)
      | Some m \<Rightarrow> (True, fast(name \<mapsto> Serialize m)))"

definition frame_module :: "(string \<rightharpoonup> 'm) \<Rightarrow> SymbolizedFrame \<Rightarrow> 'm option" where
  "frame_module resolver frame =
     (case module frame of None \<Rightarrow> None | Some name \<Rightarrow> resolver name)"

definition Basic_FillSourceLineInfo ::
  "BasicSourceLineResolver \<Rightarrow> SymbolizedFrame \<Rightarrow> SymbolizedFrame \<times> InlineFrame list" where
  "Basic_FillSourceLineInfo resolver frame =
     (case frame_module resolver frame of
        None \<Rightarrow> (frame, [])
      | Some m \<Rightarrow> BasicModule_LookupAddress m (unat (instruction frame)) frame)"

definition Basic_FindWindowsFrameInfo ::
  "BasicSourceLineResolver \<Rightarrow> SymbolizedFrame \<Rightarrow> WindowsFrameInfo option" where
  "Basic_FindWindowsFrameInfo resolver frame =
     (case frame_module resolver frame of
        None \<Rightarrow> None
      | Some m \<Rightarrow> BasicModule_FindWindowsFrameInfo m (unat (instruction frame)))"

definition Basic_FindCFIFrameInfo ::
  "BasicSourceLineResolver \<Rightarrow> SymbolizedFrame \<Rightarrow> (string \<rightharpoonup> string) option" where
  "Basic_FindCFIFrameInfo resolver frame =
     (case frame_module resolver frame of
        None \<Rightarrow> None
      | Some m \<Rightarrow> BasicModule_FindCFIFrameInfo m (unat (instruction frame)))"

definition Fast_FillSourceLineInfo ::
  "FastSourceLineResolver \<Rightarrow> SymbolizedFrame \<Rightarrow> SymbolizedFrame \<times> InlineFrame list" where
  "Fast_FillSourceLineInfo resolver frame =
     (case frame_module resolver frame of
        None \<Rightarrow> (frame, [])
      | Some m \<Rightarrow> FastModule_LookupAddress m (unat (instruction frame)) frame)"

definition Fast_FindWindowsFrameInfo ::
  "FastSourceLineResolver \<Rightarrow> SymbolizedFrame \<Rightarrow> WindowsFrameInfo option" where
  "Fast_FindWindowsFrameInfo resolver frame =
     (case frame_module resolver frame of
        None \<Rightarrow> None
      | Some m \<Rightarrow> FastModule_FindWindowsFrameInfo m (unat (instruction frame)))"

definition Fast_FindCFIFrameInfo ::
  "FastSourceLineResolver \<Rightarrow> SymbolizedFrame \<Rightarrow> (string \<rightharpoonup> string) option" where
  "Fast_FindCFIFrameInfo resolver frame =
     (case frame_module resolver frame of
        None \<Rightarrow> None
      | Some m \<Rightarrow> FastModule_FindCFIFrameInfo m (unat (instruction frame)))"


text \<open>
  Modelled from the spec, section 4.A: the successfully parsed portion of a symbol
  file, as its lines.
\<close>

definition parsed_portion :: "string \<Rightarrow> string list" where
  "parsed_portion text = accepted_lines begin_parse (symbol_lines text)"

text \<open>
  The symbol file of the spec, section 8, scenario 1 ("Single function with one
  line"), and the same file followed by a malformed \<open>FUNC\<close> record (its size is
  not a number), a line record that has no function to belong to, and a line with
  an unknown keyword.
\<close>

definition single_function_file :: "string list" where
  "single_function_file =
     [''MODULE linux x86_64 000 m'', ''FILE 1 a.c'', ''FUNC 1000 20 0 f'', ''1000 20 10 1'']"

definition corrupt_file :: string where
  "corrupt_file =
     join_with (CHR 0x0A)
       (single_function_file @ [''FUNC 2000 zz 0 g'', ''2000 10 11 1'', ''SYMBOL 3000 h''])"

definition query_frame :: "string \<Rightarrow> u64 \<Rightarrow> SymbolizedFrame" where
  "query_frame name a =
     \<lparr>instruction = a, trust = FRAME_TRUST_NONE, module = Some name, function_name = [],
      function_base = 0, source_file_name = [], source_line = 0, source_line_base = 0,
      is_multiple = False\<rparr>"

subsection \<open>Invariants of the parser\<close>

text \<open>
  A search tree is ordered when the keys on the left of each node are smaller and
  those on the right larger than its key; a module, when its collections and the
  lines of its functions are.
\<close>

fun ordered :: "'v range_tree \<Rightarrow> bool" where
  "ordered Tip = True"
| "ordered (Fork l k v r) \<longleftrightarrow>
     ordered l \<and> ordered r \<and> (\<forall>e\<in>set (flatten l). fst e < k) \<and> (\<forall>e\<in>set (flatten r). k < fst e)"

definition module_ordered :: "BasicModule \<Rightarrow> bool" where
  "module_ordered m \<longleftrightarrow>
     ordered (bm_files m) \<and> ordered (bm_inline_origins m) \<and> ordered (bm_functions m) \<and>
     (\<forall>e\<in>set (flatten (bm_functions m)). ordered (fu_lines (snd e))) \<and>
     ordered (bm_public_symbols m) \<and> ordered (bm_windows_frame_info m) \<and>
     ordered (bm_cfi_initial_rules m) \<and> ordered (bm_cfi_delta_rules m)"

definition parse_ordered :: "Parse \<Rightarrow> bool" where
  "parse_ordered p \<longleftrightarrow>
     module_ordered (loaded p) \<and> (\<forall>f. cur_func p = Some f \<longrightarrow> ordered (fu_lines f))"

text \<open>
  The state of the parser but for the corrupt flag; and a state \<open>p'\<close> that has read
  only the accepted ones of the lines that \<open>p\<close> has read: it is the same but for the
  flag, or it still holds aside the function that \<open>p\<close> has stored already.
\<close>

definition clear :: "Parse \<Rightarrow> Parse" where
  "clear p = p\<lparr>loaded := (loaded p)\<lparr>bm_is_corrupt := False\<rparr>\<rparr>"

definition follows :: "Parse \<Rightarrow> Parse \<Rightarrow> bool" where
  "follows p p' \<longleftrightarrow>
     clear p = clear p' \<or> (cur_func p = None \<and> clear p = clear (end_function p'))"

section \<open>Auxiliary facts\<close>

subsection \<open>The mask of the constructor\<close>


lemma step_bits:
  fixes x y :: u64
  assumes "\<And>n. bit y n \<longleftrightarrow> (\<exists>d<K. bit x (n + d))"
  shows "bit (y OR drop_bit K y) n \<longleftrightarrow> (\<exists>d<2*K. bit x (n + d))"
proof -
  have "bit (y OR drop_bit K y) n \<longleftrightarrow> bit y n \<or> bit y (K + n)"
    by (simp add: bit_or_iff bit_drop_bit_eq)
  also have "\<dots> \<longleftrightarrow> (\<exists>d<K. bit x (n + d)) \<or> (\<exists>d<K. bit x (K + n + d))"
    by (simp add: assms)
  also have "\<dots> \<longleftrightarrow> (\<exists>d<2*K. bit x (n + d))"
  proof
    assume "(\<exists>d<K. bit x (n + d)) \<or> (\<exists>d<K. bit x (K + n + d))"
    then show "\<exists>d<2*K. bit x (n + d)"
    proof
      assume "\<exists>d<K. bit x (n + d)"
      then obtain d where "d < K" "bit x (n + d)" by blast
      then show ?thesis by (intro exI[of _ d]) simp
    next
      assume "\<exists>d<K. bit x (K + n + d)"
      then obtain d where "d < K" "bit x (K + n + d)" by blast
      then show ?thesis by (intro exI[of _ "K + d"]) (simp add: ac_simps)
    qed
  next
    assume "\<exists>d<2*K. bit x (n + d)"
    then obtain d where d: "d < 2*K" "bit x (n + d)" by blast
    show "(\<exists>d<K. bit x (n + d)) \<or> (\<exists>d<K. bit x (K + n + d))"
    proof (cases "d < K")
      case True with d show ?thesis by blast
    next
      case False
      then have "d - K < K" "K + n + (d - K) = n + d" using d by simp_all
      with d show ?thesis by metis
    qed
  qed
  finally show ?thesis .
qed

lemma bit_smear: "bit (smear x) n \<longleftrightarrow> (\<exists>m\<ge>n. bit x m)"
proof -
  define m1 where "m1 = x OR drop_bit 1 x"
  define m2 where "m2 = m1 OR drop_bit 2 m1"
  define m3 where "m3 = m2 OR drop_bit 4 m2"
  define m4 where "m4 = m3 OR drop_bit 8 m3"
  define m5 where "m5 = m4 OR drop_bit 16 m4"
  define m6 where "m6 = m5 OR drop_bit 32 m5"
  have b0: "\<And>n. bit x n \<longleftrightarrow> (\<exists>d<1. bit x (n + d))" by simp
  have b1: "\<And>n. bit m1 n \<longleftrightarrow> (\<exists>d<2. bit x (n + d))"
    unfolding m1_def using step_bits[of x 1 x, OF b0] by simp
  have b2: "\<And>n. bit m2 n \<longleftrightarrow> (\<exists>d<4. bit x (n + d))"
    unfolding m2_def using step_bits[of m1 2 x, OF b1] by simp
  have b3: "\<And>n. bit m3 n \<longleftrightarrow> (\<exists>d<8. bit x (n + d))"
    unfolding m3_def using step_bits[of m2 4 x, OF b2] by simp
  have b4: "\<And>n. bit m4 n \<longleftrightarrow> (\<exists>d<16. bit x (n + d))"
    unfolding m4_def using step_bits[of m3 8 x, OF b3] by simp
  have b5: "\<And>n. bit m5 n \<longleftrightarrow> (\<exists>d<32. bit x (n + d))"
    unfolding m5_def using step_bits[of m4 16 x, OF b4] by simp
  have b6: "\<And>n. bit m6 n \<longleftrightarrow> (\<exists>d<64. bit x (n + d))"
    unfolding m6_def using step_bits[of m5 32 x, OF b5] by simp
  have sm: "smear x = m6"
    by (simp add: smear_def Let_def m1_def m2_def m3_def m4_def m5_def m6_def)
  have "(\<exists>d<64. bit x (n + d)) \<longleftrightarrow> (\<exists>m\<ge>n. bit x m)"
  proof
    assume "\<exists>d<64. bit x (n + d)"
    then show "\<exists>m\<ge>n. bit x m" by (metis le_add1)
  next
    assume "\<exists>m\<ge>n. bit x m"
    then obtain m where m: "n \<le> m" "bit x m" by blast
    then have "m < 64" using bit_imp_le_length[of x m] by simp
    then have "m - n < 64" "n + (m - n) = m" using m by simp_all
    with m show "\<exists>d<64. bit x (n + d)" by metis
  qed
  with b6 sm show ?thesis by simp
qed

lemma smear_is_mask:
  "\<exists>k\<le>64. smear x = mask k \<and> x \<le> mask k \<and> (0 < k \<longrightarrow> bit x (k - 1))"
proof (cases "x = 0")
  case True
  have "smear 0 = (0::u64)" by (simp add: smear_def)
  with True show ?thesis by (intro exI[of _ 0]) simp
next
  case False
  define S where "S = {m. bit x m}"
  have fin: "finite S" unfolding S_def by simp
  have ne: "S \<noteq> {}" unfolding S_def using False by (auto simp: bit_eq_iff)
  define t where "t = Max S"
  have tS: "bit x t" using Max_in[OF fin ne] by (simp add: t_def S_def)
  have tmax: "\<And>m. bit x m \<Longrightarrow> m \<le> t" using Max_ge[OF fin] by (simp add: t_def S_def)
  have t64: "t < 64" using bit_imp_le_length[OF tS] by simp
  have eq: "smear x = mask (Suc t)"
  proof (rule bit_eqI)
    fix n
    have "(\<exists>m\<ge>n. bit x m) \<longleftrightarrow> n \<le> t"
      using tS tmax by (meson order_trans)
    moreover have "n \<le> t \<Longrightarrow> n < 64" using t64 by simp
    ultimately show "bit (smear x) n = bit (mask (Suc t) :: u64) n"
      by (auto simp: bit_smear bit_mask_iff less_Suc_eq_le)
  qed
  have le: "x \<le> mask (Suc t)"
  proof -
    have "x AND mask (Suc t) = x"
      by (rule bit_eqI) (auto simp: bit_and_iff bit_mask_iff less_Suc_eq_le dest: tmax bit_imp_le_length)
    then show ?thesis by (metis word_and_le1)
  qed
  show ?thesis using eq le tS t64 by (intro exI[of _ "Suc t"]) simp
qed

subsection \<open>Validity bits and the register loops\<close>


lemma find_neq_None: "find P xs \<noteq> None \<longleftrightarrow> (\<exists>x\<in>set xs. P x)"
  by (auto simp: find_None_iff)

lemma valid_flag_test:
  "(v AND RegisterValidFlag i = 0) \<longleftrightarrow> \<not> bit v i"
  unfolding RegisterValidFlag_def
proof
  assume "v AND push_bit i 1 = 0"
  then have "\<not> bit (v AND push_bit i 1) i" by simp
  then show "\<not> bit v i"
    by (auto simp: bit_and_iff bit_exp_iff dest: bit_imp_le_length)
next
  assume nb: "\<not> bit v i"
  show "v AND push_bit i 1 = 0"
    by (rule bit_eqI) (use nb in \<open>auto simp: bit_and_iff bit_exp_iff\<close>)
qed

lemma bit_RegisterValidFlag: "bit (RegisterValidFlag i) j \<longleftrightarrow> j = i \<and> i < 64"
  by (auto simp: RegisterValidFlag_def bit_exp_iff)

lemma bit_or_valid_flag:
  "bit (v OR RegisterValidFlag i) j \<longleftrightarrow> bit v j \<or> (j = i \<and> i < 64)"
  by (auto simp: RegisterValidFlag_def bit_or_iff bit_exp_iff)

lemma recover_validity:
  "bit (context_validity (recover_caller_registers lf regs idx fr)) j \<longleftrightarrow>
     bit (context_validity fr) j \<or>
     (j \<in> set idx \<and> j < 64 \<and>
      (regs (register_names ! j) \<noteq> None \<or> (19 \<le> j \<and> j \<le> 29 \<and> bit (context_validity lf) j)))"
proof (induction idx arbitrary: fr)
  case Nil
  then show ?case by simp
next
  case (Cons i rest)
  show ?case
    by (cases "regs (register_names ! i)")
       (auto simp: Cons.IH valid_flag_test bit_or_valid_flag)
qed

lemma recover_iregs:
  "iregs (recover_caller_registers lf regs idx fr) j =
     (if j \<in> set idx then
        (case regs (register_names ! j) of
           Some v \<Rightarrow> v
         | None \<Rightarrow> if 19 \<le> j \<and> j \<le> 29 \<and> bit (context_validity lf) j then iregs lf j
                   else iregs fr j)
      else iregs fr j)"
proof (induction idx arbitrary: fr)
  case Nil
  then show ?case by simp
next
  case (Cons i rest)
  show ?case
    by (cases "regs (register_names ! i)")
       (auto simp: Cons.IH valid_flag_test split: option.splits)
qed

lemma recover_trust [simp]:
  "trust (recover_caller_registers lf regs idx fr) = trust fr"
  by (induction idx arbitrary: fr) (auto split: option.splits)

lemma recover_instruction [simp]:
  "instruction (recover_caller_registers lf regs idx fr) = instruction fr"
  by (induction idx arbitrary: fr) (auto split: option.splits)

lemma register_names_nth:
  "register_names ! 31 = ''sp''" "register_names ! 32 = ''pc''" "length register_names = 33"
  by (simp_all add: register_names_def)

lemma pc_flag_test: "(v AND CONTEXT_VALID_PC = 0) \<longleftrightarrow> \<not> bit v 32"
  unfolding CONTEXT_VALID_PC_def MD_CONTEXT_ARM64_REG_PC_def by (rule valid_flag_test)

lemma sp_flag_test: "(v AND CONTEXT_VALID_SP = 0) \<longleftrightarrow> \<not> bit v 31"
  unfolding CONTEXT_VALID_SP_def MD_CONTEXT_ARM64_REG_SP_def by (rule valid_flag_test)

lemma lr_flag_test: "(v AND CONTEXT_VALID_LR = 0) \<longleftrightarrow> \<not> bit v 30"
  unfolding CONTEXT_VALID_LR_def MD_CONTEXT_ARM64_REG_LR_def by (rule valid_flag_test)

lemma bit_essentials: "bit essentials j \<longleftrightarrow> j = 31 \<or> j = 32"
  unfolding essentials_def CONTEXT_VALID_SP_def CONTEXT_VALID_PC_def
          MD_CONTEXT_ARM64_REG_SP_def MD_CONTEXT_ARM64_REG_PC_def
  by (auto simp add: bit_or_iff bit_RegisterValidFlag)

lemma essentials_test: "(v AND essentials \<noteq> essentials) \<longleftrightarrow> \<not> (bit v 31 \<and> bit v 32)"
proof -
  have "v AND essentials = essentials \<longleftrightarrow> (\<forall>j. bit essentials j \<longrightarrow> bit v j)"
  proof
    assume e: "v AND essentials = essentials"
    show "\<forall>j. bit essentials j \<longrightarrow> bit v j"
    proof (intro allI impI)
      fix j assume "bit essentials j"
      then have "bit (v AND essentials) j" using e by simp
      then show "bit v j" by (simp add: bit_and_iff)
    qed
  next
    assume "\<forall>j. bit essentials j \<longrightarrow> bit v j"
    then show "v AND essentials = essentials"
      by (intro bit_eqI) (auto simp: bit_and_iff)
  qed
  then show ?thesis by (auto simp: bit_essentials)
qed

lemma use_ra_validity:
  "bit (context_validity (use_ra regs fr)) j \<longleftrightarrow>
     bit (context_validity fr) j \<or> (j = 32 \<and> regs ''.ra'' \<noteq> None)"
  by (auto simp: use_ra_def valid_flag_test bit_or_iff CONTEXT_VALID_PC_def
        MD_CONTEXT_ARM64_REG_PC_def bit_RegisterValidFlag split: option.splits)

lemma use_cfa_validity:
  "bit (context_validity (use_cfa regs fr)) j \<longleftrightarrow>
     bit (context_validity fr) j \<or> (j = 31 \<and> regs ''.cfa'' \<noteq> None)"
  by (auto simp: use_cfa_def valid_flag_test bit_or_iff CONTEXT_VALID_SP_def
        MD_CONTEXT_ARM64_REG_SP_def bit_RegisterValidFlag split: option.splits)

lemma use_ra_iregs:
  "iregs (use_ra regs fr) j =
     (if j = 32 \<and> \<not> bit (context_validity fr) 32 \<and> regs ''.ra'' \<noteq> None
      then the (regs ''.ra'') else iregs fr j)"
  by (auto simp: use_ra_def pc_flag_test MD_CONTEXT_ARM64_REG_PC_def split: option.splits)

lemma use_cfa_iregs:
  "iregs (use_cfa regs fr) j =
     (if j = 31 \<and> \<not> bit (context_validity fr) 31 \<and> regs ''.cfa'' \<noteq> None
      then the (regs ''.cfa'') else iregs fr j)"
  by (auto simp: use_cfa_def sp_flag_test MD_CONTEXT_ARM64_REG_SP_def split: option.splits)


lemma cfi_candidate_validity:
  "bit (context_validity (cfi_candidate lf regs)) j \<longleftrightarrow>
     (j < 33 \<and> (regs (register_names ! j) \<noteq> None \<or>
                 (19 \<le> j \<and> j \<le> 29 \<and> bit (context_validity lf) j))) \<or>
     (j = 32 \<and> regs ''.ra'' \<noteq> None) \<or> (j = 31 \<and> regs ''.cfa'' \<noteq> None)"
  unfolding cfi_candidate_def use_cfa_validity use_ra_validity recover_validity
  by (auto simp: register_names_nth StackFrameARM64_new_def CONTEXT_VALID_NONE_def)

lemma cfi_candidate_iregs:
  "iregs (cfi_candidate lf regs) j =
     (if j = 31 \<and> regs ''sp'' = None \<and> regs ''.cfa'' \<noteq> None then the (regs ''.cfa'')
      else if j = 32 \<and> regs ''pc'' = None \<and> regs ''.ra'' \<noteq> None then the (regs ''.ra'')
      else if j < 33 then
        (case regs (register_names ! j) of
           Some v \<Rightarrow> v
         | None \<Rightarrow> if 19 \<le> j \<and> j \<le> 29 \<and> bit (context_validity lf) j then iregs lf j else 0)
      else 0)"
  unfolding cfi_candidate_def use_cfa_iregs use_ra_iregs use_ra_validity recover_validity
        recover_iregs
  by (auto simp: register_names_nth StackFrameARM64_new_def CONTEXT_VALID_NONE_def
        split: option.splits)

lemma GetCallerByCFIFrameInfo_eq:
  "GetCallerByCFIFrameInfo w mem frames cfi =
     (case cfi (populate_callee_registers (last frames) [0..<length register_names] Map.empty) mem of
        None \<Rightarrow> None
      | Some regs \<Rightarrow>
          if bit (context_validity (cfi_candidate (last frames) regs)) 31 \<and>
             bit (context_validity (cfi_candidate (last frames) regs)) 32
          then Some ((cfi_candidate (last frames) regs)
                 \<lparr> iregs := (iregs (cfi_candidate (last frames) regs))
                     (MD_CONTEXT_ARM64_REG_PC :=
                        PtrauthStrip w (iregs (cfi_candidate (last frames) regs)
                                          MD_CONTEXT_ARM64_REG_PC)),
                    trust := FRAME_TRUST_CFI \<rparr>)
          else None)"
  by (simp add: GetCallerByCFIFrameInfo_def Let_def essentials_test split: option.splits)

lemma PtrauthStrip_FindCFI_update [simp]:
  "PtrauthStrip (w\<lparr>FindCFIFrameInfo := x\<rparr>) = PtrauthStrip w"
  by (rule ext) (simp add: PtrauthStrip_def)

lemma CorrectRegLR_FindCFI_update [simp]:
  "CorrectRegLRByFramePointer (w\<lparr>FindCFIFrameInfo := x\<rparr>) = CorrectRegLRByFramePointer w"
  unfolding CorrectRegLRByFramePointer_def PtrauthStrip_FindCFI_update ..

lemma ByFP_FindCFI_update [simp]:
  "GetCallerByFramePointer (w\<lparr>FindCFIFrameInfo := x\<rparr>) = GetCallerByFramePointer w"
  unfolding GetCallerByFramePointer_def PtrauthStrip_FindCFI_update CorrectRegLR_FindCFI_update ..

lemma ByScan_FindCFI_update [simp]:
  "GetCallerByStackScan (w\<lparr>FindCFIFrameInfo := x\<rparr>) = GetCallerByStackScan w"
  by (intro ext) (simp add: GetCallerByStackScan_def cong: option.case_cong)

lemma cfi_fall_through:
  assumes "FindCFIFrameInfo w (last frames) = Some cfi"
      and "memory w = Some mem"
      and "GetCallerByCFIFrameInfo w mem frames cfi = None"
  shows "GetCallerFrame_ARM64 w (Some frames) allow =
         GetCallerFrame_ARM64 (w\<lparr>FindCFIFrameInfo := (\<lambda>_. None)\<rparr>) (Some frames) allow"
  unfolding GetCallerFrame_ARM64_def ByFP_FindCFI_update ByScan_FindCFI_update
  using assms by (simp add: Let_def split: prod.splits option.splits)

subsection \<open>The strategies inside \<open>GetCallerFrame\<close>\<close>

lemma CorrectRegLR_trust [simp]:
  "trust (CorrectRegLRByFramePointer w mem frames lf) = trust lf"
  by (simp add: CorrectRegLRByFramePointer_def Let_def split: option.splits)

lemma CorrectRegLR_iregs:
  "j \<noteq> MD_CONTEXT_ARM64_REG_LR \<Longrightarrow>
   iregs (CorrectRegLRByFramePointer w mem frames lf) j = iregs lf j"
  by (simp add: CorrectRegLRByFramePointer_def Let_def split: option.splits)

lemma ByFP_stack:
  "\<exists>lf. fst (GetCallerByFramePointer w mem frames) = butlast frames @ [lf] \<and>
        trust lf = trust (last frames) \<and>
        iregs lf MD_CONTEXT_ARM64_REG_SP = iregs (last frames) MD_CONTEXT_ARM64_REG_SP"
  by (auto simp: GetCallerByFramePointer_def Let_def CorrectRegLR_iregs
        MD_CONTEXT_ARM64_REG_SP_def MD_CONTEXT_ARM64_REG_LR_def split: option.splits)

lemma ByFP_last:
  "trust (last (fst (GetCallerByFramePointer w mem frames))) = trust (last frames)"
  "iregs (last (fst (GetCallerByFramePointer w mem frames))) MD_CONTEXT_ARM64_REG_SP =
     iregs (last frames) MD_CONTEXT_ARM64_REG_SP"
  using ByFP_stack[of w mem frames] by auto

lemma ByFP_trust:
  "snd (GetCallerByFramePointer w mem frames) = Some f \<Longrightarrow> trust f = FRAME_TRUST_FP"
  by (auto simp: GetCallerByFramePointer_def Let_def StackFrameARM64_new_def
        split: option.splits if_splits)

lemma ByScan_trust:
  "GetCallerByStackScan w frames = Some f \<Longrightarrow> trust f = FRAME_TRUST_SCAN"
  by (auto simp: GetCallerByStackScan_def Let_def StackFrameARM64_new_def
        split: option.splits)

lemma ByCFI_trust:
  "GetCallerByCFIFrameInfo w mem frames cfi = Some f \<Longrightarrow> trust f = FRAME_TRUST_CFI"
  unfolding GetCallerByCFIFrameInfo_eq by (auto split: option.splits if_splits)

text \<open>What \<open>GetCallerFrame\<close> does with the frame a strategy has produced.\<close>

lemma GetCallerFrame_ARM64_eq:
  assumes "memory w = Some mem"
  shows "snd (GetCallerFrame_ARM64 w (Some frames) allow) =
     (let frame1 = (case FindCFIFrameInfo w (last frames) of
                      None \<Rightarrow> None
                    | Some cfi \<Rightarrow> GetCallerByCFIFrameInfo w mem frames cfi);
          fp = GetCallerByFramePointer w mem frames;
          frame3 = (if frame1 \<noteq> None then frame1
                    else if snd fp \<noteq> None then snd fp
                    else if allow then GetCallerByStackScan w (fst fp) else None)
      in case frame3 of
           None \<Rightarrow> None
         | Some frame \<Rightarrow>
             if TerminateWalk w (iregs frame MD_CONTEXT_ARM64_REG_PC)
                  (iregs frame MD_CONTEXT_ARM64_REG_SP)
                  (iregs (last frames) MD_CONTEXT_ARM64_REG_SP)
                  (trust (last frames) = FRAME_TRUST_CONTEXT)
             then None
             else Some (frame\<lparr>instruction := iregs frame MD_CONTEXT_ARM64_REG_PC - 4\<rparr>))"
proof (cases "(case FindCFIFrameInfo w (last frames) of
                      None \<Rightarrow> None
                    | Some cfi \<Rightarrow> GetCallerByCFIFrameInfo w mem frames cfi)")
  case None
  obtain fs f2 where fp: "GetCallerByFramePointer w mem frames = (fs, f2)"
    by (cases "GetCallerByFramePointer w mem frames")
  have l: "trust (last fs) = trust (last frames)"
          "iregs (last fs) MD_CONTEXT_ARM64_REG_SP = iregs (last frames) MD_CONTEXT_ARM64_REG_SP"
    using ByFP_last[of w mem frames] by (simp_all add: fp)
  show ?thesis
    using None assms l
    by (auto simp: GetCallerFrame_ARM64_def Let_def fp split: option.splits)
next
  case (Some f1)
  then show ?thesis
    using assms by (auto simp: GetCallerFrame_ARM64_def Let_def split: option.splits prod.splits)
qed

subsection \<open>The PPC64 walker and the example stacks\<close>

lemma GetCallerFrame_PPC64_Some:
  assumes "GetCallerFrame_PPC64 p stack allow = Some f"
  shows "\<exists>mem frames sp ra.
           memory p = Some mem \<and> stack = Some frames \<and>
           mem (gpr (last frames) 1) = Some sp \<and> gpr (last frames) 1 < sp \<and>
           mem (sp + 16) = Some ra \<and> 1 < ra \<and>
           \<not> TerminateWalk p ra sp (gpr (last frames) 1)
                (trust (last frames) = FRAME_TRUST_CONTEXT) \<and>
           f = \<lparr> instruction = ra - 8, trust = FRAME_TRUST_FP,
                 context_validity_ppc64 = {CONTEXT_VALID_SRR0, CONTEXT_VALID_GPR1},
                 srr0 = ra, gpr = (gpr (last frames))(1 := sp) \<rparr>"
  using assms
  by (auto simp: GetCallerFrame_PPC64_def Let_def not_le
        split: option.splits if_splits prod.splits)

lemma ex_walker_fields:
  "memory (ex_walker fc) = Some ex_memory"
  "modules (ex_walker fc) = None"
  "FindCFIFrameInfo (ex_walker fc) = fc"
  "TerminateWalk (ex_walker fc) = Stackwalker_TerminateWalk"
  "ScanForReturnAddress (ex_walker fc) = (\<lambda>last_sp is_context. None)"
  by (simp_all add: ex_walker_def StackwalkerARM64_ctor_def)

lemma ex_PtrauthStrip: "PtrauthStrip (ex_walker fc) ptr = ptr"
  by (simp add: PtrauthStrip_def ex_walker_fields)

lemma ex_frame_fields:
  "trust ex_frame = FRAME_TRUST_CFI"
  "iregs ex_frame 29 = 0x1100"
  "iregs ex_frame 30 = 0x5008"
  "iregs ex_frame 31 = 0x1000"
  "iregs ex_frame 19 = 0x1319"
  "iregs ex_frame MD_CONTEXT_ARM64_REG_SP = 0x1000"
  "bit (context_validity ex_frame) j \<longleftrightarrow> j < 64"
  by (simp_all add: ex_frame_def CONTEXT_VALID_ALL_def CONTEXT_VALID_NONE_def bit_not_iff
        MD_CONTEXT_ARM64_REG_SP_def)

lemma ex_by_frame_pointer:
  "\<exists>f. GetCallerByFramePointer (ex_walker fc) ex_memory [ex_frame] = ([ex_frame], Some f) \<and>
        trust f = FRAME_TRUST_FP \<and>
        iregs f MD_CONTEXT_ARM64_REG_PC = 0x5008 \<and>
        iregs f MD_CONTEXT_ARM64_REG_SP = 0x1110"
  by (simp add: GetCallerByFramePointer_def lr_flag_test ex_frame_fields ex_PtrauthStrip
        Let_def ex_memory_def StackFrameARM64_new_def MD_CONTEXT_ARM64_REG_FP_def
        MD_CONTEXT_ARM64_REG_LR_def MD_CONTEXT_ARM64_REG_SP_def MD_CONTEXT_ARM64_REG_PC_def)

lemma ex_by_cfi:
  "\<exists>f. GetCallerByCFIFrameInfo (ex_walker fc) ex_memory [ex_frame] ex_cfi = Some f \<and>
        trust f = FRAME_TRUST_CFI \<and>
        iregs f MD_CONTEXT_ARM64_REG_PC = 0x4008 \<and>
        iregs f MD_CONTEXT_ARM64_REG_SP = 0x2000"
  unfolding GetCallerByCFIFrameInfo_eq
  by (simp add: ex_cfi_def cfi_candidate_validity cfi_candidate_iregs ex_cfi_rules_def
        register_names_nth ex_PtrauthStrip MD_CONTEXT_ARM64_REG_SP_def
        MD_CONTEXT_ARM64_REG_PC_def)

lemma ex_get_caller_frame_fp:
  "\<exists>f. snd (GetCallerFrame_ARM64 (ex_walker (\<lambda>_. None)) (Some [ex_frame]) allow) = Some f \<and>
        trust f = FRAME_TRUST_FP \<and>
        iregs f MD_CONTEXT_ARM64_REG_PC = 0x5008 \<and>
        iregs f MD_CONTEXT_ARM64_REG_SP = 0x1110 \<and>
        instruction f = 0x5004"
proof -
  obtain f0 where fp:
    "GetCallerByFramePointer (ex_walker (\<lambda>_. None)) ex_memory [ex_frame] = ([ex_frame], Some f0)"
    "trust f0 = FRAME_TRUST_FP" "iregs f0 MD_CONTEXT_ARM64_REG_PC = 0x5008"
    "iregs f0 MD_CONTEXT_ARM64_REG_SP = 0x1110"
    using ex_by_frame_pointer by blast
  show ?thesis
    unfolding GetCallerFrame_ARM64_eq[OF ex_walker_fields(1)]
    by (simp add: ex_walker_fields fp Let_def Stackwalker_TerminateWalk_def ex_frame_fields)
qed

lemma ex_get_caller_frame_cfi:
  "\<exists>f. snd (GetCallerFrame_ARM64 (ex_walker (\<lambda>_. Some ex_cfi)) (Some [ex_frame]) allow) = Some f \<and>
        trust f = FRAME_TRUST_CFI \<and>
        iregs f MD_CONTEXT_ARM64_REG_PC = 0x4008 \<and>
        iregs f MD_CONTEXT_ARM64_REG_SP = 0x2000 \<and>
        instruction f = 0x4004"
proof -
  obtain f0 where c:
    "GetCallerByCFIFrameInfo (ex_walker (\<lambda>_. Some ex_cfi)) ex_memory [ex_frame] ex_cfi = Some f0"
    "trust f0 = FRAME_TRUST_CFI" "iregs f0 MD_CONTEXT_ARM64_REG_PC = 0x4008"
    "iregs f0 MD_CONTEXT_ARM64_REG_SP = 0x2000"
    using ex_by_cfi by blast
  show ?thesis
    unfolding GetCallerFrame_ARM64_eq[OF ex_walker_fields(1)]
    by (simp add: ex_walker_fields c Let_def Stackwalker_TerminateWalk_def ex_frame_fields)
qed

lemma ex_get_caller_frame_ppc64:
  "\<exists>f. GetCallerFrame_PPC64 (ex_walker_ppc64 0x4008) (Some [ex_frame_ppc64]) allow = Some f \<and>
        trust f = FRAME_TRUST_FP \<and> srr0 f = 0x4008 \<and> gpr f 1 = 0x200 \<and>
        instruction f = 0x4000"
  by (simp add: GetCallerFrame_PPC64_def ex_walker_ppc64_def ex_frame_ppc64_def
        Stackwalker_TerminateWalk_def Let_def word_le_nat_alt)

section \<open>Pointer authentication (claim C1)\<close>

lemma PtrauthStrip_char:
  "PtrauthStrip w ptr =
     (if (\<exists>ms. modules w = Some ms \<and> (\<exists>m\<in>set ms. module_contains m (ptr AND address_range_mask w)))
      then ptr AND address_range_mask w else ptr)"
  by (auto simp: PtrauthStrip_def Let_def GetModuleForAddress_def find_None_iff
           split: option.splits)

lemma derive_mask_is_mask:
  assumes "ms \<noteq> []"
  shows "\<exists>k\<le>64. derive_mask (Some ms) = mask k \<and>
           base_address (last ms) + size_of (last ms) \<le> mask k \<and>
           (0 < k \<longrightarrow> bit (base_address (last ms) + size_of (last ms)) (k - 1))"
proof -
  have "derive_mask (Some ms) = smear (base_address (last ms) + size_of (last ms))"
    using assms by (simp add: derive_mask_def GetModuleAtSequence_def last_conv_nth Let_def)
  then show ?thesis using smear_is_mask by simp
qed

text \<open>
  Claim C1 says that the module at base 0x1000 of size 0x1000 gives the mask 0x1FFF.
  The constructor gives another mask; and under 0x1FFF the pointer 0xdeadbeef would
  be stripped to 0x1eef, inside the module, so it would not be kept.
\<close>

theorem C1_mask_counterexample:
  "derive_mask (Some [\<lparr>base_address = 0x1000, size_of = 0x1000\<rparr>]) \<noteq> 0x1FFF \<and>
   module_contains \<lparr>base_address = 0x1000, size_of = 0x1000\<rparr> (0xdeadbeef AND 0x1FFF)"
  by (simp add: derive_mask_def GetModuleAtSequence_def smear_def module_contains_def)

text \<open>
  Claim C1, as amended. For a walker built by the constructor, \<open>PtrauthStrip\<close> returns
  the pointer ANDed with the address-range mask when that value lies inside some
  loaded module, and the pointer itself otherwise. With a non-empty module list the
  mask is \<open>2^k - 1\<close> for the least \<open>k\<close> that makes it reach the top address
  (base plus size) of the module highest in the sequence: it is at least the top
  address, and its highest bit is a bit of the top address. With the single module
  at base 0x1000 of size 0x1000 the top address is 0x2000 and the mask is 0x3FFF;
  0xdeadbeef00001234 is stripped to 0x1234, and 0xdeadbeef is kept.
\<close>

theorem C1_ptrauth_strip:
  assumes w: "w = StackwalkerARM64_ctor ctx mem mods find_cfi scan tw"
  shows "PtrauthStrip w ptr =
           (if (\<exists>ms. mods = Some ms \<and>
                  (\<exists>m\<in>set ms. module_contains m (ptr AND address_range_mask w)))
            then ptr AND address_range_mask w else ptr) \<and>
         (\<forall>ms. mods = Some ms \<and> ms \<noteq> [] \<longrightarrow>
            (\<exists>k\<le>64. address_range_mask w = mask k \<and>
               base_address (last ms) + size_of (last ms) \<le> mask k \<and>
               (0 < k \<longrightarrow> bit (base_address (last ms) + size_of (last ms)) (k - 1)))) \<and>
         (mods = Some [\<lparr>base_address = 0x1000, size_of = 0x1000\<rparr>] \<longrightarrow>
            address_range_mask w = 0x3FFF \<and>
            PtrauthStrip w 0xdeadbeef00001234 = 0x1234 \<and>
            PtrauthStrip w 0x00000000deadbeef = 0x00000000deadbeef)"
proof (intro conjI allI impI)
  show "PtrauthStrip w ptr =
           (if (\<exists>ms. mods = Some ms \<and>
                  (\<exists>m\<in>set ms. module_contains m (ptr AND address_range_mask w)))
            then ptr AND address_range_mask w else ptr)"
    using PtrauthStrip_char[of w ptr] by (simp add: w StackwalkerARM64_ctor_def)
next
  fix ms assume "mods = Some ms \<and> ms \<noteq> []"
  then show "\<exists>k\<le>64. address_range_mask w = mask k \<and>
               base_address (last ms) + size_of (last ms) \<le> mask k \<and>
               (0 < k \<longrightarrow> bit (base_address (last ms) + size_of (last ms)) (k - 1))"
    using derive_mask_is_mask[of ms] by (simp add: w StackwalkerARM64_ctor_def)
next
  assume m: "mods = Some [\<lparr>base_address = 0x1000, size_of = 0x1000\<rparr>]"
  show "address_range_mask w = 0x3FFF"
    by (simp add: w m StackwalkerARM64_ctor_def derive_mask_def GetModuleAtSequence_def smear_def)
  then show "PtrauthStrip w 0xdeadbeef00001234 = 0x1234"
    by (simp add: PtrauthStrip_char module_contains_def w m StackwalkerARM64_ctor_def)
  from \<open>address_range_mask w = 0x3FFF\<close> show "PtrauthStrip w 0x00000000deadbeef = 0x00000000deadbeef"
    by (simp add: PtrauthStrip_char module_contains_def w m StackwalkerARM64_ctor_def)
qed

text \<open>The single-module walker of claim C1, through the theorem.\<close>

theorem C1_ptrauth_strip_witness:
  "address_range_mask
     (StackwalkerARM64_ctor None None (Some [\<lparr>base_address = 0x1000, size_of = 0x1000\<rparr>])
        (\<lambda>_. None) (\<lambda>_ _. None) (\<lambda>_ _ _ _. False)) = 0x3FFF \<and>
   PtrauthStrip
     (StackwalkerARM64_ctor None None (Some [\<lparr>base_address = 0x1000, size_of = 0x1000\<rparr>])
        (\<lambda>_. None) (\<lambda>_ _. None) (\<lambda>_ _ _ _. False)) 0xdeadbeef00001234 = 0x1234 \<and>
   PtrauthStrip
     (StackwalkerARM64_ctor None None (Some [\<lparr>base_address = 0x1000, size_of = 0x1000\<rparr>])
        (\<lambda>_. None) (\<lambda>_ _. None) (\<lambda>_ _ _ _. False)) 0xdeadbeef = 0xdeadbeef"
  using C1_ptrauth_strip [OF refl,
      of None None "Some [\<lparr>base_address = 0x1000, size_of = 0x1000\<rparr>]"
         "\<lambda>_. None" "\<lambda>_ _. None" "\<lambda>_ _ _ _. False" 0]
  by simp

section \<open>The CFI strategy (claims C4 and C10)\<close>

text \<open>
  Claim C4. The CFI attempt of the ARM64 walker produces a frame exactly when the
  CFI evaluation succeeds and its result holds a value for the caller's pc (under
  the name \<open>pc\<close> or as \<open>.ra\<close>) and one for the caller's sp (under the name \<open>sp\<close>
  or as \<open>.cfa\<close>). The frame then has both marked valid, its sp is the explicit
  value if there is one and the \<open>.cfa\<close> value otherwise, its pc likewise from \<open>pc\<close>
  or \<open>.ra\<close> (with the pointer authentication stripped). When the attempt gives no
  frame, \<open>GetCallerFrame\<close> goes on exactly as if no CFI covered the callee: with
  the frame pointer, then the scan.
\<close>

theorem C4_cfi_needs_pc_and_sp:
  assumes regs_def:
    "callee_registers =
       populate_callee_registers (last frames) [0..<length register_names] Map.empty"
  shows "(GetCallerByCFIFrameInfo w mem frames cfi \<noteq> None \<longleftrightarrow>
            (\<exists>regs. cfi callee_registers mem = Some regs \<and>
               (regs ''pc'' \<noteq> None \<or> regs ''.ra'' \<noteq> None) \<and>
               (regs ''sp'' \<noteq> None \<or> regs ''.cfa'' \<noteq> None))) \<and>
         (\<forall>f regs. GetCallerByCFIFrameInfo w mem frames cfi = Some f \<and>
             cfi callee_registers mem = Some regs \<longrightarrow>
             trust f = FRAME_TRUST_CFI \<and>
             context_validity f AND CONTEXT_VALID_PC \<noteq> 0 \<and>
             context_validity f AND CONTEXT_VALID_SP \<noteq> 0 \<and>
             iregs f MD_CONTEXT_ARM64_REG_PC =
               PtrauthStrip w (case regs ''pc'' of Some v \<Rightarrow> v | None \<Rightarrow> the (regs ''.ra'')) \<and>
             iregs f MD_CONTEXT_ARM64_REG_SP =
               (case regs ''sp'' of Some v \<Rightarrow> v | None \<Rightarrow> the (regs ''.cfa''))) \<and>
         (memory w = Some mem \<and> FindCFIFrameInfo w (last frames) = Some cfi \<and>
          GetCallerByCFIFrameInfo w mem frames cfi = None \<longrightarrow>
            GetCallerFrame_ARM64 w (Some frames) allow =
            GetCallerFrame_ARM64 (w\<lparr>FindCFIFrameInfo := (\<lambda>_. None)\<rparr>) (Some frames) allow)"
proof (intro conjI allI impI)
  show "GetCallerByCFIFrameInfo w mem frames cfi \<noteq> None \<longleftrightarrow>
            (\<exists>regs. cfi callee_registers mem = Some regs \<and>
               (regs ''pc'' \<noteq> None \<or> regs ''.ra'' \<noteq> None) \<and>
               (regs ''sp'' \<noteq> None \<or> regs ''.cfa'' \<noteq> None))"
    unfolding GetCallerByCFIFrameInfo_eq regs_def cfi_candidate_validity
    by (auto simp: register_names_nth split: option.splits)
next
  fix f regs
  assume a: "GetCallerByCFIFrameInfo w mem frames cfi = Some f \<and>
             cfi callee_registers mem = Some regs"
  then have ok: "bit (context_validity (cfi_candidate (last frames) regs)) 31"
                "bit (context_validity (cfi_candidate (last frames) regs)) 32"
    and f: "f = (cfi_candidate (last frames) regs)
                 \<lparr> iregs := (iregs (cfi_candidate (last frames) regs))
                     (MD_CONTEXT_ARM64_REG_PC :=
                        PtrauthStrip w (iregs (cfi_candidate (last frames) regs)
                                          MD_CONTEXT_ARM64_REG_PC)),
                    trust := FRAME_TRUST_CFI \<rparr>"
    unfolding GetCallerByCFIFrameInfo_eq regs_def by (auto split: if_splits)
  show "trust f = FRAME_TRUST_CFI" by (simp add: f)
  show "context_validity f AND CONTEXT_VALID_PC \<noteq> 0"
    using ok by (simp add: f pc_flag_test)
  show "context_validity f AND CONTEXT_VALID_SP \<noteq> 0"
    using ok by (simp add: f sp_flag_test)
  have m: "regs ''pc'' \<noteq> None \<or> regs ''.ra'' \<noteq> None"
          "regs ''sp'' \<noteq> None \<or> regs ''.cfa'' \<noteq> None"
    using ok unfolding cfi_candidate_validity by (auto simp: register_names_nth)
  show "iregs f MD_CONTEXT_ARM64_REG_PC =
          PtrauthStrip w (case regs ''pc'' of Some v \<Rightarrow> v | None \<Rightarrow> the (regs ''.ra''))"
    using m unfolding f MD_CONTEXT_ARM64_REG_PC_def
    by (auto simp: cfi_candidate_iregs register_names_nth split: option.splits)
  show "iregs f MD_CONTEXT_ARM64_REG_SP =
          (case regs ''sp'' of Some v \<Rightarrow> v | None \<Rightarrow> the (regs ''.cfa''))"
    using m unfolding f MD_CONTEXT_ARM64_REG_SP_def MD_CONTEXT_ARM64_REG_PC_def
    by (auto simp: cfi_candidate_iregs register_names_nth split: option.splits)
next
  assume "memory w = Some mem \<and> FindCFIFrameInfo w (last frames) = Some cfi \<and>
          GetCallerByCFIFrameInfo w mem frames cfi = None"
  then show "GetCallerFrame_ARM64 w (Some frames) allow =
            GetCallerFrame_ARM64 (w\<lparr>FindCFIFrameInfo := (\<lambda>_. None)\<rparr>) (Some frames) allow"
    using cfi_fall_through by blast
qed

text \<open>
  The example for claim C4: a CFI result with \<open>.ra\<close> and \<open>.cfa\<close> only gives a frame
  with that pc and sp; an empty CFI result gives none, and \<open>GetCallerFrame\<close> then
  does what it does without CFI.
\<close>

theorem C4_cfi_needs_pc_and_sp_witness:
  "GetCallerByCFIFrameInfo (ex_walker (\<lambda>_. Some ex_cfi)) ex_memory [ex_frame] ex_cfi \<noteq> None \<and>
   ex_cfi_rules ''pc'' = None \<and> ex_cfi_rules ''.ra'' = Some 0x4008 \<and>
   ex_cfi_rules ''sp'' = None \<and> ex_cfi_rules ''.cfa'' = Some 0x2000 \<and>
   iregs (the (GetCallerByCFIFrameInfo (ex_walker (\<lambda>_. Some ex_cfi)) ex_memory [ex_frame] ex_cfi))
     MD_CONTEXT_ARM64_REG_PC = 0x4008 \<and>
   iregs (the (GetCallerByCFIFrameInfo (ex_walker (\<lambda>_. Some ex_cfi)) ex_memory [ex_frame] ex_cfi))
     MD_CONTEXT_ARM64_REG_SP = 0x2000 \<and>
   GetCallerByCFIFrameInfo (ex_walker (\<lambda>_. Some (\<lambda>c m. Some Map.empty))) ex_memory [ex_frame]
     (\<lambda>c m. Some Map.empty) = None \<and>
   GetCallerFrame_ARM64 (ex_walker (\<lambda>_. Some (\<lambda>c m. Some Map.empty))) (Some [ex_frame]) False =
   GetCallerFrame_ARM64 (ex_walker (\<lambda>_. Some (\<lambda>c m. Some Map.empty))
                           \<lparr>FindCFIFrameInfo := (\<lambda>_. None)\<rparr>) (Some [ex_frame]) False"
proof -
  let ?w = "ex_walker (\<lambda>_. Some ex_cfi)"
  let ?v = "ex_walker (\<lambda>_. Some (\<lambda>c m. Some Map.empty))"
  note T = C4_cfi_needs_pc_and_sp[OF refl, of ?w ex_memory "[ex_frame]" ex_cfi False]
  note U = C4_cfi_needs_pc_and_sp[OF refl, of ?v ex_memory "[ex_frame]" "\<lambda>c m. Some Map.empty" False]
  have rules: "ex_cfi_rules ''pc'' = None" "ex_cfi_rules ''.ra'' = Some 0x4008"
    "ex_cfi_rules ''sp'' = None" "ex_cfi_rules ''.cfa'' = Some 0x2000"
    by (simp_all add: ex_cfi_rules_def)
  from T have ne: "GetCallerByCFIFrameInfo ?w ex_memory [ex_frame] ex_cfi \<noteq> None"
    by (simp add: ex_cfi_def rules)
  then obtain f where f: "GetCallerByCFIFrameInfo ?w ex_memory [ex_frame] ex_cfi = Some f"
    by blast
  from T f have "iregs f MD_CONTEXT_ARM64_REG_PC = 0x4008 \<and> iregs f MD_CONTEXT_ARM64_REG_SP = 0x2000"
    by (simp add: ex_cfi_def rules ex_PtrauthStrip)
  moreover from U have n: "GetCallerByCFIFrameInfo ?v ex_memory [ex_frame] (\<lambda>c m. Some Map.empty) = None"
    by simp
  moreover from U n have "GetCallerFrame_ARM64 ?v (Some [ex_frame]) False =
     GetCallerFrame_ARM64 (?v\<lparr>FindCFIFrameInfo := (\<lambda>_. None)\<rparr>) (Some [ex_frame]) False"
    by (simp add: ex_walker_fields)
  ultimately show ?thesis using ne f rules by simp
qed

text \<open>
  Claim C10 says that a register outside x19 to x29 that the CFI rules do not
  mention remains invalid in the caller frame. In the example the CFI result has a
  value under \<open>.ra\<close> and one under \<open>.cfa\<close> only: none under \<open>pc\<close> (register 32) and
  none under \<open>sp\<close> (register 31), both outside x19 to x29; yet the frame produced
  has both marked valid, from \<open>.ra\<close> and \<open>.cfa\<close>.
\<close>

theorem C10_pc_sp_counterexample:
  "ex_cfi (populate_callee_registers (last [ex_frame]) [0..<length register_names] Map.empty)
     ex_memory = Some ex_cfi_rules \<and>
   register_names ! 32 = ''pc'' \<and> ex_cfi_rules ''pc'' = None \<and>
   register_names ! 31 = ''sp'' \<and> ex_cfi_rules ''sp'' = None \<and>
   GetCallerByCFIFrameInfo (ex_walker (\<lambda>_. Some ex_cfi)) ex_memory [ex_frame] ex_cfi \<noteq> None \<and>
   context_validity
     (the (GetCallerByCFIFrameInfo (ex_walker (\<lambda>_. Some ex_cfi)) ex_memory [ex_frame] ex_cfi))
     AND RegisterValidFlag 32 \<noteq> 0 \<and>
   context_validity
     (the (GetCallerByCFIFrameInfo (ex_walker (\<lambda>_. Some ex_cfi)) ex_memory [ex_frame] ex_cfi))
     AND RegisterValidFlag 31 \<noteq> 0"
proof -
  let ?w = "ex_walker (\<lambda>_. Some ex_cfi)"
  obtain f where f: "GetCallerByCFIFrameInfo ?w ex_memory [ex_frame] ex_cfi = Some f"
    using ex_by_cfi by blast
  have r: "ex_cfi (populate_callee_registers (last [ex_frame]) [0..<length register_names]
                        Map.empty) ex_memory = Some ex_cfi_rules"
    by (simp add: ex_cfi_def)
  have n: "register_names ! 32 = ''pc''" "ex_cfi_rules ''pc'' = None"
    "register_names ! 31 = ''sp''" "ex_cfi_rules ''sp'' = None"
    "ex_cfi_rules ''.ra'' \<noteq> None" "ex_cfi_rules ''.cfa'' \<noteq> None"
    by (simp_all add: ex_cfi_rules_def register_names_def)
  have fe: "f = (cfi_candidate (last [ex_frame]) ex_cfi_rules)
                 \<lparr> iregs := (iregs (cfi_candidate (last [ex_frame]) ex_cfi_rules))
                     (MD_CONTEXT_ARM64_REG_PC :=
                        PtrauthStrip ?w (iregs (cfi_candidate (last [ex_frame]) ex_cfi_rules)
                                          MD_CONTEXT_ARM64_REG_PC)),
                    trust := FRAME_TRUST_CFI \<rparr>"
    using f r unfolding GetCallerByCFIFrameInfo_eq by (auto split: if_splits)
  have v: "\<And>j. bit (context_validity f) j =
             bit (context_validity (cfi_candidate (last [ex_frame]) ex_cfi_rules)) j"
    by (simp add: fe)
  have "context_validity f AND RegisterValidFlag 32 \<noteq> 0"
       "context_validity f AND RegisterValidFlag 31 \<noteq> 0"
    unfolding valid_flag_test v cfi_candidate_validity using n by auto
  then show ?thesis using f r n by simp
qed

text \<open>
  Claim C10, as amended. In a frame produced by the CFI strategy, every register
  x19 to x29 for which the CFI result has no value and which is valid in the callee
  frame is valid with the callee's value. A register outside x19 to x29 for which
  the CFI result has no value under its own name remains invalid, except pc, which
  is valid when the CFI result has a value for \<open>.ra\<close>, and sp, which is valid when
  it has one for \<open>.cfa\<close>: such a register is valid exactly when the CFI result
  has a value under its name or, for pc and sp, under \<open>.ra\<close> and \<open>.cfa\<close>.
\<close>

theorem C10_callee_saves:
  assumes regs: "cfi (populate_callee_registers (last frames) [0..<length register_names]
                        Map.empty) mem = Some regs"
      and f: "GetCallerByCFIFrameInfo w mem frames cfi = Some f"
  shows "(\<forall>i. 19 \<le> i \<and> i \<le> 29 \<and> regs (register_names ! i) = None \<and>
              context_validity (last frames) AND RegisterValidFlag i \<noteq> 0 \<longrightarrow>
              context_validity f AND RegisterValidFlag i \<noteq> 0 \<and>
              iregs f i = iregs (last frames) i) \<and>
         (\<forall>i<33. \<not> (19 \<le> i \<and> i \<le> 29) \<longrightarrow>
              (context_validity f AND RegisterValidFlag i \<noteq> 0 \<longleftrightarrow>
                 regs (register_names ! i) \<noteq> None \<or>
                 (i = 32 \<and> regs ''.ra'' \<noteq> None) \<or> (i = 31 \<and> regs ''.cfa'' \<noteq> None)))"
proof -
  have fe: "f = (cfi_candidate (last frames) regs)
                 \<lparr> iregs := (iregs (cfi_candidate (last frames) regs))
                     (MD_CONTEXT_ARM64_REG_PC :=
                        PtrauthStrip w (iregs (cfi_candidate (last frames) regs)
                                          MD_CONTEXT_ARM64_REG_PC)),
                    trust := FRAME_TRUST_CFI \<rparr>"
    using f regs unfolding GetCallerByCFIFrameInfo_eq by (auto split: if_splits)
  have v: "\<And>j. bit (context_validity f) j = bit (context_validity (cfi_candidate (last frames) regs)) j"
    by (simp add: fe)
  show ?thesis
  proof (intro conjI allI impI)
    fix i
    assume a: "19 \<le> i \<and> i \<le> 29 \<and> regs (register_names ! i) = None \<and>
              context_validity (last frames) AND RegisterValidFlag i \<noteq> 0"
    then show "context_validity f AND RegisterValidFlag i \<noteq> 0"
      unfolding valid_flag_test v cfi_candidate_validity by auto
    from a show "iregs f i = iregs (last frames) i"
      unfolding valid_flag_test fe MD_CONTEXT_ARM64_REG_PC_def
      by (auto simp: cfi_candidate_iregs)
  next
    fix i :: nat
    assume "i < 33" "\<not> (19 \<le> i \<and> i \<le> 29)"
    then show "context_validity f AND RegisterValidFlag i \<noteq> 0 \<longleftrightarrow>
                 regs (register_names ! i) \<noteq> None \<or>
                 (i = 32 \<and> regs ''.ra'' \<noteq> None) \<or> (i = 31 \<and> regs ''.cfa'' \<noteq> None)"
      unfolding valid_flag_test v cfi_candidate_validity by auto
  qed
qed

text \<open>
  The example for claim C10: the CFI result does not mention x19, valid in the
  callee, and the caller frame carries it; it does not mention x0, which is not valid
  in the caller frame; the pc, recovered from \<open>.ra\<close>, is valid.
\<close>

theorem C10_callee_saves_witness:
  "GetCallerByCFIFrameInfo (ex_walker (\<lambda>_. Some ex_cfi)) ex_memory [ex_frame] ex_cfi \<noteq> None \<and>
   ex_cfi_rules (register_names ! 19) = None \<and>
   context_validity (last [ex_frame]) AND RegisterValidFlag 19 \<noteq> 0 \<and>
   context_validity
     (the (GetCallerByCFIFrameInfo (ex_walker (\<lambda>_. Some ex_cfi)) ex_memory [ex_frame] ex_cfi))
     AND RegisterValidFlag 19 \<noteq> 0 \<and>
   iregs (the (GetCallerByCFIFrameInfo (ex_walker (\<lambda>_. Some ex_cfi)) ex_memory [ex_frame] ex_cfi))
     19 = 0x1319 \<and>
   ex_cfi_rules (register_names ! 0) = None \<and>
   context_validity
     (the (GetCallerByCFIFrameInfo (ex_walker (\<lambda>_. Some ex_cfi)) ex_memory [ex_frame] ex_cfi))
     AND RegisterValidFlag 0 = 0 \<and>
   context_validity
     (the (GetCallerByCFIFrameInfo (ex_walker (\<lambda>_. Some ex_cfi)) ex_memory [ex_frame] ex_cfi))
     AND RegisterValidFlag 32 \<noteq> 0"
proof -
  let ?w = "ex_walker (\<lambda>_. Some ex_cfi)"
  obtain f where f: "GetCallerByCFIFrameInfo ?w ex_memory [ex_frame] ex_cfi = Some f"
    using ex_by_cfi by blast
  have r: "ex_cfi (populate_callee_registers (last [ex_frame]) [0..<length register_names]
                        Map.empty) ex_memory = Some ex_cfi_rules"
    by (simp add: ex_cfi_def)
  have n: "ex_cfi_rules (register_names ! 19) = None" "ex_cfi_rules (register_names ! 0) = None"
    "ex_cfi_rules ''.ra'' \<noteq> None"
    by (simp_all add: ex_cfi_rules_def register_names_def)
  have v: "context_validity (last [ex_frame]) AND RegisterValidFlag 19 \<noteq> 0"
    by (simp add: valid_flag_test ex_frame_fields)
  note T = C10_callee_saves[OF r f]
  from T n v have a:
    "context_validity f AND RegisterValidFlag 19 \<noteq> 0 \<and> iregs f 19 = iregs (last [ex_frame]) 19"
    by simp
  from T have q: "\<And>i. i < 33 \<Longrightarrow> \<not> (19 \<le> i \<and> i \<le> 29) \<Longrightarrow>
              (context_validity f AND RegisterValidFlag i \<noteq> 0 \<longleftrightarrow>
                 ex_cfi_rules (register_names ! i) \<noteq> None \<or>
                 (i = 32 \<and> ex_cfi_rules ''.ra'' \<noteq> None) \<or>
                 (i = 31 \<and> ex_cfi_rules ''.cfa'' \<noteq> None))"
    by blast
  from q[of 0] n have b: "context_validity f AND RegisterValidFlag 0 = 0" by simp
  from q[of 32] n have c: "context_validity f AND RegisterValidFlag 32 \<noteq> 0" by simp
  show ?thesis using f n v a b c by (simp add: ex_frame_fields)
qed

section \<open>The order of the strategies (claim C2)\<close>

text \<open>
  Claim C2. \<open>StackwalkerARM64::GetCallerFrame\<close> takes the frame of the CFI strategy
  (tried only when the symbolizer finds CFI for the callee frame) if there is one;
  the frame of the frame-pointer strategy only if CFI gave none; the frame of the
  stack scan only if scanning is allowed and both gave none; and no frame when all
  permitted strategies gave none. The frame taken is returned, with its instruction
  set, unless \<open>TerminateWalk\<close> ends the walk. So a returned frame of trust CFI means
  the CFI strategy succeeded, one of trust FP that CFI failed, one of trust SCAN that
  scanning was allowed and both CFI and the frame pointer failed.
\<close>

theorem C2_strategy_order:
  assumes mem: "memory w = Some mem"
      and c: "cfi_try = (case FindCFIFrameInfo w (last frames) of
                           None \<Rightarrow> None
                         | Some cfi \<Rightarrow> GetCallerByCFIFrameInfo w mem frames cfi)"
      and p: "fp_try = GetCallerByFramePointer w mem frames"
      and s: "scan_try = GetCallerByStackScan w (fst fp_try)"
      and r: "result = snd (GetCallerFrame_ARM64 w (Some frames) stack_scan_allowed)"
      and fin: "finish = (\<lambda>frame.
                  if TerminateWalk w (iregs frame MD_CONTEXT_ARM64_REG_PC)
                       (iregs frame MD_CONTEXT_ARM64_REG_SP)
                       (iregs (last frames) MD_CONTEXT_ARM64_REG_SP)
                       (trust (last frames) = FRAME_TRUST_CONTEXT)
                  then None
                  else Some (frame\<lparr>instruction := iregs frame MD_CONTEXT_ARM64_REG_PC - 4\<rparr>))"
  shows "(cfi_try \<noteq> None \<longrightarrow> result = finish (the cfi_try)) \<and>
         (cfi_try = None \<and> snd fp_try \<noteq> None \<longrightarrow> result = finish (the (snd fp_try))) \<and>
         (cfi_try = None \<and> snd fp_try = None \<and> stack_scan_allowed \<and> scan_try \<noteq> None \<longrightarrow>
            result = finish (the scan_try)) \<and>
         (cfi_try = None \<and> snd fp_try = None \<and> (\<not> stack_scan_allowed \<or> scan_try = None) \<longrightarrow>
            result = None) \<and>
         (\<forall>f. result = Some f \<longrightarrow>
            (trust f = FRAME_TRUST_CFI \<and> cfi_try \<noteq> None \<and>
               FindCFIFrameInfo w (last frames) \<noteq> None) \<or>
            (trust f = FRAME_TRUST_FP \<and> cfi_try = None \<and> snd fp_try \<noteq> None) \<or>
            (trust f = FRAME_TRUST_SCAN \<and> stack_scan_allowed \<and> cfi_try = None \<and>
               snd fp_try = None \<and> scan_try \<noteq> None))"
proof -
  note e = GetCallerFrame_ARM64_eq[OF mem, of frames stack_scan_allowed]
  have r': "result =
     (case (if cfi_try \<noteq> None then cfi_try
            else if snd fp_try \<noteq> None then snd fp_try
            else if stack_scan_allowed then scan_try else None) of
        None \<Rightarrow> None | Some frame \<Rightarrow> finish frame)"
    unfolding r e c p s fin Let_def ..
  have t1: "\<And>f0. cfi_try = Some f0 \<Longrightarrow>
              trust f0 = FRAME_TRUST_CFI \<and> FindCFIFrameInfo w (last frames) \<noteq> None"
    unfolding c by (auto split: option.splits dest: ByCFI_trust)
  have t2: "\<And>f0. snd fp_try = Some f0 \<Longrightarrow> trust f0 = FRAME_TRUST_FP"
    unfolding p by (rule ByFP_trust)
  have t3: "\<And>f0. scan_try = Some f0 \<Longrightarrow> trust f0 = FRAME_TRUST_SCAN"
    unfolding s by (rule ByScan_trust)
  have ft: "\<And>f0 f. finish f0 = Some f \<Longrightarrow> trust f = trust f0"
    unfolding fin by (auto split: if_splits)
  show ?thesis
  proof (intro conjI allI impI)
    assume "cfi_try \<noteq> None" then show "result = finish (the cfi_try)"
      unfolding r' by auto
  next
    assume "cfi_try = None \<and> snd fp_try \<noteq> None"
    then show "result = finish (the (snd fp_try))" unfolding r' by auto
  next
    assume "cfi_try = None \<and> snd fp_try = None \<and> stack_scan_allowed \<and> scan_try \<noteq> None"
    then show "result = finish (the scan_try)" unfolding r' by auto
  next
    assume "cfi_try = None \<and> snd fp_try = None \<and> (\<not> stack_scan_allowed \<or> scan_try = None)"
    then show "result = None" unfolding r' by auto
  next
    fix f assume rf: "result = Some f"
    show "(trust f = FRAME_TRUST_CFI \<and> cfi_try \<noteq> None \<and>
               FindCFIFrameInfo w (last frames) \<noteq> None) \<or>
            (trust f = FRAME_TRUST_FP \<and> cfi_try = None \<and> snd fp_try \<noteq> None) \<or>
            (trust f = FRAME_TRUST_SCAN \<and> stack_scan_allowed \<and> cfi_try = None \<and>
               snd fp_try = None \<and> scan_try \<noteq> None)"
    proof (cases cfi_try)
      case (Some f0)
      with rf r' have "finish f0 = Some f" by simp
      with t1[OF Some] ft show ?thesis using Some by auto
    next
      case None
      show ?thesis
      proof (cases "snd fp_try")
        case (Some f0)
        with rf r' None have "finish f0 = Some f" by simp
        with t2[OF Some] ft show ?thesis using Some None by auto
      next
        case fpn: None
        with rf r' None obtain f0 where "stack_scan_allowed" "scan_try = Some f0" "finish f0 = Some f"
          by (auto split: if_splits option.splits)
        with t3 ft show ?thesis using None fpn by auto
      qed
    qed
  qed
qed

text \<open>
  The example stack for claim C2: without CFI the frame comes from the frame
  pointer, with CFI from the CFI.
\<close>

theorem C2_strategy_order_witness:
  "FindCFIFrameInfo (ex_walker (\<lambda>_. None)) (last [ex_frame]) = None \<and>
   snd (GetCallerByFramePointer (ex_walker (\<lambda>_. None)) ex_memory [ex_frame]) \<noteq> None \<and>
   map_option trust
     (snd (GetCallerFrame_ARM64 (ex_walker (\<lambda>_. None)) (Some [ex_frame]) True)) =
     Some FRAME_TRUST_FP \<and>
   FindCFIFrameInfo (ex_walker (\<lambda>_. Some ex_cfi)) (last [ex_frame]) = Some ex_cfi \<and>
   GetCallerByCFIFrameInfo (ex_walker (\<lambda>_. Some ex_cfi)) ex_memory [ex_frame] ex_cfi \<noteq> None \<and>
   map_option trust
     (snd (GetCallerFrame_ARM64 (ex_walker (\<lambda>_. Some ex_cfi)) (Some [ex_frame]) True)) =
     Some FRAME_TRUST_CFI"
proof -
  obtain f where f:
    "snd (GetCallerFrame_ARM64 (ex_walker (\<lambda>_. None)) (Some [ex_frame]) True) = Some f"
    using ex_get_caller_frame_fp by blast
  obtain g where g:
    "snd (GetCallerFrame_ARM64 (ex_walker (\<lambda>_. Some ex_cfi)) (Some [ex_frame]) True) = Some g"
    using ex_get_caller_frame_cfi by blast
  have fp: "snd (GetCallerByFramePointer (ex_walker (\<lambda>_. None)) ex_memory [ex_frame]) \<noteq> None"
    using ex_by_frame_pointer[of "\<lambda>_. None"] by auto
  have cfi: "GetCallerByCFIFrameInfo (ex_walker (\<lambda>_. Some ex_cfi)) ex_memory [ex_frame] ex_cfi
               \<noteq> None"
    using ex_by_cfi[of "\<lambda>_. Some ex_cfi"] by auto
  have "trust f = FRAME_TRUST_FP"
    using C2_strategy_order[OF ex_walker_fields(1)[of "\<lambda>_. None"] refl refl refl refl refl,
            of "[ex_frame]" True] f fp
    by (auto simp: ex_walker_fields)
  moreover have "trust g = FRAME_TRUST_CFI"
    using C2_strategy_order[OF ex_walker_fields(1)[of "\<lambda>_. Some ex_cfi"] refl refl refl refl refl,
            of "[ex_frame]" True] g cfi
    by (auto simp: ex_walker_fields)
  ultimately show ?thesis
    using f g fp cfi by (simp add: ex_walker_fields)
qed

section \<open>Progress of the stack pointer (claims C3 and C9)\<close>

text \<open>
  Claim C3. With \<open>TerminateWalk\<close> as the spec describes it, a frame that the ARM64
  \<open>GetCallerFrame\<close> produces from a callee that is not the context frame has a stack
  pointer strictly above the callee's. Every frame the PPC64 \<open>GetCallerFrame\<close>
  produces has a stack pointer strictly above the callee's, whatever \<open>TerminateWalk\<close>
  does; and if the back chain read at the callee's stack pointer is less than or
  equal to that stack pointer, no frame is produced.
\<close>

theorem C3_sp_increases:
  "(TerminateWalk w = Stackwalker_TerminateWalk \<and>
    trust (last frames) \<noteq> FRAME_TRUST_CONTEXT \<and>
    snd (GetCallerFrame_ARM64 w (Some frames) allow) = Some f \<longrightarrow>
      iregs (last frames) MD_CONTEXT_ARM64_REG_SP < iregs f MD_CONTEXT_ARM64_REG_SP) \<and>
   (GetCallerFrame_PPC64 p (Some pframes) pallow = Some pf \<longrightarrow>
      gpr (last pframes) 1 < gpr pf 1) \<and>
   (memory p = Some pmem \<and> pmem (gpr (last pframes) 1) = Some back_chain \<and>
    back_chain \<le> gpr (last pframes) 1 \<longrightarrow>
      GetCallerFrame_PPC64 p (Some pframes) pallow = None)"
proof (intro conjI impI)
  assume a: "TerminateWalk w = Stackwalker_TerminateWalk \<and>
    trust (last frames) \<noteq> FRAME_TRUST_CONTEXT \<and>
    snd (GetCallerFrame_ARM64 w (Some frames) allow) = Some f"
  then obtain mem where m: "memory w = Some mem"
    by (auto simp: GetCallerFrame_ARM64_def split: option.splits)
  note e = GetCallerFrame_ARM64_eq[OF m, of frames allow]
  from a show "iregs (last frames) MD_CONTEXT_ARM64_REG_SP < iregs f MD_CONTEXT_ARM64_REG_SP"
    unfolding e
    by (auto simp: Let_def Stackwalker_TerminateWalk_def not_le split: option.splits if_splits)
next
  assume "GetCallerFrame_PPC64 p (Some pframes) pallow = Some pf"
  from GetCallerFrame_PPC64_Some[OF this] show "gpr (last pframes) 1 < gpr pf 1" by auto
next
  assume "memory p = Some pmem \<and> pmem (gpr (last pframes) 1) = Some back_chain \<and>
    back_chain \<le> gpr (last pframes) 1"
  then show "GetCallerFrame_PPC64 p (Some pframes) pallow = None"
    by (auto simp: GetCallerFrame_PPC64_def Let_def)
qed

text \<open>
  The examples for claim C3: the ARM64 stack, the PPC64 stack, and a PPC64 stack
  whose back chain (0x80) lies below the stack pointer (0x210).
\<close>

theorem C3_sp_increases_witness:
  "TerminateWalk (ex_walker (\<lambda>_. None)) = Stackwalker_TerminateWalk \<and>
   trust (last [ex_frame]) \<noteq> FRAME_TRUST_CONTEXT \<and>
   snd (GetCallerFrame_ARM64 (ex_walker (\<lambda>_. None)) (Some [ex_frame]) False) \<noteq> None \<and>
   iregs (last [ex_frame]) MD_CONTEXT_ARM64_REG_SP <
     iregs (the (snd (GetCallerFrame_ARM64 (ex_walker (\<lambda>_. None)) (Some [ex_frame]) False)))
       MD_CONTEXT_ARM64_REG_SP \<and>
   GetCallerFrame_PPC64 (ex_walker_ppc64 0x4008) (Some [ex_frame_ppc64]) False \<noteq> None \<and>
   gpr (last [ex_frame_ppc64]) 1 <
     gpr (the (GetCallerFrame_PPC64 (ex_walker_ppc64 0x4008) (Some [ex_frame_ppc64]) False)) 1 \<and>
   memory (ex_walker_ppc64 0x80) = Some [0x100 \<mapsto> 0x200, 0x210 \<mapsto> 0x80] \<and>
   [0x100 \<mapsto> 0x200, 0x210 \<mapsto> 0x80]
     (gpr (last [ex_frame_ppc64\<lparr>gpr := (\<lambda>_. 0)(1 := 0x210)\<rparr>]) 1) = Some (0x80 :: u64) \<and>
   (0x80 :: u64) \<le> gpr (last [ex_frame_ppc64\<lparr>gpr := (\<lambda>_. 0)(1 := 0x210)\<rparr>]) 1 \<and>
   GetCallerFrame_PPC64 (ex_walker_ppc64 0x80)
     (Some [ex_frame_ppc64\<lparr>gpr := (\<lambda>_. 0)(1 := 0x210)\<rparr>]) False = None"
proof -
  obtain f where f:
    "snd (GetCallerFrame_ARM64 (ex_walker (\<lambda>_. None)) (Some [ex_frame]) False) = Some f"
    using ex_get_caller_frame_fp by blast
  obtain g where g:
    "GetCallerFrame_PPC64 (ex_walker_ppc64 0x4008) (Some [ex_frame_ppc64]) False = Some g"
    using ex_get_caller_frame_ppc64 by blast
  have h: "memory (ex_walker_ppc64 0x80) = Some [0x100 \<mapsto> 0x200, 0x210 \<mapsto> 0x80] \<and>
     [0x100 \<mapsto> 0x200, 0x210 \<mapsto> 0x80]
       (gpr (last [ex_frame_ppc64\<lparr>gpr := (\<lambda>_. 0)(1 := 0x210)\<rparr>]) 1) = Some (0x80 :: u64) \<and>
     (0x80 :: u64) \<le> gpr (last [ex_frame_ppc64\<lparr>gpr := (\<lambda>_. 0)(1 := 0x210)\<rparr>]) 1"
    by (simp add: ex_walker_ppc64_def)
  have t: "trust (last [ex_frame]) \<noteq> FRAME_TRUST_CONTEXT" by (simp add: ex_frame_fields)
  note T = C3_sp_increases[of "ex_walker (\<lambda>_. None)" "[ex_frame]" False f
      "ex_walker_ppc64 0x4008" "[ex_frame_ppc64]" False g]
  note U = C3_sp_increases[of _ _ _ _ "ex_walker_ppc64 0x80"
      "[ex_frame_ppc64\<lparr>gpr := (\<lambda>_. 0)(1 := 0x210)\<rparr>]" False _
      "[0x100 \<mapsto> 0x200, 0x210 \<mapsto> 0x80]" "0x80"]
  from T f g t have
    "iregs (last [ex_frame]) MD_CONTEXT_ARM64_REG_SP < iregs f MD_CONTEXT_ARM64_REG_SP"
    "gpr (last [ex_frame_ppc64]) 1 < gpr g 1"
    by (simp_all add: ex_walker_fields)
  moreover from U h have "GetCallerFrame_PPC64 (ex_walker_ppc64 0x80)
     (Some [ex_frame_ppc64\<lparr>gpr := (\<lambda>_. 0)(1 := 0x210)\<rparr>]) False = None"
    by blast
  ultimately show ?thesis using f g h t by (simp add: ex_walker_fields)
qed

text \<open>
  Claim C9. On PPC64, when the back chain and the return address are read
  successfully and the return address (at the loaded stack pointer plus 16) is 0 or
  1, \<open>GetCallerFrame\<close> produces no frame.
\<close>

theorem C9_ppc64_sentinels:
  assumes "memory p = Some mem"
      and "mem (gpr (last frames) 1) = Some stack_pointer"
      and "mem (stack_pointer + 16) = Some return_address"
      and "return_address = 0 \<or> return_address = 1"
  shows "GetCallerFrame_PPC64 p (Some frames) allow = None"
  using assms by (auto simp: GetCallerFrame_PPC64_def Let_def)

text \<open>
  The example for claim C9: the return address read at 0x210 is 1.
\<close>

theorem C9_ppc64_sentinels_witness:
  "memory (ex_walker_ppc64 1) = Some [0x100 \<mapsto> 0x200, 0x210 \<mapsto> 1] \<and>
   [0x100 \<mapsto> 0x200, 0x210 \<mapsto> 1] (gpr (last [ex_frame_ppc64]) 1) = Some (0x200 :: u64) \<and>
   [0x100 \<mapsto> 0x200, 0x210 \<mapsto> 1] (0x200 + 16 :: u64) = Some (1 :: u64) \<and>
   GetCallerFrame_PPC64 (ex_walker_ppc64 1) (Some [ex_frame_ppc64]) False = None"
proof -
  have h1: "memory (ex_walker_ppc64 1) = Some [0x100 \<mapsto> 0x200, 0x210 \<mapsto> 1]"
    by (simp add: ex_walker_ppc64_def)
  have h2: "[0x100 \<mapsto> 0x200, 0x210 \<mapsto> 1] (gpr (last [ex_frame_ppc64]) 1) = Some (0x200 :: u64)"
    by (simp add: ex_frame_ppc64_def)
  have h3: "[0x100 \<mapsto> 0x200, 0x210 \<mapsto> 1] (0x200 + 16 :: u64) = Some (1 :: u64)"
    by simp
  have h4: "(1 :: u64) = 0 \<or> (1 :: u64) = 1" by simp
  from C9_ppc64_sentinels[OF h1 h2 h3 h4] h1 h2 h3 show ?thesis by blast
qed

section \<open>The instruction of a caller frame (claim C5)\<close>

text \<open>
  Claim C5. A frame produced by \<open>GetCallerFrame\<close> is never a context frame, and its
  instruction is the recovered return address less the size of a call: the pc less 4
  on ARM64, srr0 less 8 on PPC64 (in 64-bit arithmetic).
\<close>

theorem C5_pre_call_instruction:
  "(snd (GetCallerFrame_ARM64 w stack allow) = Some f \<longrightarrow>
      instruction f = iregs f MD_CONTEXT_ARM64_REG_PC - 4 \<and>
      trust f \<noteq> FRAME_TRUST_CONTEXT) \<and>
   (GetCallerFrame_PPC64 p pstack pallow = Some pf \<longrightarrow>
      instruction pf = srr0 pf - 8 \<and> trust pf \<noteq> FRAME_TRUST_CONTEXT)"
proof (rule conjI; rule impI)
  assume r: "snd (GetCallerFrame_ARM64 w stack allow) = Some f"
  then obtain mem frames where m: "memory w = Some mem" and st: "stack = Some frames"
    by (auto simp: GetCallerFrame_ARM64_def split: option.splits)
  note e = GetCallerFrame_ARM64_eq[OF m, of frames allow]
  from r have i: "instruction f = iregs f MD_CONTEXT_ARM64_REG_PC - 4"
    unfolding st e by (auto simp: Let_def split: option.splits if_splits)
  from r have "trust f \<noteq> FRAME_TRUST_CONTEXT"
    unfolding st e
    by (auto simp: Let_def split: option.splits if_splits
          dest!: ByFP_trust ByScan_trust ByCFI_trust)
  with i show "instruction f = iregs f MD_CONTEXT_ARM64_REG_PC - 4 \<and>
      trust f \<noteq> FRAME_TRUST_CONTEXT" ..
next
  assume "GetCallerFrame_PPC64 p pstack pallow = Some pf"
  from GetCallerFrame_PPC64_Some[OF this]
  show "instruction pf = srr0 pf - 8 \<and> trust pf \<noteq> FRAME_TRUST_CONTEXT" by auto
qed

text \<open>
  The examples for claim C5: return address 0x5008 on ARM64, 0x4008 on PPC64.
\<close>

theorem C5_pre_call_instruction_witness:
  "snd (GetCallerFrame_ARM64 (ex_walker (\<lambda>_. None)) (Some [ex_frame]) False) \<noteq> None \<and>
   instruction (the (snd (GetCallerFrame_ARM64 (ex_walker (\<lambda>_. None)) (Some [ex_frame]) False))) =
     iregs (the (snd (GetCallerFrame_ARM64 (ex_walker (\<lambda>_. None)) (Some [ex_frame]) False)))
       MD_CONTEXT_ARM64_REG_PC - 4 \<and>
   iregs (the (snd (GetCallerFrame_ARM64 (ex_walker (\<lambda>_. None)) (Some [ex_frame]) False)))
       MD_CONTEXT_ARM64_REG_PC = 0x5008 \<and>
   GetCallerFrame_PPC64 (ex_walker_ppc64 0x4008) (Some [ex_frame_ppc64]) False \<noteq> None \<and>
   instruction (the (GetCallerFrame_PPC64 (ex_walker_ppc64 0x4008) (Some [ex_frame_ppc64]) False)) =
     srr0 (the (GetCallerFrame_PPC64 (ex_walker_ppc64 0x4008) (Some [ex_frame_ppc64]) False)) - 8 \<and>
   srr0 (the (GetCallerFrame_PPC64 (ex_walker_ppc64 0x4008) (Some [ex_frame_ppc64]) False)) =
     0x4008"
proof -
  obtain f where f:
    "snd (GetCallerFrame_ARM64 (ex_walker (\<lambda>_. None)) (Some [ex_frame]) False) = Some f"
    "iregs f MD_CONTEXT_ARM64_REG_PC = 0x5008"
    using ex_get_caller_frame_fp by blast
  obtain g where g:
    "GetCallerFrame_PPC64 (ex_walker_ppc64 0x4008) (Some [ex_frame_ppc64]) False = Some g"
    "srr0 g = 0x4008"
    using ex_get_caller_frame_ppc64 by blast
  from C5_pre_call_instruction[of "ex_walker (\<lambda>_. None)" "Some [ex_frame]" False f
      "ex_walker_ppc64 0x4008" "Some [ex_frame_ppc64]" False g] f g
  have "instruction f = iregs f MD_CONTEXT_ARM64_REG_PC - 4" "instruction g = srr0 g - 8"
    by simp_all
  then show ?thesis using f g by simp
qed

section \<open>Facts about the function/line pairing\<close>


lemma cited_simps [simp]:
  "cited_functions [] = []" "cited_lines [] = []"
  "cited_functions (xs @ ys) = cited_functions xs @ cited_functions ys"
  "cited_lines (xs @ ys) = cited_lines xs @ cited_lines ys"
  "cited_functions [Attach i l] = []" "cited_lines [Attach i l] = []"
  "cited_functions (cite_function i s) = (if last_function_cited s \<noteq> Some i then [i] else [])"
  "cited_lines (cite_function i s) = []"
  "cited_functions (fst (cite_line j l s)) = []"
  "cited_lines (fst (cite_line j l s)) =
     (if last_line_cited s \<noteq> Some j \<and> \<not> padding j l s then [j] else [])"
  by (simp_all add: cited_functions_def cited_lines_def cite_function_def cite_line_def)


lemma advance_tl:
  "funcs (advance n s) = funcs s \<or> funcs (advance n s) = tl (funcs s)"
  "lines (advance n s) = lines s \<or> lines (advance n s) = tl (lines s)"
  by (auto simp: advance_def split: list.splits)


































lemmas pairing_eval =
  FuncLinePairing_def start_def sweep.simps step_def advance_def cite_function_def cite_line_def
  padding_def fn_end_def ln_end_def reported_def attached_def enumerate_eq_zip
  DefineFunction_def PushLine_def Let_def

lemma WarnOnceFunc:
  "FuncLinePairing True [DefineFunction ''function'' 10 11]
     [PushLine 20 1 ''line-file-2'' 262951329, PushLine 11 1 ''line-file-1'' 219964021] =
   ([\<lparr>fn_name = ''function'', fn_address = 10, fn_size = 11,
      fn_lines = [PushLine 11 1 ''line-file-1'' 219964021,
                  PushLine 20 1 ''line-file-2'' 262951329]\<rparr>],
    [UncoveredFunction 0])"
  by (simp add: pairing_eval)

lemma WarnOnceLine:
  "FuncLinePairing True [DefineFunction ''function1'' 11 1, DefineFunction ''function2'' 13 1]
     [PushLine 10 20 ''filename1'' 118581871] =
   ([\<lparr>fn_name = ''function1'', fn_address = 11, fn_size = 1,
      fn_lines = [PushLine 11 1 ''filename1'' 118581871]\<rparr>,
     \<lparr>fn_name = ''function2'', fn_address = 13, fn_size = 1,
      fn_lines = [PushLine 13 1 ''filename1'' 118581871]\<rparr>],
    [UncoveredLine 0])"
  by (simp add: pairing_eval)


text \<open>
  Two functions that overlap, from 10 to 20 and from 12 to 25, with lines from 10 to
  12 and from 20 to 25: no line covers the second function from 12 to 20, and yet
  only the first function is reported. The sweep passes from the end of one function
  to the next function in the sequence; it is made for functions that do not overlap.
\<close>

lemma OverlappingFunctions:
  "FuncLinePairing True [DefineFunction ''function1'' 10 10, DefineFunction ''function2'' 12 13]
     [PushLine 10 2 ''line-file'' 1, PushLine 20 5 ''line-file'' 2] =
   ([\<lparr>fn_name = ''function1'', fn_address = 10, fn_size = 10,
      fn_lines = [PushLine 10 2 ''line-file'' 1]\<rparr>,
     \<lparr>fn_name = ''function2'', fn_address = 12, fn_size = 13,
      fn_lines = [PushLine 20 5 ''line-file'' 2]\<rparr>],
    [UncoveredFunction 0])"
  by (simp add: pairing_eval)

lemma UnusedLineBeforeFunction:
  "FuncLinePairing True [DefineFunction ''function2'' 20 10]
     [PushLine 10 10 ''line-file'' 63351048, PushLine 20 10 ''line-file'' 61661044] =
   ([\<lparr>fn_name = ''function2'', fn_address = 20, fn_size = 10,
      fn_lines = [PushLine 20 10 ''line-file'' 61661044]\<rparr>],
    [UncoveredLine 0])"
  by (simp add: pairing_eval)

section \<open>Reporting uncovered functions and lines once (claim C8)\<close>




section \<open>Facts about the symbol resolver\<close>

subsection \<open>Trees and their flat form\<close>

lemma set_flatten_store:
  "set (flatten (tree_store k v t)) \<subseteq> insert (k, v) (set (flatten t))"
  by (induction t) auto

lemma ordered_store: "ordered t \<Longrightarrow> ordered (tree_store k v t)"
proof (induction t)
  case Tip
  then show ?case by simp
next
  case (Fork l k' v' r)
  have "fst e < k'" if "e \<in> set (flatten (tree_store k v l))" "k < k'" for e
    using that set_flatten_store[of k v l] Fork.prems by auto
  moreover have "k' < fst e" if "e \<in> set (flatten (tree_store k v r))" "k' < k" for e
    using that set_flatten_store[of k v r] Fork.prems by auto
  ultimately show ?case using Fork by auto
qed

lemma flat_nearest_append:
  "flat_nearest (xs @ ys) a =
     (case flat_nearest ys a of Some e \<Rightarrow> Some e | None \<Rightarrow> flat_nearest xs a)"
  by (simp add: flat_nearest_def Let_def)

lemma flat_nearest_Cons:
  "flat_nearest (e # ys) a =
     (case flat_nearest ys a of Some e' \<Rightarrow> Some e'
      | None \<Rightarrow> if fst e \<le> a then Some e else None)"
  by (simp add: flat_nearest_def Let_def)

lemma flat_nearest_none: "\<forall>e\<in>set xs. a < fst e \<Longrightarrow> flat_nearest xs a = None"
  by (auto simp: flat_nearest_def Let_def filter_empty_conv)

lemma flat_nearest_flatten:
  "ordered t \<Longrightarrow> flat_nearest (flatten t) a = tree_nearest t a"
proof (induction t)
  case Tip
  then show ?case by (simp add: flat_nearest_def)
next
  case (Fork l k v r)
  show ?case
  proof (cases "a < k")
    case True
    then have "flat_nearest (flatten r) a = None"
      using Fork.prems by (intro flat_nearest_none) auto
    then show ?thesis using True Fork
      by (simp add: flat_nearest_append flat_nearest_Cons)
  next
    case False
    then show ?thesis using Fork
      by (simp add: flat_nearest_append flat_nearest_Cons split: option.splits)
  qed
qed

lemma find_over_append:
  "find P (xs @ ys) = (case find P xs of Some x \<Rightarrow> Some x | None \<Rightarrow> find P ys)"
  by (induction xs) auto

lemma flat_find_flatten:
  "ordered t \<Longrightarrow> flat_find (flatten t) k = tree_find t k"
proof (induction t)
  case Tip
  then show ?case by (simp add: flat_find_def)
next
  case (Fork l k' v' r)
  have nl: "k' \<le> k \<Longrightarrow> find (\<lambda>e. fst e = k) (flatten l) = None"
    using Fork.prems by (auto simp: find_None_iff)
  have nr: "k < k' \<Longrightarrow> find (\<lambda>e. fst e = k) (flatten r) = None"
    using Fork.prems by (auto simp: find_None_iff)
  show ?case using Fork nl nr
    by (auto simp: flat_find_def find_over_append split: option.splits)
qed

lemma flat_between_flatten:
  "ordered t \<Longrightarrow> flat_between (flatten t) lo hi = tree_between t lo hi"
proof (induction t)
  case Tip
  then show ?case by (simp add: flat_between_def)
next
  case (Fork l k v r)
  have l: "\<not> lo < k \<Longrightarrow> flat_between (flatten l) lo hi = []"
    using Fork.prems by (auto simp: flat_between_def filter_empty_conv)
  have r: "\<not> k < hi \<Longrightarrow> flat_between (flatten r) lo hi = []"
    using Fork.prems by (auto simp: flat_between_def filter_empty_conv)
  have "flat_between (flatten (Fork l k v r)) lo hi =
      flat_between (flatten l) lo hi @ (if lo \<le> k \<and> k \<le> hi then [(k, v)] else []) @
      flat_between (flatten r) lo hi"
    by (simp add: flat_between_def)
  then show ?case using Fork l r by auto
qed

lemma tree_nearest_in: "tree_nearest t a = Some e \<Longrightarrow> e \<in> set (flatten t)"
  by (induction t arbitrary: e) (auto split: if_splits option.splits)

lemma flat_nearest_map:
  "flat_nearest (map (\<lambda>e. (fst e, g (snd e))) xs) a =
     map_option (\<lambda>e. (fst e, g (snd e))) (flat_nearest xs a)"
  by (simp add: flat_nearest_def Let_def filter_map comp_def last_map)


subsection \<open>The parser keeps its collections ordered\<close>

lemma parse_ordered_begin: "parse_ordered begin_parse"
  by (simp add: parse_ordered_def module_ordered_def begin_parse_def empty_module_def)

lemma parse_ordered_end_function: "parse_ordered p \<Longrightarrow> parse_ordered (end_function p)"
proof (cases "cur_func p")
  case None
  assume "parse_ordered p"
  then show ?thesis using None by (simp add: end_function_def)
next
  case (Some f)
  assume p: "parse_ordered p"
  have "ordered (fu_lines (snd e))"
    if "e \<in> set (flatten (tree_store (fu_address f) f (bm_functions (loaded p))))" for e
    using that set_flatten_store[of "fu_address f" f "bm_functions (loaded p)"] p Some
    by (auto simp: parse_ordered_def module_ordered_def)
  then show ?thesis using p Some
    by (simp add: end_function_def parse_ordered_def module_ordered_def ordered_store)
qed

lemma parse_ordered_store_record:
  "parse_ordered p \<Longrightarrow> store_record r p = Some p' \<Longrightarrow> parse_ordered p'"
  by (cases r)
     (auto simp: parse_ordered_def module_ordered_def ordered_store
           split: if_splits option.splits)

lemma parse_ordered_flag: "parse_ordered p \<Longrightarrow> parse_ordered (flag_corrupt p)"
  by (simp add: parse_ordered_def module_ordered_def flag_corrupt_def)

lemma parse_ordered_at_start: "parse_ordered p \<Longrightarrow> parse_ordered (p\<lparr>at_start := b\<rparr>)"
  by (simp add: parse_ordered_def)

lemma parse_ordered_enclosing: "parse_ordered p \<Longrightarrow> parse_ordered (enclosing p l)"
  by (simp add: enclosing_def parse_ordered_end_function)

lemma parse_ordered_line:
  assumes "parse_ordered p"
  shows "parse_ordered (parse_line p l)"
proof (cases "Option.bind (parse_record l) (\<lambda>r. store_record r (enclosing p l))")
  case None
  then show ?thesis
    using assms by (simp add: parse_line_def parse_ordered_flag parse_ordered_enclosing)
next
  case (Some p')
  then obtain r where "store_record r (enclosing p l) = Some p'"
    by (auto simp: bind_eq_Some_conv)
  then have "parse_ordered (p'\<lparr>at_start := False\<rparr>)"
    using parse_ordered_store_record[OF parse_ordered_enclosing[OF assms]]
    by (simp add: parse_ordered_at_start)
  then show ?thesis using Some by (simp add: parse_line_def)
qed

lemma parse_ordered_lines: "parse_ordered p \<Longrightarrow> parse_ordered (foldl parse_line p ls)"
  by (induction ls arbitrary: p) (simp_all add: parse_ordered_line)

lemma module_ordered_parse: "module_ordered (parse_symbol_lines ls)"
  using parse_ordered_end_function[OF parse_ordered_lines[OF parse_ordered_begin, of ls]]
  by (simp add: parse_symbol_lines_def parse_ordered_def)

subsection \<open>The flat form answers as the tree form\<close>

lemma function_info_serialize [simp]:
  "function_info first (serialize_function f) frame = function_info first f frame"
  by (simp add: function_info_def serialize_function_def)

lemma public_info_serialize [simp]:
  "public_info (map_option (\<lambda>e. (fst e, serialize_function (snd e))) found) s frame =
     public_info found s frame"
  by (cases found) (auto simp: public_info_def split: option.splits prod.splits)

lemma within_serialize:
  "within fu_size a (map_option (\<lambda>e. (fst e, serialize_function (snd e))) found) =
     map_option (\<lambda>e. (fst e, serialize_function (snd e))) (within fu_size a found)"
  by (cases found) (auto simp: within_def serialize_function_def)

lemma within_in: "within sz a found = Some e \<Longrightarrow> found = Some e"
  by (auto simp: within_def split: option.splits prod.splits if_splits)

lemma LookupAddress_Serialize:
  assumes "module_ordered m"
  shows "FastModule_LookupAddress (Serialize m) a frame = BasicModule_LookupAddress m a frame"
proof -
  have files: "flat_find (flatten (bm_files m)) = tree_find (bm_files m)"
    and origins: "flat_find (flatten (bm_inline_origins m)) = tree_find (bm_inline_origins m)"
    using assms by (auto simp: module_ordered_def flat_find_flatten)
  have funcs: "flat_nearest (fm_functions (Serialize m)) a =
      map_option (\<lambda>e. (fst e, serialize_function (snd e))) (tree_nearest (bm_functions m) a)"
    using assms by (simp add: Serialize_def flat_nearest_map flat_nearest_flatten module_ordered_def)
  have publics: "flat_nearest (fm_public_symbols (Serialize m)) a =
      tree_nearest (bm_public_symbols m) a"
    using assms by (simp add: Serialize_def flat_nearest_flatten module_ordered_def)
  show ?thesis
  proof (cases "within fu_size a (tree_nearest (bm_functions m) a)")
    case None
    then show ?thesis
      by (simp add: FastModule_LookupAddress_def BasicModule_LookupAddress_def funcs publics
            within_serialize)
  next
    case (Some e)
    obtain first f where e: "e = (first, f)" by (cases e)
    have "(first, f) \<in> set (flatten (bm_functions m))"
      using within_in[OF Some] e by (auto intro: tree_nearest_in)
    then have "ordered (fu_lines f)"
      using assms by (auto simp: module_ordered_def)
    then have lines: "flat_nearest (fu_lines (serialize_function f)) a = tree_nearest (fu_lines f) a"
      by (simp add: serialize_function_def flat_nearest_flatten)
    have inl: "fu_inlines (serialize_function f) = fu_inlines f"
      by (simp add: serialize_function_def)
    show ?thesis
      using Some e
      by (simp add: FastModule_LookupAddress_def BasicModule_LookupAddress_def funcs
            within_serialize lines inl)
         (simp add: Serialize_def files origins)
  qed
qed

lemma FindWindowsFrameInfo_Serialize:
  "module_ordered m \<Longrightarrow>
   FastModule_FindWindowsFrameInfo (Serialize m) a = BasicModule_FindWindowsFrameInfo m a"
  by (simp add: FastModule_FindWindowsFrameInfo_def BasicModule_FindWindowsFrameInfo_def
        Serialize_def flat_nearest_flatten module_ordered_def)

lemma FindCFIFrameInfo_Serialize:
  "module_ordered m \<Longrightarrow>
   FastModule_FindCFIFrameInfo (Serialize m) a = BasicModule_FindCFIFrameInfo m a"
  by (auto simp: FastModule_FindCFIFrameInfo_def BasicModule_FindCFIFrameInfo_def
        Serialize_def flat_nearest_flatten flat_between_flatten module_ordered_def
        split: option.splits)

subsection \<open>Lines that give no record\<close>

lemma clear_flag [simp]: "clear (flag_corrupt p) = clear p"
  by (simp add: clear_def flag_corrupt_def)

lemma cur_func_clear [simp]: "cur_func (clear p) = cur_func p"
  by (simp add: clear_def)

lemma clear_idem [simp]: "clear (clear p) = clear p"
  by (simp add: clear_def)

lemma cur_func_flag [simp]: "cur_func (flag_corrupt p) = cur_func p"
  by (simp add: flag_corrupt_def)

lemma end_function_clear: "end_function (clear p) = clear (end_function p)"
  by (cases "cur_func p") (simp_all add: end_function_def clear_def)

lemma store_record_clear:
  "store_record r (clear p) = map_option clear (store_record r p)"
  by (cases r) (auto simp: clear_def split: option.splits)

lemma at_start_clear: "(clear p)\<lparr>at_start := b\<rparr> = clear (p\<lparr>at_start := b\<rparr>)"
  by (simp add: clear_def)

lemma enclosing_clear: "enclosing (clear p) l = clear (enclosing p l)"
  by (simp add: enclosing_def end_function_clear)

lemma bind_store_clear:
  "Option.bind (parse_record l) (\<lambda>r. store_record r (enclosing (clear p) l)) =
     map_option clear (Option.bind (parse_record l) (\<lambda>r. store_record r (enclosing p l)))"
  by (cases "parse_record l") (simp_all add: enclosing_clear store_record_clear)

lemma parse_line_clear: "clear (parse_line (clear p) l) = clear (parse_line p l)"
  unfolding parse_line_def bind_store_clear
  by (cases "Option.bind (parse_record l) (\<lambda>r. store_record r (enclosing p l))")
     (simp_all add: enclosing_clear at_start_clear) 

lemma accepted_clear: "accepted (clear p) l = accepted p l"
  unfolding accepted_def bind_store_clear
  by (cases "Option.bind (parse_record l) (\<lambda>r. store_record r (enclosing p l))") simp_all

lemma parse_line_cong:
  "clear p = clear p' \<Longrightarrow> clear (parse_line p l) = clear (parse_line p' l)"
  by (metis parse_line_clear)

lemma accepted_cong: "clear p = clear p' \<Longrightarrow> accepted p l = accepted p' l"
  by (metis accepted_clear)

lemma end_function_cong:
  "clear p = clear p' \<Longrightarrow> clear (end_function p) = clear (end_function p')"
  by (metis end_function_clear)

lemma end_function_idle: "cur_func p = None \<Longrightarrow> end_function p = p"
  by (simp add: end_function_def)

lemma cur_func_end_function [simp]: "cur_func (end_function p) = None"
  by (cases "cur_func p") (simp_all add: end_function_def)

lemma follows_end: "follows p p' \<Longrightarrow> clear (end_function p) = clear (end_function p')"
  by (auto simp: follows_def end_function_idle intro: end_function_cong)

lemma follows_enclosing: "follows p p' \<Longrightarrow> follows (enclosing p l) p'"
  unfolding enclosing_def
  by (auto simp: follows_def end_function_idle dest: end_function_cong)

lemma follows_rejected:
  assumes "follows p p'" and "\<not> accepted p l"
  shows "follows (parse_line p l) p'"
proof -
  have "parse_line p l = flag_corrupt (enclosing p l)"
    using assms(2) by (auto simp: accepted_def parse_line_def split: option.splits)
  then show ?thesis
    using follows_enclosing[OF assms(1), of l] by (simp add: follows_def)
qed

lemma body_needs_function:
  "\<not> is_top_level r \<Longrightarrow> cur_func p = None \<Longrightarrow> store_record r p = None"
  by (cases r) (simp_all add: is_top_level_def)

lemma enclosing_top:
  "parse_record l = Some r \<Longrightarrow> is_top_level r \<Longrightarrow> enclosing p l = end_function p"
  by (simp add: enclosing_def)

lemma enclosing_body:
  "parse_record l = Some r \<Longrightarrow> \<not> is_top_level r \<Longrightarrow> enclosing p l = p"
  by (simp add: enclosing_def)

lemma follows_accepted:
  assumes "follows p p'" and "accepted p l"
  shows "accepted p' l \<and> clear (parse_line p l) = clear (parse_line p' l)"
proof -
  obtain r q where r: "parse_record l = Some r" and q: "store_record r (enclosing p l) = Some q"
    using assms(2) by (auto simp: accepted_def bind_eq_Some_conv split: option.splits)
  have "clear (enclosing p l) = clear (enclosing p' l)"
  proof (cases "is_top_level r")
    case True
    then show ?thesis
      using follows_end[OF assms(1)] r by (simp add: enclosing_top)
  next
    case False
    then have "cur_func p \<noteq> None"
      using body_needs_function[of r p] q r by (auto simp: enclosing_body)
    then show ?thesis
      using assms(1) False r by (auto simp: follows_def enclosing_body)
  qed
  then have "map_option clear (store_record r (enclosing p' l)) = Some (clear q)"
    using q store_record_clear[of r "enclosing p l"] store_record_clear[of r "enclosing p' l"]
    by simp
  then obtain q' where q': "store_record r (enclosing p' l) = Some q'" and "clear q' = clear q"
    by auto
  then show ?thesis
    using r q by (simp add: parse_line_def accepted_def at_start_clear[symmetric])
qed

lemma follows_lines:
  "follows p p' \<Longrightarrow>
   follows (foldl parse_line p ls) (foldl parse_line p' (accepted_lines p ls))"
proof (induction ls arbitrary: p p')
  case Nil
  then show ?case by simp
next
  case (Cons l ls)
  show ?case
  proof (cases "accepted p l")
    case True
    have "follows (parse_line p l) (parse_line p' l)"
      using follows_accepted[OF Cons.prems True] by (simp add: follows_def)
    then show ?thesis using True Cons.IH by simp
  next
    case False
    then show ?thesis using Cons.IH[OF follows_rejected[OF Cons.prems False]] by simp
  qed
qed

lemma parse_accepted_lines:
  "(parse_symbol_lines ls)\<lparr>bm_is_corrupt := False\<rparr> =
     (parse_symbol_lines (accepted_lines begin_parse ls))\<lparr>bm_is_corrupt := False\<rparr>"
proof -
  have "follows begin_parse begin_parse" by (simp add: follows_def)
  from follows_end[OF follows_lines[OF this, of ls]]
  have "loaded (clear (end_function (foldl parse_line begin_parse ls))) =
      loaded (clear (end_function (foldl parse_line begin_parse (accepted_lines begin_parse ls))))"
    by simp
  then show ?thesis by (simp add: parse_symbol_lines_def clear_def)
qed

subsection \<open>The corrupt flag\<close>

lemma corrupt_end_function [simp]:
  "bm_is_corrupt (loaded (end_function p)) = bm_is_corrupt (loaded p)"
  by (cases "cur_func p") (simp_all add: end_function_def)

lemma corrupt_store_record:
  "store_record r p = Some p' \<Longrightarrow> bm_is_corrupt (loaded p') = bm_is_corrupt (loaded p)"
  by (cases r) (auto split: if_splits option.splits)

lemma corrupt_enclosing [simp]:
  "bm_is_corrupt (loaded (enclosing p l)) = bm_is_corrupt (loaded p)"
  by (simp add: enclosing_def)

lemma corrupt_parse_line:
  "bm_is_corrupt (loaded (parse_line p l)) \<longleftrightarrow> bm_is_corrupt (loaded p) \<or> \<not> accepted p l"
  by (auto simp: parse_line_def accepted_def flag_corrupt_def bind_eq_Some_conv
        split: option.splits dest: corrupt_store_record)

lemma corrupt_kept:
  "bm_is_corrupt (loaded p) \<Longrightarrow> bm_is_corrupt (loaded (foldl parse_line p ls))"
  by (induction ls arbitrary: p) (simp_all add: corrupt_parse_line)

lemma malformed_rejected: "parse_record l = None \<Longrightarrow> \<not> accepted p l"
  by (simp add: accepted_def)

lemma corrupt_malformed:
  "l \<in> set ls \<Longrightarrow> parse_record l = None \<Longrightarrow> bm_is_corrupt (loaded (foldl parse_line p ls))"
proof (induction ls arbitrary: p)
  case Nil
  then show ?case by simp
next
  case (Cons x xs)
  show ?case
  proof (cases "x = l")
    case True
    then have "bm_is_corrupt (loaded (parse_line p x))"
      using Cons.prems(2) by (simp add: corrupt_parse_line malformed_rejected)
    then show ?thesis by (simp add: corrupt_kept)
  next
    case False
    then show ?thesis using Cons by simp
  qed
qed

lemma accepted_lines_clean:
  "follows p p' \<Longrightarrow>
   bm_is_corrupt (loaded (foldl parse_line p' (accepted_lines p ls))) = bm_is_corrupt (loaded p')"
proof (induction ls arbitrary: p p')
  case Nil
  then show ?case by simp
next
  case (Cons l ls)
  show ?case
  proof (cases "accepted p l")
    case True
    have a: "accepted p' l" and "follows (parse_line p l) (parse_line p' l)"
      using follows_accepted[OF Cons.prems True] by (simp_all add: follows_def)
    then show ?thesis using True Cons.IH[of "parse_line p l" "parse_line p' l"]
      by (simp add: corrupt_parse_line)
  next
    case False
    then show ?thesis using Cons.IH[OF follows_rejected[OF Cons.prems False]] by simp
  qed
qed

lemma accepted_lines_not_corrupt:
  "\<not> bm_is_corrupt (parse_symbol_lines (accepted_lines begin_parse ls))"
proof -
  have "follows begin_parse begin_parse" by (simp add: follows_def)
  from accepted_lines_clean[OF this, of ls] show ?thesis
    by (simp add: parse_symbol_lines_def) (simp add: begin_parse_def empty_module_def)
qed

subsection \<open>Loading and querying\<close>

lemma LoadMapFromMemory_ordered: "module_ordered (LoadMapFromMemory text)"
  by (simp add: LoadMapFromMemory_def module_ordered_parse)

lemma LoadMapFromMemory_portion:
  "(LoadMapFromMemory text)\<lparr>bm_is_corrupt := False\<rparr> =
     (parse_symbol_lines (parsed_portion text))\<lparr>bm_is_corrupt := False\<rparr>"
  unfolding LoadMapFromMemory_def parsed_portion_def by (rule parse_accepted_lines)

lemma LoadMapFromMemory_corrupt:
  "l \<in> set (symbol_lines text) \<Longrightarrow> parse_record l = None \<Longrightarrow>
   bm_is_corrupt (LoadMapFromMemory text)"
  by (simp add: LoadMapFromMemory_def parse_symbol_lines_def corrupt_malformed)

lemma LookupAddress_flag:
  "BasicModule_LookupAddress (m\<lparr>bm_is_corrupt := c\<rparr>) = BasicModule_LookupAddress m"
  by (intro ext) (simp add: BasicModule_LookupAddress_def split: option.splits prod.splits)

lemma FindWindowsFrameInfo_flag:
  "BasicModule_FindWindowsFrameInfo (m\<lparr>bm_is_corrupt := c\<rparr>) = BasicModule_FindWindowsFrameInfo m"
  by (intro ext) (simp add: BasicModule_FindWindowsFrameInfo_def)

lemma FindCFIFrameInfo_flag:
  "BasicModule_FindCFIFrameInfo (m\<lparr>bm_is_corrupt := c\<rparr>) = BasicModule_FindCFIFrameInfo m"
  by (intro ext) (simp add: BasicModule_FindCFIFrameInfo_def split: option.splits prod.splits)

lemma queries_of_portion:
  "BasicModule_LookupAddress (LoadMapFromMemory text) =
     BasicModule_LookupAddress (parse_symbol_lines (parsed_portion text))"
  "BasicModule_FindWindowsFrameInfo (LoadMapFromMemory text) =
     BasicModule_FindWindowsFrameInfo (parse_symbol_lines (parsed_portion text))"
  "BasicModule_FindCFIFrameInfo (LoadMapFromMemory text) =
     BasicModule_FindCFIFrameInfo (parse_symbol_lines (parsed_portion text))"
proof -
  let ?m = "LoadMapFromMemory text" and ?p = "parse_symbol_lines (parsed_portion text)"
  have e: "?m\<lparr>bm_is_corrupt := False\<rparr> = ?p\<lparr>bm_is_corrupt := False\<rparr>"
    by (rule LoadMapFromMemory_portion)
  show "BasicModule_LookupAddress ?m = BasicModule_LookupAddress ?p"
    using LookupAddress_flag[where m = ?m and c = False]
      LookupAddress_flag[where m = ?p and c = False] e by simp
  show "BasicModule_FindWindowsFrameInfo ?m = BasicModule_FindWindowsFrameInfo ?p"
    using FindWindowsFrameInfo_flag[where m = ?m and c = False]
      FindWindowsFrameInfo_flag[where m = ?p and c = False] e by simp
  show "BasicModule_FindCFIFrameInfo ?m = BasicModule_FindCFIFrameInfo ?p"
    using FindCFIFrameInfo_flag[where m = ?m and c = False]
      FindCFIFrameInfo_flag[where m = ?p and c = False] e by simp
qed

lemma load_module_result:
  "fst (load_module basic name text) =
     (if bm_is_corrupt (LoadMapFromMemory text) then LoadCorrupt else LoadOk)"
  "snd (load_module basic name text) = basic(name \<mapsto> LoadMapFromMemory text)"
  by (simp_all add: load_module_def Let_def)

lemma ConvertOneModule_loaded:
  "ConvertOneModule name (basic(name \<mapsto> m)) fast = (True, fast(name \<mapsto> Serialize m))"
  by (simp add: ConvertOneModule_def)

lemma frame_module_own [simp]:
  "frame_module (resolver(name \<mapsto> m)) (frame\<lparr>module := Some name\<rparr>) = Some m"
  by (simp add: frame_module_def)

lemma instruction_module [simp]: "instruction (frame\<lparr>module := n\<rparr>) = instruction frame"
  by simp

lemma basic_queries_own:
  "Basic_FillSourceLineInfo (basic(name \<mapsto> m)) (frame\<lparr>module := Some name\<rparr>) =
     BasicModule_LookupAddress m (unat (instruction frame)) (frame\<lparr>module := Some name\<rparr>)"
  "Basic_FindWindowsFrameInfo (basic(name \<mapsto> m)) (frame\<lparr>module := Some name\<rparr>) =
     BasicModule_FindWindowsFrameInfo m (unat (instruction frame))"
  "Basic_FindCFIFrameInfo (basic(name \<mapsto> m)) (frame\<lparr>module := Some name\<rparr>) =
     BasicModule_FindCFIFrameInfo m (unat (instruction frame))"
  unfolding Basic_FillSourceLineInfo_def Basic_FindWindowsFrameInfo_def
    Basic_FindCFIFrameInfo_def frame_module_own
  by simp_all

lemma fast_queries_own:
  "Fast_FillSourceLineInfo (fast(name \<mapsto> m)) (frame\<lparr>module := Some name\<rparr>) =
     FastModule_LookupAddress m (unat (instruction frame)) (frame\<lparr>module := Some name\<rparr>)"
  "Fast_FindWindowsFrameInfo (fast(name \<mapsto> m)) (frame\<lparr>module := Some name\<rparr>) =
     FastModule_FindWindowsFrameInfo m (unat (instruction frame))"
  "Fast_FindCFIFrameInfo (fast(name \<mapsto> m)) (frame\<lparr>module := Some name\<rparr>) =
     FastModule_FindCFIFrameInfo m (unat (instruction frame))"
  unfolding Fast_FillSourceLineInfo_def Fast_FindWindowsFrameInfo_def
    Fast_FindCFIFrameInfo_def frame_module_own
  by simp_all

subsection \<open>The example files\<close>

lemmas parse_eval =
  parse_record_def tokens_def rest_of_line_def ParseModule_def ParseFile_def ParseFunction_def
  ParseLine_def multiple_flag_def parse_hex_def parse_decimal_def number_of_def hex_digit_def
  decimal_digit_def

lemma corrupt_file_lines:
  "symbol_lines corrupt_file =
     single_function_file @ [''FUNC 2000 zz 0 g'', ''2000 10 11 1'', ''SYMBOL 3000 h'']"
  by (simp add: symbol_lines_def corrupt_file_def single_function_file_def)

lemma single_function_records:
  "parse_record ''MODULE linux x86_64 000 m'' = Some (ModuleRecord ''linux'' ''x86_64'' ''000'' ''m'')"
  "parse_record ''FILE 1 a.c'' = Some (FileRecord 1 ''a.c'')"
  "parse_record ''FUNC 1000 20 0 f'' = Some (FuncRecord ''f'' 0x1000 0x20 0 False)"
  "parse_record ''1000 20 10 1'' =
     Some (LineRecord \<lparr>sl_address = 0x1000, sl_size = 0x20, sl_file_id = 1, sl_line_number = 10\<rparr>)"
  by (simp_all add: parse_eval)

lemma corrupt_file_records:
  "parse_record ''FUNC 2000 zz 0 g'' = None"
  "parse_record ''2000 10 11 1'' =
     Some (LineRecord \<lparr>sl_address = 0x2000, sl_size = 0x10, sl_file_id = 1, sl_line_number = 11\<rparr>)"
  "parse_record ''SYMBOL 3000 h'' = None"
  by (simp_all add: parse_eval)


lemmas load_eval =
  accepted_def parse_line_def enclosing_def is_top_level_def end_function_def flag_corrupt_def
  begin_parse_def empty_module_def single_function_records corrupt_file_records is_body_line_def
  tokens_def parse_hex_def number_of_def hex_digit_def decimal_digit_def

lemma corrupt_file_portion: "parsed_portion corrupt_file = single_function_file"
  unfolding parsed_portion_def corrupt_file_lines
  by (simp add: single_function_file_def load_eval)

lemma single_function_query:
  "BasicModule_LookupAddress (parse_symbol_lines single_function_file) 0x1010
     (query_frame ''m'' 0x1010) =
   ((query_frame ''m'' 0x1010)\<lparr>function_name := ''f'', function_base := 0x1000,
      source_file_name := ''a.c'', source_line := 10, source_line_base := 0x1000\<rparr>, [])"
  by (simp add: parse_symbol_lines_def single_function_file_def load_eval
        BasicModule_LookupAddress_def within_def function_info_def line_info_def
        name_or_empty_def inline_chain_def query_frame_def)

section \<open>The two resolver backends (claim C6)\<close>

text \<open>
  Claim C6. For every symbol file, loaded into the basic resolver under any name and
  serialized from there into the fast resolver, the conversion succeeds and the
  fast resolver answers each of the three queries (\<open>FillSourceLineInfo\<close>,
  \<open>FindWindowsFrameInfo\<close>, \<open>FindCFIFrameInfo\<close>), for every frame of that module,
  exactly as the basic resolver does.
\<close>

theorem C6_backends_agree:
  "let basic' = snd (load_module basic name text);
       converted = ConvertOneModule name basic' fast;
       frame' = frame\<lparr>module := Some name\<rparr>
   in fst converted \<and>
      Fast_FillSourceLineInfo (snd converted) frame' = Basic_FillSourceLineInfo basic' frame' \<and>
      Fast_FindWindowsFrameInfo (snd converted) frame' = Basic_FindWindowsFrameInfo basic' frame' \<and>
      Fast_FindCFIFrameInfo (snd converted) frame' = Basic_FindCFIFrameInfo basic' frame'"
  unfolding Let_def load_module_result ConvertOneModule_loaded fst_conv snd_conv
    basic_queries_own fast_queries_own
  using LoadMapFromMemory_ordered[of "text"]
  by (simp add: LookupAddress_Serialize FindWindowsFrameInfo_Serialize
        FindCFIFrameInfo_Serialize)

section \<open>Corrupt symbol files (claim C7)\<close>

text \<open>
  Claim C7. Loading a symbol file that contains a malformed line (a line that gives
  no record) succeeds with the result "corrupt"; the resolver then has the module
  and reports it corrupt; the successfully parsed portion remains queryable: that
  portion, loaded alone, is not corrupt, and the module answers each query as the
  portion does; serializing the module into the fast resolver succeeds, and the fast
  resolver has the module and reports it corrupt.
\<close>

theorem C7_corrupt_load:
  assumes "l \<in> set (symbol_lines text)" and "parse_record l = None"
  shows "let result = load_module basic name text;
             converted = ConvertOneModule name (snd result) fast;
             portion = parse_symbol_lines (parsed_portion text);
             frame' = frame\<lparr>module := Some name\<rparr>
         in fst result = LoadCorrupt \<and> has_module (snd result) name \<and>
            Basic_IsModuleCorrupt (snd result) name \<and>
            \<not> bm_is_corrupt portion \<and>
            Basic_FillSourceLineInfo (snd result) frame' =
              Basic_FillSourceLineInfo (basic(name \<mapsto> portion)) frame' \<and>
            Basic_FindWindowsFrameInfo (snd result) frame' =
              Basic_FindWindowsFrameInfo (basic(name \<mapsto> portion)) frame' \<and>
            Basic_FindCFIFrameInfo (snd result) frame' =
              Basic_FindCFIFrameInfo (basic(name \<mapsto> portion)) frame' \<and>
            fst converted \<and> has_module (snd converted) name \<and>
            Fast_IsModuleCorrupt (snd converted) name"
proof -
  have c: "bm_is_corrupt (LoadMapFromMemory text)"
    by (rule LoadMapFromMemory_corrupt[OF assms])
  have n: "\<not> bm_is_corrupt (parse_symbol_lines (parsed_portion text))"
    by (simp add: parsed_portion_def accepted_lines_not_corrupt)
  have s: "fm_is_corrupt (Serialize (LoadMapFromMemory text))"
    using c by (simp add: Serialize_def)
  show ?thesis
    unfolding Let_def load_module_result ConvertOneModule_loaded fst_conv snd_conv
      basic_queries_own queries_of_portion
    using c n s by (simp add: has_module_def Basic_IsModuleCorrupt_def Fast_IsModuleCorrupt_def)
qed

text \<open>
  The file of scenario 1 followed by three lines that are not accepted: loading
  gives "corrupt", and the query of the scenario at 0x1010 still finds function
  \<open>f\<close>, file \<open>a.c\<close> and line 10.
\<close>

theorem C7_corrupt_load_witness:
  "fst (load_module Map.empty ''m'' corrupt_file) = LoadCorrupt \<and>
   has_module (snd (load_module Map.empty ''m'' corrupt_file)) ''m'' \<and>
   Basic_IsModuleCorrupt (snd (load_module Map.empty ''m'' corrupt_file)) ''m'' \<and>
   Basic_FillSourceLineInfo (snd (load_module Map.empty ''m'' corrupt_file))
       (query_frame ''m'' 0x1010) =
     ((query_frame ''m'' 0x1010)\<lparr>function_name := ''f'', function_base := 0x1000,
        source_file_name := ''a.c'', source_line := 10, source_line_base := 0x1000\<rparr>, []) \<and>
   Fast_IsModuleCorrupt
     (snd (ConvertOneModule ''m'' (snd (load_module Map.empty ''m'' corrupt_file)) Map.empty))
     ''m''"
proof -
  have l: "''FUNC 2000 zz 0 g'' \<in> set (symbol_lines corrupt_file)"
    by (simp add: corrupt_file_lines)
  have f: "(query_frame ''m'' 0x1010)\<lparr>module := Some ''m''\<rparr> = query_frame ''m'' 0x1010"
    by (simp add: query_frame_def)
  have i: "unat (instruction (query_frame ''m'' 0x1010)) = 0x1010"
    by (simp add: query_frame_def)
  have q: "Basic_FillSourceLineInfo [''m'' \<mapsto> parse_symbol_lines (parsed_portion corrupt_file)]
       (query_frame ''m'' 0x1010) =
     ((query_frame ''m'' 0x1010)\<lparr>function_name := ''f'', function_base := 0x1000,
        source_file_name := ''a.c'', source_line := 10, source_line_base := 0x1000\<rparr>, [])"
    using basic_queries_own(1)[of Map.empty "''m''" _ "query_frame ''m'' 0x1010"]
    by (simp only: f i corrupt_file_portion single_function_query)
  show ?thesis
    using C7_corrupt_load[OF l corrupt_file_records(1), of Map.empty "''m''" Map.empty
        "query_frame ''m'' 0x1010"]
    by (simp add: Let_def f q)
qed

end
